(* ===== verification/Prelude.thy ===== *)
theory Prelude
  imports Complex_Main "HOL-Library.Signed_Division"
begin

text \<open>
  Shared vocabulary of the development: Go error values and their chains, 64-bit integers
  with the wrap-around written out, the generic lemmas on lists the components share, and
  the collections \<open>go_simps\<close>, \<open>emit_simps\<close> and \<open>snapshot_simps\<close> that the component theories
  extend.
\<close>

named_theorems go_simps \<open>evaluation of the Go data model\<close>
named_theorems emit_simps \<open>what a collector's Collect sends\<close>
named_theorems snapshot_simps \<open>unfolding of refreshes that replace a snapshot\<close>

section \<open>Error values\<close>

text \<open>
  The sentinels are the package-level error variables of the sources, and the two errors
  of the context package. \<open>Other\<close> is any error of a library or of the environment,
  \<open>ApiError\<close> is the API client's \<open>*ErrorResponse\<close> with the status of its response, unless that is
  nil, \<open>Wrap\<close> is \<open>fmt.Errorf\<close> with its \<open>%w\<close> operands, and \<open>Panicked\<close> is the scheduler's
  \<open>*panicError\<close>.
\<close>

datatype sentinel =
    Canceled
  | DeadlineExceeded
  | ErrNoResponse
  | ErrNotSuccess
  | ErrNoToken
  | ErrTokenConflict
  | ErrHelpShown
  | ErrNoSpacesCredentials
  | ErrSpacesCredentialConflict
  | ErrNoSpacesRegion
  | ErrNonPositiveInterval
  | ErrNonPositiveTimeout
  | ErrNegativeRateLimit
  | ErrNoDropletMeasured
  | ErrNoLoadBalancerMeasured
  | ErrRefreshCutShort
  | ErrNoBucketMeasured
  | ErrNoUsage
  | ErrNoTotal
  | ErrServerClosed
  | ErrNoRepositoriesListed
  | ErrNoProjectMeasured

datatype goerr =
    Sentinel sentinel
  | ApiError "int option"
  | Other string
  | Wrap string "goerr list"
  | Panicked string

type_synonym 'a res = "goerr + 'a"

text \<open>\<open>errors.Is\<close> for the sentinels: the error itself, or anything in its chain.\<close>

fun errors_is :: "goerr \<Rightarrow> sentinel \<Rightarrow> bool" where
  "errors_is (Sentinel s) t = (s = t)"
| "errors_is (ApiError status) t = False"
| "errors_is (Other m) t = False"
| "errors_is (Wrap m es) t = list_ex (\<lambda>e. errors_is e t) es"
| "errors_is (Panicked m) t = False"

text \<open>\<open>errors.As\<close> with a \<open>**panicError\<close> target.\<close>

fun errors_as_panic :: "goerr \<Rightarrow> bool" where
  "errors_as_panic (Panicked m) = True"
| "errors_as_panic (Wrap m es) = list_ex errors_as_panic es"
| "errors_as_panic e = False"

text \<open>\<open>errors.As\<close> with an \<open>**ErrorResponse\<close> target: the first one in the chain, depth first.\<close>

fun errors_as_api :: "goerr \<Rightarrow> int option option" and first_api :: "goerr list \<Rightarrow> int option option" where
  "errors_as_api (ApiError status) = Some status"
| "errors_as_api (Wrap m es) = first_api es"
| "errors_as_api (Sentinel s) = None"
| "errors_as_api (Other m) = None"
| "errors_as_api (Panicked m) = None"
| "first_api [] = None"
| "first_api (e # es) = (case errors_as_api e of Some status \<Rightarrow> Some status | None \<Rightarrow> first_api es)"

definition isl_err :: "'a res \<Rightarrow> bool" where
  "isl_err r = (case r of Inl _ \<Rightarrow> True | Inr _ \<Rightarrow> False)"

lemma isl_err_simps [simp]: "isl_err (Inl e)" "\<not> isl_err (Inr x)"
  by (simp_all add: isl_err_def)

text \<open>\<open>if err != nil { return err }\<close> after a call.\<close>

definition and_then :: "'a res \<Rightarrow> ('a \<Rightarrow> 'b res) \<Rightarrow> 'b res" where
  "and_then r f = (case r of Inl e \<Rightarrow> Inl e | Inr x \<Rightarrow> f x)"

lemma and_then_simps [simp]:
  "and_then (Inl e) f = Inl e" "and_then (Inr x) f = f x"
  by (simp_all add: and_then_def)

lemma and_then_Inr: "and_then r f = Inr y \<longleftrightarrow> (\<exists>x. r = Inr x \<and> f x = Inr y)"
  by (cases r) simp_all

section \<open>64-bit integers\<close>

text \<open>
  Go's \<open>int\<close>, \<open>int64\<close> and \<open>time.Duration\<close> are 64-bit two's complement. A value is the
  integer it denotes, and every operation that can leave the range wraps.
\<close>

definition in_int64 :: "int \<Rightarrow> bool" where
  "in_int64 n \<longleftrightarrow> - (2 ^ 63) \<le> n \<and> n < 2 ^ 63"

definition wrap64 :: "int \<Rightarrow> int" where
  "wrap64 n = (n + 2 ^ 63) mod 2 ^ 64 - 2 ^ 63"

lemma in_int64_wrap64 [simp]: "in_int64 (wrap64 n)"
proof -
  have "0 \<le> (n + 2 ^ 63) mod 2 ^ 64" and "(n + 2 ^ 63) mod 2 ^ 64 < (2::int) ^ 64"
    by simp_all
  then show ?thesis by (simp add: in_int64_def wrap64_def)
qed

lemma wrap64_id: "in_int64 n \<Longrightarrow> wrap64 n = n"
  by (simp add: in_int64_def wrap64_def)

lemma wrap64_small: "0 \<le> n \<Longrightarrow> n < 2 ^ 63 \<Longrightarrow> wrap64 n = n"
  by (rule wrap64_id) (simp add: in_int64_def)

text \<open>Multiplication, the left shift, and division truncating towards zero.\<close>

definition mul64 :: "int \<Rightarrow> int \<Rightarrow> int" where
  "mul64 a b = wrap64 (a * b)"

definition shl64 :: "int \<Rightarrow> nat \<Rightarrow> int" where
  "shl64 a k = wrap64 (a * 2 ^ k)"

definition quot64 :: "int \<Rightarrow> int \<Rightarrow> int" where
  "quot64 a b = wrap64 (a sdiv b)"

text \<open>\<open>time.Duration\<close> counts nanoseconds.\<close>

definition second :: int where "second = 1000000000"
definition minute :: int where "minute = 60 * second"

lemma sdiv_pos: "0 \<le> a \<Longrightarrow> 0 < b \<Longrightarrow> a sdiv b = a div (b::int)"
  by (cases "a = 0") (simp_all add: signed_divide_int_def sgn_if)

lemma quot64_pos: "0 \<le> a \<Longrightarrow> a < 2 ^ 63 \<Longrightarrow> 0 < b \<Longrightarrow> quot64 a b = a div b"
proof -
  assume a: "0 \<le> a" "a < 2 ^ 63" and b: "0 < b"
  then have "0 \<le> a div b" and "a div b \<le> a"
    using zdiv_mono2 [of a 1 b] by (simp_all add: pos_imp_zdiv_nonneg_iff)
  with a b show ?thesis by (simp add: quot64_def sdiv_pos wrap64_small)
qed

end
