(* ===== verification/Go_Float.thy ===== *)
theory Go_Float
  imports Prelude "HOL-Library.Log_Nat"
begin

text \<open>
  IEEE 754 double precision as far as the exporter uses it: the special values, comparison,
  the conversion of 64-bit integers with rounding to nearest even, scaling by a power of two,
  counting up by one, and division by a positive integer. A finite value is the rational it denotes; the two zeros are one value, because no
  computation here can tell them apart.
\<close>

datatype float64 = NaN | PosInf | NegInf | Fin rat

fun is_nan :: "float64 \<Rightarrow> bool" where
  "is_nan NaN = True"
| "is_nan _ = False"

text \<open>Go's \<open>>\<close>, \<open><\<close> and \<open><=\<close> on floats: every comparison with a NaN is false.\<close>

fun flt_less :: "float64 \<Rightarrow> float64 \<Rightarrow> bool" where
  "flt_less NaN _ = False"
| "flt_less _ NaN = False"
| "flt_less NegInf y = (y \<noteq> NegInf)"
| "flt_less _ NegInf = False"
| "flt_less PosInf _ = False"
| "flt_less _ PosInf = True"
| "flt_less (Fin a) (Fin b) = (a < b)"

fun flt_le :: "float64 \<Rightarrow> float64 \<Rightarrow> bool" where
  "flt_le NaN _ = False"
| "flt_le _ NaN = False"
| "flt_le x y = (x = y \<or> flt_less x y)"

lemma flt_less_irrefl [simp]: "\<not> flt_less x x"
  by (cases x) auto

lemma flt_less_trans: "flt_less x y \<Longrightarrow> flt_less y z \<Longrightarrow> flt_less x z"
  by (cases x; cases y; cases z) auto

section \<open>Conversion of integers\<close>

text \<open>
  A double has 53 significant bits. \<open>excess_bits n\<close> is how many low bits of \<open>n\<close> do not fit,
  and \<open>round_nat\<close> rounds to the nearest multiple of the resulting unit, ties to even.
\<close>

fun excess_bits :: "nat \<Rightarrow> nat" where
  "excess_bits n = (if n < 2 ^ 53 then 0 else Suc (excess_bits (n div 2)))"

declare excess_bits.simps [simp del]

definition round_half_even :: "nat \<Rightarrow> nat \<Rightarrow> nat" where
  "round_half_even n u =
     (let q = n div u; r = n mod u
      in if 2 * r < u then q else if u < 2 * r then Suc q else if even q then q else Suc q)"

definition round_nat :: "nat \<Rightarrow> nat" where
  "round_nat n = (let u = 2 ^ excess_bits n in round_half_even n u * u)"

definition of_int64 :: "int \<Rightarrow> float64" where
  "of_int64 n =
     (if 0 \<le> n then Fin (of_nat (round_nat (nat n))) else Fin (- of_nat (round_nat (nat (- n)))))"

lemma round_nat_exact: "n < 2 ^ 53 \<Longrightarrow> round_nat n = n"
  by (simp add: round_nat_def round_half_even_def excess_bits.simps)

lemma of_int64_exact: "\<bar>n\<bar> < 2 ^ 53 \<Longrightarrow> of_int64 n = Fin (of_int n)"
  by (cases "0 \<le> n") (auto simp: of_int64_def round_nat_exact)

lemma of_int64_not_nan [simp]: "\<not> is_nan (of_int64 n)"
  by (simp add: of_int64_def)

lemma of_int64_finite: "\<exists>q. of_int64 n = Fin q"
  by (simp add: of_int64_def)

text \<open>The rounding error is at most half a unit in the last place.\<close>

lemma round_half_even_bound:
  assumes "0 < u"
  shows "2 * (round_half_even n u * u) \<le> 2 * n + u" and "2 * n \<le> 2 * (round_half_even n u * u) + u"
proof -
  let ?q = "n div u" and ?r = "n mod u"
  have n: "n = ?q * u + ?r" and r: "?r < u"
    using assms by simp_all
  have "2 * (round_half_even n u * u) \<le> 2 * n + u \<and> 2 * n \<le> 2 * (round_half_even n u * u) + u"
  proof (cases "round_half_even n u = ?q")
    case True
    then have "2 * ?r \<le> u"
      by (auto simp: round_half_even_def Let_def split: if_splits)
    then show ?thesis using n unfolding True by linarith
  next
    case False
    then have up: "round_half_even n u = Suc ?q" and "u \<le> 2 * ?r"
      by (auto simp: round_half_even_def Let_def split: if_splits)
    moreover have "Suc ?q * u = ?q * u + u" by simp
    ultimately show ?thesis using n r unfolding up by linarith
  qed
  then show "2 * (round_half_even n u * u) \<le> 2 * n + u"
    and "2 * n \<le> 2 * (round_half_even n u * u) + u" by simp_all
qed

section \<open>Scaling and booleans\<close>

text \<open>
  A product with a power of two that is at least one: no significant bit is lost, and the only
  thing that can happen is that the exponent leaves its range.
\<close>

fun flt_scale :: "nat \<Rightarrow> float64 \<Rightarrow> float64" where
  "flt_scale k (Fin a) =
     (if 2 ^ 1024 \<le> a * 2 ^ k then PosInf
      else if a * 2 ^ k \<le> - (2 ^ 1024) then NegInf else Fin (a * 2 ^ k))"
| "flt_scale k x = x"

text \<open>\<open>boolToFloat\<close>, which several collectors carry a copy of.\<close>

definition bool_to_float :: "bool \<Rightarrow> float64" where
  "bool_to_float b = (if b then Fin 1 else Fin 0)"

lemma bool_to_float_simps [simp]:
  "bool_to_float True = Fin 1" "bool_to_float False = Fin 0"
  by (simp_all add: bool_to_float_def)

lemma bool_to_float_inj [simp]: "bool_to_float a = bool_to_float b \<longleftrightarrow> a = b"
  by (simp add: bool_to_float_def)

text \<open>The length of a slice, converted.\<close>

definition len_float :: "'a list \<Rightarrow> float64" where
  "len_float xs = of_int64 (int (length xs))"

lemma len_float_exact: "length xs < 2 ^ 53 \<Longrightarrow> len_float xs = Fin (of_nat (length xs))"
  by (simp add: len_float_def of_int64_exact)

section \<open>Counting\<close>

text \<open>
  \<open>x++\<close> on a float. It is applied to counts only, which start at zero and so are integers; from
  \<open>2 ^ 53\<close> on the sum rounds back to where it was.
\<close>

fun flt_inc :: "float64 \<Rightarrow> float64" where
  "flt_inc (Fin a) = of_int64 (\<lfloor>a\<rfloor> + 1)"
| "flt_inc x = x"

lemma flt_inc_exact: "n + 1 < 2 ^ 53 \<Longrightarrow> flt_inc (Fin (of_nat n)) = Fin (of_nat (Suc n))"
  by (simp add: of_int64_exact)

section \<open>Division by a positive integer\<close>

text \<open>
  The quotient of two naturals, rounded to 53 significant bits: \<open>exponent_of p q\<close> is the \<open>e\<close> with
  \<open>2 ^ e \<le> p / q < 2 ^ (e + 1)\<close>, so that the quotient scaled by \<open>2 ^ (52 - e)\<close> has 53 bits before
  the point. The operands here are sums of money, counts and percentages, whose quotients by 100
  are far from the ends of the exponent's range.
\<close>

definition exponent_of :: "nat \<Rightarrow> nat \<Rightarrow> int" where
  "exponent_of p q =
     (let e = int (floorlog 2 p) - int (floorlog 2 q)
      in if q * 2 ^ nat e \<le> p * 2 ^ nat (- e) then e else e - 1)"

definition quotient_float :: "nat \<Rightarrow> nat \<Rightarrow> rat" where
  "quotient_float p q =
     (let k = 52 - exponent_of p q
      in of_nat (round_half_even (p * 2 ^ nat k) (q * 2 ^ nat (- k))) * 2 ^ nat (- k) / 2 ^ nat k)"

fun flt_div :: "float64 \<Rightarrow> nat \<Rightarrow> float64" where
  "flt_div (Fin a) n =
     (case quotient_of a of
        (p, q) \<Rightarrow>
          if 0 \<le> p then Fin (quotient_float (nat p) (nat q * n))
          else Fin (- quotient_float (nat (- p)) (nat q * n)))"
| "flt_div x n = x"

text \<open>Rounding to an integer does not pass an integer above.\<close>

lemma round_half_even_le: "0 < u \<Longrightarrow> n \<le> m * u \<Longrightarrow> round_half_even n u \<le> m"
proof -
  assume u: "0 < u" and n: "n \<le> m * u"
  then have "n div u \<le> m" by (metis div_le_mono nonzero_mult_div_cancel_right not_gr_zero)
  moreover have "n mod u = 0" if "n div u = m"
    using n that by (metis add_diff_cancel_left' diff_is_0_eq mult_div_mod_eq mult.commute)
  ultimately show ?thesis
    using u by (cases "n div u = m") (auto simp: round_half_even_def Let_def)
qed

lemma exponent_of_le: "p \<le> q \<Longrightarrow> exponent_of p q \<le> 0"
  using floorlog_mono [of p q 2] by (simp add: exponent_of_def Let_def)

lemma quotient_float_bounds:
  assumes "p \<le> q" and "0 < q"
  shows "0 \<le> quotient_float p q" and "quotient_float p q \<le> 1"
proof -
  let ?k = "52 - exponent_of p q"
  have "0 \<le> ?k" using exponent_of_le [OF assms(1)] by simp
  then have "nat (- ?k) = 0" by simp
  moreover have "round_half_even (p * 2 ^ nat ?k) q \<le> 2 ^ nat ?k"
    using assms by (intro round_half_even_le) (simp_all add: mult.commute)
  then have "(of_nat (round_half_even (p * 2 ^ nat ?k) q) :: rat) \<le> 2 ^ nat ?k"
    by (metis of_nat_le_iff of_nat_numeral of_nat_power)
  ultimately show "quotient_float p q \<le> 1"
    by (simp add: quotient_float_def Let_def)
  show "0 \<le> quotient_float p q" by (simp add: quotient_float_def Let_def)
qed

lemma flt_div_unit:
  assumes "0 \<le> a" and "a \<le> of_nat n" and "0 < n"
  shows "\<exists>r. flt_div (Fin a) n = Fin r \<and> 0 \<le> r \<and> r \<le> 1"
proof -
  obtain p q where pq: "quotient_of a = (p, q)" by fastforce
  then have q: "0 < q" and a: "a = of_int p / of_int q"
    by (simp_all add: quotient_of_denom_pos quotient_of_div)
  then have p: "0 \<le> p" using assms(1) by (simp add: zero_le_divide_iff)
  have "(of_int p :: rat) \<le> of_int (q * int n)"
    using assms(2) q unfolding a by (simp add: field_simps)
  then have "p \<le> q * int n" by (simp only: of_int_le_iff)
  then have "int (nat p) \<le> int (nat q * n)" using p q by simp
  then have "nat p \<le> nat q * n" by (simp only: of_nat_le_iff)
  moreover have "0 < nat q * n" using q assms(3) by simp
  ultimately show ?thesis
    using quotient_float_bounds [of "nat p" "nat q * n"] pq p by simp
qed

end
