(* ===== verification/Go_Strings.thy ===== *)
theory Go_Strings
  imports Prelude "HOL-Library.Multiset" "HOL-Library.List_Lexorder" "HOL-Library.Char_ord"
begin

text \<open>
  Go strings are byte strings, here \<^typ>\<open>string\<close>, a list of 8-bit characters. This theory
  models the functions of the packages strings, strconv and sort that the sources use:
  Split, SplitN, TrimSpace, Cut, TrimPrefix, Join, ToUpper, Itoa, Atoi, FormatBool and sort.Strings, with the
  round trips the component proofs rest on.
\<close>

section \<open>strings.Split on one separator byte, strings.Join\<close>

fun split_on :: "char \<Rightarrow> string \<Rightarrow> string list" where
  "split_on c [] = [[]]"
| "split_on c (x # xs) =
     (if x = c then [] # split_on c xs
      else case split_on c xs of [] \<Rightarrow> [[x]] | w # ws \<Rightarrow> (x # w) # ws)"

fun join_with :: "string \<Rightarrow> string list \<Rightarrow> string" where
  "join_with sep [] = []"
| "join_with sep [w] = w"
| "join_with sep (w # v # vs) = w @ sep @ join_with sep (v # vs)"

lemma split_on_nonempty [simp]: "split_on c xs \<noteq> []"
  by (induction c xs rule: split_on.induct) (auto split: list.splits)

lemma join_with_cons_head: "join_with sep ((x # w) # ws) = x # join_with sep (w # ws)"
  by (cases ws) auto

lemma join_with_nil_head: "ws \<noteq> [] \<Longrightarrow> join_with sep ([] # ws) = sep @ join_with sep ws"
  by (cases ws) auto

lemma join_split_on: "join_with [c] (split_on c xs) = xs"
proof (induction c xs rule: split_on.induct)
  case (1 c)
  then show ?case by simp
next
  case (2 c x xs)
  then show ?case
    by (cases "split_on c xs") (auto simp: join_with_cons_head join_with_nil_head)
qed

lemma split_on_join_cons:
  "split_on c (x @ c # xs) = split_on c x @ split_on c xs"
proof (induction x)
  case (Cons a x)
  then show ?case by (cases "split_on c x") auto
qed simp

lemma split_on_join:
  "split_on c (join_with [c] (x # xs)) = concat (map (split_on c) (x # xs))"
proof (induction xs arbitrary: x)
  case (Cons y ys)
  then show ?case by (simp add: split_on_join_cons)
qed simp

lemma split_on_no_sep: "w \<in> set (split_on c xs) \<Longrightarrow> c \<notin> set w"
proof (induction c xs arbitrary: w rule: split_on.induct)
  case (1 c)
  then show ?case by simp
next
  case (2 c x xs)
  then show ?case
    by (cases "split_on c xs") (auto split: if_splits)
qed

section \<open>strings.TrimSpace\<close>

text \<open>
  The encodings of the Unicode White_Space code points: six ASCII bytes, and the UTF-8 byte
  sequences of U+0085, U+00A0, U+1680, U+2000 to U+200A, U+2028, U+2029, U+202F, U+205F and
  U+3000. A trim removes one of them at a time from an end.
\<close>

definition space_encodings :: "string list" where
  "space_encodings =
     [[CHR 0x09], [CHR 0x0A], [CHR 0x0B], [CHR 0x0C], [CHR 0x0D], [CHR 0x20],
      [CHR 0xC2, CHR 0x85], [CHR 0xC2, CHR 0xA0], [CHR 0xE1, CHR 0x9A, CHR 0x80],
      [CHR 0xE2, CHR 0x80, CHR 0x80], [CHR 0xE2, CHR 0x80, CHR 0x81],
      [CHR 0xE2, CHR 0x80, CHR 0x82], [CHR 0xE2, CHR 0x80, CHR 0x83],
      [CHR 0xE2, CHR 0x80, CHR 0x84], [CHR 0xE2, CHR 0x80, CHR 0x85],
      [CHR 0xE2, CHR 0x80, CHR 0x86], [CHR 0xE2, CHR 0x80, CHR 0x87],
      [CHR 0xE2, CHR 0x80, CHR 0x88], [CHR 0xE2, CHR 0x80, CHR 0x89],
      [CHR 0xE2, CHR 0x80, CHR 0x8A], [CHR 0xE2, CHR 0x80, CHR 0xA8],
      [CHR 0xE2, CHR 0x80, CHR 0xA9], [CHR 0xE2, CHR 0x80, CHR 0xAF],
      [CHR 0xE2, CHR 0x81, CHR 0x9F], [CHR 0xE3, CHR 0x80, CHR 0x80]]"

definition has_prefix :: "string \<Rightarrow> string \<Rightarrow> bool" where
  "has_prefix p s \<longleftrightarrow> take (length p) s = p"

fun strip_any :: "string list \<Rightarrow> string \<Rightarrow> string option" where
  "strip_any [] s = None"
| "strip_any (p # ps) s =
     (if p \<noteq> [] \<and> has_prefix p s then Some (drop (length p) s) else strip_any ps s)"

lemma strip_any_shorter: "strip_any ps s = Some t \<Longrightarrow> length t < length s"
proof (induction ps)
  case (Cons p ps)
  show ?case
  proof (cases "p \<noteq> [] \<and> has_prefix p s")
    case True
    then have "length p \<le> length s"
      by (metis has_prefix_def length_take min.cobounded1 nat_le_linear take_all_iff)
    with True Cons.prems show ?thesis by (cases p) auto
  next
    case False
    with Cons.prems have "strip_any ps s = Some t"
      by (simp split: if_splits)
    then show ?thesis by (rule Cons.IH)
  qed
qed simp

function trim_left_of :: "string list \<Rightarrow> string \<Rightarrow> string" where
  "trim_left_of ps s = (case strip_any ps s of None \<Rightarrow> s | Some t \<Rightarrow> trim_left_of ps t)"
  by pat_completeness auto
termination
  by (relation "measure (\<lambda>(ps, s). length s)") (auto dest: strip_any_shorter)

declare trim_left_of.simps [simp del]

definition trim_space :: "string \<Rightarrow> string" where
  "trim_space s =
     rev (trim_left_of (map rev space_encodings) (rev (trim_left_of space_encodings s)))"

lemma trim_left_of_stop: "strip_any ps (trim_left_of ps s) = None"
proof (induction ps s rule: trim_left_of.induct)
  case (1 ps s)
  then show ?case
    by (cases "strip_any ps s") (simp_all add: trim_left_of.simps [of ps s])
qed

lemma trim_left_of_suffix: "\<exists>p. s = p @ trim_left_of ps s"
proof (induction ps s rule: trim_left_of.induct)
  case (1 ps s)
  show ?case
  proof (cases "strip_any ps s")
    case None
    then show ?thesis by (simp add: trim_left_of.simps [of ps s])
  next
    case (Some t)
    have "\<exists>n. t = drop n s"
      using Some by (induction ps) (auto split: if_splits)
    then obtain q where "s = q @ t" by (metis append_take_drop_id)
    with Some "1.IH" [OF Some] show ?thesis
      by (metis append_assoc option.simps(5) trim_left_of.simps)
  qed
qed

text \<open>The result has no white space left at its end, and is a contiguous part of the input.\<close>

lemma trim_space_end: "strip_any (map rev space_encodings) (rev (trim_space s)) = None"
  by (simp add: trim_space_def trim_left_of_stop)

lemma trim_space_infix: "\<exists>p q. s = p @ trim_space s @ q"
proof -
  obtain p where p: "s = p @ trim_left_of space_encodings s"
    using trim_left_of_suffix by blast
  let ?t = "trim_left_of space_encodings s"
  obtain q where "rev ?t = q @ trim_left_of (map rev space_encodings) (rev ?t)"
    using trim_left_of_suffix by blast
  then have "?t = trim_space s @ rev q"
    unfolding trim_space_def by (metis rev_append rev_rev_ident)
  with p show ?thesis by metis
qed

lemma trim_left_of_id: "strip_any ps s = None \<Longrightarrow> trim_left_of ps s = s"
  by (simp add: trim_left_of.simps [of ps s])

lemma trim_space_nil [simp]: "trim_space [] = []"
  by (simp add: trim_space_def trim_left_of.simps space_encodings_def has_prefix_def)

section \<open>strings.Cut, TrimPrefix, IndexByte, ToUpper\<close>

fun cut_at :: "char \<Rightarrow> string \<Rightarrow> string \<times> string \<times> bool" where
  "cut_at c [] = ([], [], False)"
| "cut_at c (x # xs) =
     (if x = c then ([], xs, True)
      else case cut_at c xs of (a, b, found) \<Rightarrow> (x # a, b, found))"

definition trim_prefix :: "string \<Rightarrow> string \<Rightarrow> string" where
  "trim_prefix p s = (if has_prefix p s then drop (length p) s else s)"

definition before_byte :: "char \<Rightarrow> string \<Rightarrow> string" where
  "before_byte c s = takeWhile (\<lambda>x. x \<noteq> c) s"

definition to_upper_char :: "char \<Rightarrow> char" where
  "to_upper_char c =
     (let n = (of_char c :: nat) in if 97 \<le> n \<and> n \<le> 122 then char_of (n - 32) else c)"

definition to_upper :: "string \<Rightarrow> string" where
  "to_upper s = map to_upper_char s"

lemma to_upper_letters [simp]:
  "to_upper_char (CHR ''a'') = CHR ''A''"
  "to_upper_char (CHR ''b'') = CHR ''B''"
  "to_upper_char (CHR ''c'') = CHR ''C''"
  "to_upper_char (CHR ''d'') = CHR ''D''"
  "to_upper_char (CHR ''e'') = CHR ''E''"
  "to_upper_char (CHR ''f'') = CHR ''F''"
  "to_upper_char (CHR ''g'') = CHR ''G''"
  "to_upper_char (CHR ''h'') = CHR ''H''"
  "to_upper_char (CHR ''i'') = CHR ''I''"
  "to_upper_char (CHR ''j'') = CHR ''J''"
  "to_upper_char (CHR ''k'') = CHR ''K''"
  "to_upper_char (CHR ''l'') = CHR ''L''"
  "to_upper_char (CHR ''m'') = CHR ''M''"
  "to_upper_char (CHR ''n'') = CHR ''N''"
  "to_upper_char (CHR ''o'') = CHR ''O''"
  "to_upper_char (CHR ''p'') = CHR ''P''"
  "to_upper_char (CHR ''q'') = CHR ''Q''"
  "to_upper_char (CHR ''r'') = CHR ''R''"
  "to_upper_char (CHR ''s'') = CHR ''S''"
  "to_upper_char (CHR ''t'') = CHR ''T''"
  "to_upper_char (CHR ''u'') = CHR ''U''"
  "to_upper_char (CHR ''v'') = CHR ''V''"
  "to_upper_char (CHR ''w'') = CHR ''W''"
  "to_upper_char (CHR ''x'') = CHR ''X''"
  "to_upper_char (CHR ''y'') = CHR ''Y''"
  "to_upper_char (CHR ''z'') = CHR ''Z''"
  by code_simp+

lemma cut_at_none: "c \<notin> set s \<Longrightarrow> cut_at c s = (s, [], False)"
  by (induction s) auto

lemma cut_at_found: "c \<notin> set a \<Longrightarrow> cut_at c (a @ c # b) = (a, b, True)"
  by (induction a) auto

section \<open>strings.SplitN\<close>

fun split_n :: "char \<Rightarrow> nat \<Rightarrow> string \<Rightarrow> string list" where
  "split_n c 0 s = []"
| "split_n c (Suc 0) s = [s]"
| "split_n c (Suc (Suc n)) s =
     (case cut_at c s of (a, b, found) \<Rightarrow> if found then a # split_n c (Suc n) b else [s])"

lemma cut_at_parts: "cut_at c s = (a, b, True) \<Longrightarrow> s = a @ c # b \<and> c \<notin> set a"
proof (induction s arbitrary: a)
  case (Cons x s)
  then show ?case by (cases "cut_at c s") (auto split: if_splits)
qed simp

section \<open>strconv.Itoa and strconv.Atoi\<close>

definition digit_char :: "nat \<Rightarrow> char" where
  "digit_char d = char_of (48 + d)"

definition digit_value :: "char \<Rightarrow> nat option" where
  "digit_value c =
     (let n = (of_char c :: nat) in if 48 \<le> n \<and> n \<le> 57 then Some (n - 48) else None)"

fun decimal :: "nat \<Rightarrow> string" where
  "decimal n = (if n < 10 then [digit_char n] else decimal (n div 10) @ [digit_char (n mod 10)])"

declare decimal.simps [simp del]

definition itoa :: "int \<Rightarrow> string" where
  "itoa n = (if n < 0 then CHR ''-'' # decimal (nat (- n)) else decimal (nat n))"

fun digits_value :: "nat \<Rightarrow> string \<Rightarrow> nat option" where
  "digits_value acc [] = Some acc"
| "digits_value acc (c # cs) =
     (case digit_value c of None \<Rightarrow> None | Some d \<Rightarrow> digits_value (10 * acc + d) cs)"

definition parse_digits :: "string \<Rightarrow> nat option" where
  "parse_digits s = (if s = [] then None else digits_value 0 s)"

text \<open>
  \<open>strconv.Atoi\<close>, and \<open>ParseInt\<close> in base 10: an optional sign, at least one digit, nothing
  but digits, and a value in the 64-bit range. \<open>None\<close> is the error.
\<close>

definition atoi :: "string \<Rightarrow> int option" where
  "atoi s =
     (case (case s of
              [] \<Rightarrow> None
            | c # cs \<Rightarrow>
                if c = CHR ''-'' then map_option (\<lambda>n. - int n) (parse_digits cs)
                else if c = CHR ''+'' then map_option int (parse_digits cs)
                else map_option int (parse_digits s)) of
        None \<Rightarrow> None
      | Some n \<Rightarrow> if in_int64 n then Some n else None)"

lemma digit_value_char: "d < 10 \<Longrightarrow> digit_value (digit_char d) = Some d"
  by (simp add: digit_value_def digit_char_def of_char_of)

lemma digits_value_append:
  "digits_value acc (xs @ ys) =
     (case digits_value acc xs of None \<Rightarrow> None | Some a \<Rightarrow> digits_value a ys)"
  by (induction xs arbitrary: acc) (auto split: option.splits)

lemma digits_value_decimal: "digits_value 0 (decimal n) = Some n"
proof (induction n rule: decimal.induct)
  case (1 n)
  show ?case
  proof (cases "n < 10")
    case True
    then show ?thesis by (subst decimal.simps) (simp add: digit_value_char)
  next
    case False
    with "1.IH" show ?thesis
      by (subst decimal.simps) (simp add: digits_value_append digit_value_char)
  qed
qed

lemma decimal_nonempty [simp]: "decimal n \<noteq> []"
  by (subst decimal.simps) simp

lemma digit_value_decimal: "c \<in> set (decimal n) \<Longrightarrow> digit_value c \<noteq> None"
proof (induction n rule: decimal.induct)
  case (1 n)
  then show ?case
    by (cases "n < 10") (auto simp: decimal.simps [of n] digit_value_char)
qed

lemma decimal_no_sign:
  assumes "decimal n = c # cs"
  shows "c \<noteq> CHR ''-''" and "c \<noteq> CHR ''+''"
proof -
  have "digit_value c \<noteq> None"
    using digit_value_decimal [of c n] assms by simp
  then show "c \<noteq> CHR ''-''" and "c \<noteq> CHR ''+''"
    by (auto simp: digit_value_def)
qed

lemma parse_digits_decimal [simp]: "parse_digits (decimal n) = Some n"
  by (simp add: parse_digits_def digits_value_decimal)

lemma atoi_itoa: "in_int64 n \<Longrightarrow> atoi (itoa n) = Some n"
proof (cases "n < 0")
  case False
  assume "in_int64 n"
  moreover obtain c cs where "decimal (nat n) = c # cs"
    by (cases "decimal (nat n)") auto
  ultimately show ?thesis
    using False decimal_no_sign [of "nat n" c cs] parse_digits_decimal [of "nat n"]
    by (simp add: itoa_def atoi_def)
qed (simp add: itoa_def atoi_def)

lemma itoa_inj: "itoa m = itoa n \<Longrightarrow> m = n"
proof -
  assume eq: "itoa m = itoa n"
  have neg: "decimal k = CHR ''-'' # ds \<Longrightarrow> False" for k ds
    using decimal_no_sign(1) by blast
  have dec: "decimal a = decimal b \<Longrightarrow> a = b" for a b
    by (metis option.inject parse_digits_decimal)
  from eq show ?thesis
    by (auto simp: itoa_def split: if_splits dest: dec neg neg [OF sym])
qed

section \<open>strconv.FormatBool\<close>

definition format_bool :: "bool \<Rightarrow> string" where
  "format_bool v = (if v then ''true'' else ''false'')"

lemma format_bool_inj [simp]: "format_bool a = format_bool b \<longleftrightarrow> a = b"
  by (simp add: format_bool_def)

section \<open>sort.Strings\<close>

text \<open>Byte-wise lexicographic order, which is the order of \<open>List_Lexorder\<close> over \<open>Char_ord\<close>.\<close>

definition sort_strings :: "string list \<Rightarrow> string list" where
  "sort_strings xs = sort xs"

lemma sort_strings_set [simp]: "set (sort_strings xs) = set xs"
  by (simp add: sort_strings_def)

lemma sort_strings_perm: "mset xs = mset ys \<Longrightarrow> sort_strings xs = sort_strings ys"
  by (simp add: sort_strings_def properties_for_sort)

end
