(* ===== verification/Metrics.thy ===== *)
theory Metrics
  imports Go_Float Go_Strings "HOL-Library.Sublist"
begin

text \<open>
  What a collector hands to Prometheus. A descriptor is the name and the variable labels
  given to \<open>prometheus.NewDesc\<close>; a metric is the argument list of one
  \<open>prometheus.MustNewConstMetric\<close> call, in the order Collect sends them. The client library
  itself is not modelled: the development proves what it documents as its preconditions,
  namely that every metric carries one value per declared label, was described, and does not
  repeat the series of another.
\<close>

datatype desc = Desc (fq_name: string) (var_labels: "string list")

datatype value_type = CounterValue | GaugeValue

datatype metric =
  Metric (m_desc: desc) (m_type: value_type) (m_value: float64) (m_labels: "string list")

text \<open>The \<open>gauge\<close> helper of the collectors.\<close>

definition gauge :: "desc \<Rightarrow> float64 \<Rightarrow> string list \<Rightarrow> metric" where
  "gauge d v labels = Metric d GaugeValue v labels"

lemma gauge_sel [simp]:
  "m_desc (gauge d v ls) = d" "m_labels (gauge d v ls) = ls" "m_value (gauge d v ls) = v"
  "m_type (gauge d v ls) = GaugeValue"
  by (simp_all add: gauge_def)

text \<open>
  A series is identified by its metric name and label values. \<open>arity_ok\<close> is the precondition
  whose violation makes \<open>MustNewConstMetric\<close> panic.
\<close>

definition arity_ok :: "metric \<Rightarrow> bool" where
  "arity_ok m \<longleftrightarrow> length (m_labels m) = length (var_labels (m_desc m))"

definition series_of :: "metric \<Rightarrow> string \<times> string list" where
  "series_of m = (fq_name (m_desc m), m_labels m)"

definition well_described :: "desc list \<Rightarrow> metric list \<Rightarrow> bool" where
  "well_described ds ms \<longleftrightarrow> (\<forall>m \<in> set ms. m_desc m \<in> set ds \<and> arity_ok m)"

definition no_duplicates :: "metric list \<Rightarrow> bool" where
  "no_duplicates ms \<longleftrightarrow> distinct (map series_of ms)"

lemma arity_ok_gauge [simp]: "arity_ok (gauge d v ls) \<longleftrightarrow> length ls = length (var_labels d)"
  by (simp add: arity_ok_def)

lemma series_of_gauge [simp]: "series_of (gauge d v ls) = (fq_name d, ls)"
  by (simp add: series_of_def)

lemma well_described_simps [simp]:
  "well_described ds []"
  "well_described ds (m # ms) \<longleftrightarrow> m_desc m \<in> set ds \<and> arity_ok m \<and> well_described ds ms"
  "well_described ds (ms @ ns) \<longleftrightarrow> well_described ds ms \<and> well_described ds ns"
  by (auto simp: well_described_def)

lemma well_described_branches [simp]:
  "well_described ds (if c then ms else ns) \<longleftrightarrow>
     (c \<longrightarrow> well_described ds ms) \<and> (\<not> c \<longrightarrow> well_described ds ns)"
  "well_described ds (case opt of None \<Rightarrow> ms | Some x \<Rightarrow> f x) \<longleftrightarrow>
     (opt = None \<longrightarrow> well_described ds ms) \<and> (\<forall>x. opt = Some x \<longrightarrow> well_described ds (f x))"
  by (auto split: option.splits)

lemma well_described_concat_map:
  "(\<And>x. x \<in> set xs \<Longrightarrow> well_described ds (f x)) \<Longrightarrow> well_described ds (concat (map f xs))"
  by (auto simp: well_described_def)

text \<open>
  Metrics of different names are different series. Which names a block of metrics can have at most,
  in order, is read off its shape by \<open>names_within_rules\<close>.
\<close>

definition metric_name :: "metric \<Rightarrow> string" where
  "metric_name m = fq_name (m_desc m)"

lemma metric_name_gauge [simp]: "metric_name (gauge d v ls) = fq_name d"
  by (simp add: metric_name_def)

definition names_within :: "metric list \<Rightarrow> string list \<Rightarrow> bool" where
  "names_within ms ns \<longleftrightarrow> subseq (map metric_name ms) ns"

lemma distinct_subseq: "subseq xs ys \<Longrightarrow> distinct ys \<Longrightarrow> distinct xs"
proof (induction rule: list_emb.induct)
  case (list_emb_Cons2 x y xs ys)
  then show ?case by (auto dest: list_emb_set)
qed simp_all

lemma names_distinct:
  assumes "names_within ms ns" and "distinct ns"
  shows "distinct (map series_of ms)"
proof -
  have "distinct (map metric_name ms)"
    using assms distinct_subseq unfolding names_within_def by blast
  then show ?thesis by (auto simp: distinct_map inj_on_def metric_name_def series_of_def)
qed

lemma names_within_rules:
  "names_within [] []"
  "names_within ms ns \<Longrightarrow> names_within (gauge d v ls # ms) (fq_name d # ns)"
  "names_within ms ns \<Longrightarrow> names_within ms' ns' \<Longrightarrow> names_within (ms @ ms') (ns @ ns')"
  "names_within ms ns \<Longrightarrow> names_within (if c then ms else []) ns"
  "names_within ms ns \<Longrightarrow> names_within (if c then [] else ms) ns"
  "(\<And>x. names_within (f x) ns) \<Longrightarrow> names_within (case opt of None \<Rightarrow> [] | Some x \<Rightarrow> f x) ns"
  "(\<And>x y. names_within (g x y) ns) \<Longrightarrow> names_within (case p of (x, y) \<Rightarrow> g x y) ns"
  by (auto simp: names_within_def metric_name_def list_emb_append_mono split: option.splits prod.splits)

text \<open>
  The shape every per-resource collector has: a block of metrics for each resource, whose
  series all start with that resource's own key.
\<close>

lemma no_duplicates_blocks:
  assumes "distinct (map key xs)"
    and "\<And>x. x \<in> set xs \<Longrightarrow> distinct (map series_of (f x))"
    and "\<And>x m. x \<in> set xs \<Longrightarrow> m \<in> set (f x) \<Longrightarrow> owner m = key x"
    and "\<And>m n. series_of m = series_of n \<Longrightarrow> owner m = owner n"
  shows "no_duplicates (concat (map f xs))"
  using assms(1-3)
proof (induction xs)
  case Nil
  then show ?case by (simp add: no_duplicates_def)
next
  case (Cons x xs)
  have "series_of m \<noteq> series_of n" if "m \<in> set (f x)" "y \<in> set xs" "n \<in> set (f y)" for m n y
  proof
    assume "series_of m = series_of n"
    then have "key x = key y"
      using Cons.prems(3) [of x m] Cons.prems(3) [of y n] that assms(4) [of m n] by simp
    with Cons.prems(1) that(2) show False by auto
  qed
  then have "series_of ` set (f x) \<inter> series_of ` set (concat (map f xs)) = {}"
    by fastforce
  moreover have "no_duplicates (concat (map f xs))"
    using Cons.prems by (intro Cons.IH) simp_all
  moreover have "distinct (map series_of (f x))"
    using Cons.prems(2) [of x] by simp
  ultimately show ?case by (simp add: no_duplicates_def)
qed

lemma no_duplicates_block:
  "no_duplicates (concat (map f xs)) \<Longrightarrow> x \<in> set xs \<Longrightarrow> distinct (map series_of (f x))"
  by (induction xs) (auto simp: no_duplicates_def)

definition first_label :: "metric \<Rightarrow> string" where
  "first_label m = hd (m_labels m)"

lemma first_label_series: "series_of m = series_of n \<Longrightarrow> first_label m = first_label n"
  by (simp add: series_of_def first_label_def)

lemma first_label_gauge [simp]: "first_label (gauge d v (l # ls)) = l"
  by (simp add: first_label_def)

lemmas no_duplicates_by_id =
  no_duplicates_blocks [where owner = first_label, OF _ _ _ first_label_series]

text \<open>Blocks that are told apart by any other label.\<close>

lemma no_duplicates_by_label:
  assumes "distinct (map key xs)" and "\<And>x. x \<in> set xs \<Longrightarrow> distinct (map series_of (f x))"
    and "\<And>x m. x \<in> set xs \<Longrightarrow> m \<in> set (f x) \<Longrightarrow> m_labels m ! k = key x"
  shows "no_duplicates (concat (map f xs))"
  using assms
  by (rule no_duplicates_blocks [where owner = "\<lambda>m. m_labels m ! k"]) (auto simp: series_of_def)

lemma no_duplicates_by_label_iff:
  assumes "distinct (map key xs)"
    and "\<And>x m. x \<in> set xs \<Longrightarrow> m \<in> set (f x) \<Longrightarrow> m_labels m ! k = key x"
  shows "no_duplicates (concat (map f xs)) \<longleftrightarrow> list_all (\<lambda>x. no_duplicates (f x)) xs"
  using no_duplicates_by_label [OF assms(1) _ assms(2)] no_duplicates_block [of f xs]
  by (auto simp: list_all_iff no_duplicates_def)

lemma no_duplicates_append:
  "no_duplicates (ms @ ns) \<longleftrightarrow>
     no_duplicates ms \<and> no_duplicates ns \<and> series_of ` set ms \<inter> series_of ` set ns = {}"
  by (auto simp: no_duplicates_def)

text \<open>Parts whose metrics have different names, and one metric per key of a map.\<close>

lemma no_duplicates_parts_iff:
  assumes "metric_name ` set ms \<inter> metric_name ` set ns = {}"
  shows "no_duplicates (ms @ ns) \<longleftrightarrow> no_duplicates ms \<and> no_duplicates ns"
proof -
  have "series_of m \<noteq> series_of n" if "m \<in> set ms" "n \<in> set ns" for m n
  proof
    assume "series_of m = series_of n"
    then have "metric_name m = metric_name n" by (simp add: series_of_def metric_name_def)
    with that assms show False by blast
  qed
  then have "series_of ` set ms \<inter> series_of ` set ns = {}" by blast
  then show ?thesis by (simp add: no_duplicates_append)
qed

lemma no_duplicates_parts:
  "no_duplicates ms \<Longrightarrow> no_duplicates ns \<Longrightarrow> metric_name ` set ms \<inter> metric_name ` set ns = {} \<Longrightarrow>
     no_duplicates (ms @ ns)"
  by (simp add: no_duplicates_parts_iff)

lemma no_duplicates_keyed:
  assumes "distinct (map fst kvs)" and "inj labels"
  shows "no_duplicates (map (\<lambda>(k, v). gauge d v (labels k)) kvs)"
proof -
  have "map series_of (map (\<lambda>(k, v). gauge d v (labels k)) kvs) =
      map (\<lambda>k. (fq_name d, labels k)) (map fst kvs)"
    by (simp add: case_prod_beta)
  then show ?thesis
    using assms unfolding no_duplicates_def
    by (simp only: distinct_map [of "\<lambda>k. (fq_name d, labels k)"]) (simp add: inj_on_def inj_def)
qed

end
