(* ===== verification/Paging.thy ===== *)
theory Paging
  imports Prelude
begin

text \<open>
  internal/paging: the walk over a page-numbered list. The list endpoint is a parameter: its
  reply may depend on how many requests the walk has made, so a list that shifts between two
  page requests is covered. A reply carries the items and what the response's links say
  through \<open>IsLastPage\<close> and \<open>CurrentPage\<close>.

  A context is how many times it is still found alive and the error it then reports. Once
  done it stays done. Every refresh runs under \<open>context.WithTimeout\<close>, so it is done at some
  point, and that is what bounds a walk whose list never reports a last page.
\<close>

record ctx =
  ctx_live :: nat
  ctx_cause :: goerr

definition ctx_err :: "ctx \<Rightarrow> nat \<Rightarrow> goerr option" where
  "ctx_err c k = (if k < ctx_live c then None else Some (ctx_cause c))"

datatype links = NoLinks | LastPage | CurrentPage "int res"

type_synonym 'a list_func = "nat \<Rightarrow> int \<Rightarrow> ('a list \<times> links) res"

text \<open>
  The collectors with a page loop of their own do not look at the context; there it is the request
  that fails once the context is done, with its error.
\<close>

definition under_ctx :: "ctx \<Rightarrow> nat \<Rightarrow> 'a res \<Rightarrow> 'a res" where
  "under_ctx c k answer =
     (case ctx_err c k of Some e \<Rightarrow> Inl (Wrap ''request'' [e]) | None \<Rightarrow> answer)"

lemma under_ctx_Inr: "under_ctx c k answer = Inr x \<Longrightarrow> k < ctx_live c"
  by (auto simp: under_ctx_def ctx_err_def split: if_splits)

definition per_page :: int where "per_page = 200"

text \<open>
  \<open>keepNew\<close>: the kept items after \<open>out\<close>, the keys seen, and the keys handed to \<open>dropped\<close>.
\<close>

fun keep_new ::
  "('a \<Rightarrow> 'k) \<Rightarrow> 'a list \<Rightarrow> 'k set \<Rightarrow> 'a list \<Rightarrow> 'k list \<Rightarrow> 'a list \<times> 'k set \<times> 'k list" where
  "keep_new key [] seen out dropped = (out, seen, dropped)"
| "keep_new key (item # page) seen out dropped =
     (let k = key item in
      if k \<in> seen then keep_new key page seen out (dropped @ [k])
      else keep_new key page (insert k seen) (out @ [item]) dropped)"

text \<open>
  The loop of \<open>All\<close>: \<open>k\<close> counts its iterations, \<open>page\<close> is \<open>opts.Page\<close>. The second component
  of the result is the debug log: the duplicate keys, with the page they were dropped on.
\<close>

function all_loop ::
  "ctx \<Rightarrow> string \<Rightarrow> ('a \<Rightarrow> 'k) \<Rightarrow> 'a list_func \<Rightarrow> nat \<Rightarrow> int \<Rightarrow> 'k set \<Rightarrow> 'a list
     \<Rightarrow> ('k \<times> int) list \<Rightarrow> 'a list res \<times> ('k \<times> int) list" where
  "all_loop c what key list k page seen out drops =
     (case ctx_err c k of
        Some e \<Rightarrow> (Inl (Wrap (''list '' @ what) [e]), drops)
      | None \<Rightarrow>
          (case list k page of
             Inl e \<Rightarrow> (Inl (Wrap (''list '' @ what) [e]), drops)
           | Inr (items, lnk) \<Rightarrow>
               (case keep_new key items seen out [] of
                  (out', seen', dups) \<Rightarrow>
                    let drops' = drops @ map (\<lambda>d. (d, page)) dups in
                    (case lnk of
                       NoLinks \<Rightarrow> (Inr out', drops')
                     | LastPage \<Rightarrow> (Inr out', drops')
                     | CurrentPage (Inl e) \<Rightarrow> (Inl (Wrap (''next page of '' @ what) [e]), drops')
                     | CurrentPage (Inr current) \<Rightarrow>
                         all_loop c what key list (Suc k) (wrap64 (current + 1)) seen' out' drops'))))"
  by pat_completeness auto
termination
  by (relation "measure (\<lambda>(c, what, key, list, k, page, seen, out, drops). ctx_live c - k)")
    (auto simp: ctx_err_def split: if_splits)

declare all_loop.simps [simp del]

definition paging_all ::
  "ctx \<Rightarrow> string \<Rightarrow> ('a \<Rightarrow> 'k) \<Rightarrow> 'a list_func \<Rightarrow> 'a list res \<times> ('k \<times> int) list" where
  "paging_all c what key list = all_loop c what key list 0 0 {} [] []"

section \<open>Reference: the first item of every key\<close>

fun first_by :: "('a \<Rightarrow> 'k) \<Rightarrow> 'a list \<Rightarrow> 'a list" where
  "first_by key [] = []"
| "first_by key (x # xs) = x # first_by key (filter (\<lambda>y. key y \<noteq> key x) xs)"

lemma set_first_by_subset: "set (first_by key xs) \<subseteq> set xs"
  by (induction key xs rule: first_by.induct) auto

lemma keys_first_by: "key ` set (first_by key xs) = key ` set xs"
proof (induction key xs rule: first_by.induct)
  case (1 key)
  then show ?case by simp
next
  case (2 key x xs)
  then show ?case by (auto simp: image_iff)
qed

lemma distinct_first_by: "distinct (map key (first_by key xs))"
proof (induction key xs rule: first_by.induct)
  case (1 key)
  then show ?case by simp
next
  case (2 key x xs)
  then show ?case
    using set_first_by_subset [of key "filter (\<lambda>y. key y \<noteq> key x) xs"] by auto
qed

lemma first_by_distinct: "distinct (map key xs) \<Longrightarrow> first_by key xs = xs"
proof (induction key xs rule: first_by.induct)
  case (2 key x xs)
  moreover have "filter (\<lambda>y. key y \<noteq> key x) xs = xs"
    using "2.prems" by (intro filter_True) (auto simp: image_iff)
  ultimately show ?case by simp
qed simp

lemma first_by_filter_key:
  "first_by key (filter (\<lambda>y. P (key y)) xs) = filter (\<lambda>y. P (key y)) (first_by key xs)"
proof (induction key xs rule: first_by.induct)
  case (2 key x xs)
  let ?rest = "filter (\<lambda>y. key y \<noteq> key x) xs"
  show ?case
  proof (cases "P (key x)")
    case True
    have "filter (\<lambda>y. key y \<noteq> key x) (filter (\<lambda>y. P (key y)) xs) = filter (\<lambda>y. P (key y)) ?rest"
      by (simp add: conj_commute)
    with True 2 show ?thesis by (simp del: filter_filter)
  next
    case False
    then have "filter (\<lambda>y. P (key y)) xs = filter (\<lambda>y. P (key y)) ?rest"
      by (auto intro!: filter_cong)
    with False 2 show ?thesis by (simp del: filter_filter)
  qed
qed simp

text \<open>The accumulating loop keeps exactly the reference's items whose key was not seen.\<close>

lemma keep_new_out:
  "keep_new key xs seen out dr = (out', seen', dr') \<Longrightarrow>
     out' = out @ filter (\<lambda>y. key y \<notin> seen) (first_by key xs) \<and> seen' = seen \<union> key ` set xs"
proof (induction key xs seen out dr rule: keep_new.induct)
  case (2 key item page seen out dropped)
  show ?case
  proof (cases "key item \<in> seen")
    case True
    have "filter (\<lambda>y. key y \<notin> seen) (first_by key (filter (\<lambda>y. key y \<noteq> key item) page))
        = filter (\<lambda>y. key y \<notin> seen) (first_by key page)"
      using first_by_filter_key [of key "\<lambda>k. k \<noteq> key item" page] True
      by (auto simp: filter_filter intro!: filter_cong)
    with True 2 show ?thesis by (auto simp: Let_def)
  next
    case False
    have "filter (\<lambda>y. key y \<notin> insert (key item) seen) (first_by key page)
        = filter (\<lambda>y. key y \<notin> seen) (first_by key (filter (\<lambda>y. key y \<noteq> key item) page))"
      using first_by_filter_key [of key "\<lambda>k. k \<noteq> key item" page]
      by (auto simp: filter_filter intro!: filter_cong)
    with False 2 show ?thesis by (auto simp: Let_def)
  qed
qed simp

section \<open>Specification: the pages one walk reads\<close>

text \<open>
  \<open>walk c list k page ps\<close>: starting with request \<open>k\<close> for \<open>page\<close>, the walk reads the pages
  \<open>ps\<close>, follows every next link and ends on a page without one.
\<close>

inductive walk :: "ctx \<Rightarrow> 'a list_func \<Rightarrow> nat \<Rightarrow> int \<Rightarrow> 'a list list \<Rightarrow> bool"
  for c :: ctx and list :: "'a list_func" where
  walk_stop: "ctx_err c k = None \<Longrightarrow> list k page = Inr (xs, lnk) \<Longrightarrow> lnk = NoLinks \<or> lnk = LastPage
     \<Longrightarrow> walk c list k page [xs]"
| walk_next: "ctx_err c k = None \<Longrightarrow> list k page = Inr (xs, CurrentPage (Inr n))
     \<Longrightarrow> walk c list (Suc k) (wrap64 (n + 1)) ps \<Longrightarrow> walk c list k page (xs # ps)"

inductive_simps walk_iff: "walk c list k page ps"

lemma first_by_append:
  "first_by key (xs @ ys) = first_by key xs @ filter (\<lambda>y. key y \<notin> key ` set xs) (first_by key ys)"
proof (induction key xs arbitrary: ys rule: first_by.induct)
  case (2 key x xs)
  let ?f = "filter (\<lambda>y. key y \<noteq> key x)"
  have "filter (\<lambda>y. key y \<notin> key ` set (?f xs)) (first_by key (?f ys))
      = filter (\<lambda>y. key y \<notin> key ` set (x # xs)) (first_by key ys)"
    using first_by_filter_key [of key "\<lambda>k. k \<noteq> key x" ys]
    by (auto simp: filter_filter image_iff intro!: filter_cong)
  with "2.IH" [of "?f ys"] show ?case by simp
qed simp

lemma first_by_concat_cons:
  "out @ filter (\<lambda>y. key y \<notin> seen) (first_by key (concat (xs # ps)))
   = (out @ filter (\<lambda>y. key y \<notin> seen) (first_by key xs))
       @ filter (\<lambda>y. key y \<notin> seen \<union> key ` set xs) (first_by key (concat ps))"
  by (auto simp: first_by_append filter_filter intro!: filter_cong)

text \<open>One iteration, by what the context and the endpoint answer.\<close>

lemma all_loop_cancelled:
  "ctx_err c k = Some e \<Longrightarrow>
     all_loop c what key list k page seen out drops = (Inl (Wrap (''list '' @ what) [e]), drops)"
  by (simp add: all_loop.simps [of c what key list k page seen out drops])

lemma all_loop_failed:
  "ctx_err c k = None \<Longrightarrow> list k page = Inl e \<Longrightarrow>
     all_loop c what key list k page seen out drops = (Inl (Wrap (''list '' @ what) [e]), drops)"
  by (simp add: all_loop.simps [of c what key list k page seen out drops])

lemma all_loop_last:
  "ctx_err c k = None \<Longrightarrow> list k page = Inr (xs, lnk) \<Longrightarrow> lnk = NoLinks \<or> lnk = LastPage \<Longrightarrow>
     keep_new key xs seen out [] = (out', seen', dups) \<Longrightarrow>
     all_loop c what key list k page seen out drops =
       (Inr out', drops @ map (\<lambda>d. (d, page)) dups)"
  by (auto simp: all_loop.simps [of c what key list k page seen out drops])

lemma all_loop_bad_link:
  "ctx_err c k = None \<Longrightarrow> list k page = Inr (xs, CurrentPage (Inl e)) \<Longrightarrow>
     fst (all_loop c what key list k page seen out drops) = Inl (Wrap (''next page of '' @ what) [e])"
  by (auto simp: all_loop.simps [of c what key list k page seen out drops] split: prod.splits)

lemma all_loop_next:
  "ctx_err c k = None \<Longrightarrow> list k page = Inr (xs, CurrentPage (Inr n)) \<Longrightarrow>
     keep_new key xs seen out [] = (out', seen', dups) \<Longrightarrow>
     all_loop c what key list k page seen out drops =
       all_loop c what key list (Suc k) (wrap64 (n + 1)) seen' out'
         (drops @ map (\<lambda>d. (d, page)) dups)"
  by (simp add: all_loop.simps [of c what key list k page seen out drops])

lemma walk_dead: "ctx_err c k = Some e \<Longrightarrow> \<not> walk c list k page ps"
  by (simp add: walk_iff [of c list k page])

lemma walk_failed: "list k page = Inl e \<Longrightarrow> \<not> walk c list k page ps"
  by (simp add: walk_iff [of c list k page])

lemma walk_last:
  "ctx_err c k = None \<Longrightarrow> list k page = Inr (xs, lnk) \<Longrightarrow> lnk = NoLinks \<or> lnk = LastPage \<Longrightarrow>
     walk c list k page ps \<longleftrightarrow> ps = [xs]"
  by (auto simp: walk_iff [of c list k page])

lemma walk_bad_link: "list k page = Inr (xs, CurrentPage (Inl e)) \<Longrightarrow> \<not> walk c list k page ps"
  by (simp add: walk_iff [of c list k page])

lemma walk_on:
  "ctx_err c k = None \<Longrightarrow> list k page = Inr (xs, CurrentPage (Inr n)) \<Longrightarrow>
     walk c list k page ps \<longleftrightarrow> (\<exists>qs. ps = xs # qs \<and> walk c list (Suc k) (wrap64 (n + 1)) qs)"
  by (auto simp: walk_iff [of c list k page])

text \<open>
  The loop returns a list exactly when a walk ends, and then the first item of every key not
  seen before, over all the pages of that walk.
\<close>

lemma all_loop_walk:
  "fst (all_loop c what key list k page seen out drops) = Inr r \<longleftrightarrow>
     (\<exists>ps. walk c list k page ps \<and>
        r = out @ filter (\<lambda>y. key y \<notin> seen) (first_by key (concat ps)))"
proof (induction "ctx_live c - k" arbitrary: k page seen out drops rule: less_induct)
  case less
  consider (dead) e where "ctx_err c k = Some e"
    | (failed) e where "ctx_err c k = None" "list k page = Inl e"
    | (last) xs lnk where "ctx_err c k = None" "list k page = Inr (xs, lnk)"
        "lnk = NoLinks \<or> lnk = LastPage"
    | (bad) xs e where "ctx_err c k = None" "list k page = Inr (xs, CurrentPage (Inl e))"
    | (on) xs n where "ctx_err c k = None" "list k page = Inr (xs, CurrentPage (Inr n))"
    by (metis links.exhaust old.prod.exhaust option.exhaust sum.exhaust)
  then show ?case
  proof cases
    case dead
    then show ?thesis by (simp add: all_loop_cancelled walk_dead)
  next
    case failed
    then show ?thesis by (simp add: all_loop_failed walk_failed)
  next
    case last
    obtain out' seen' dups where kn: "keep_new key xs seen out [] = (out', seen', dups)"
      by (cases "keep_new key xs seen out []") auto
    show ?thesis using keep_new_out [OF kn]
      by (auto simp: all_loop_last [where list = list, OF last kn] walk_last [where list = list, OF last])
  next
    case bad
    then show ?thesis by (simp add: all_loop_bad_link walk_bad_link)
  next
    case on
    obtain out' seen' dups where kn: "keep_new key xs seen out [] = (out', seen', dups)"
      by (cases "keep_new key xs seen out []") auto
    have "ctx_live c - Suc k < ctx_live c - k"
      using on(1) by (auto simp: ctx_err_def split: if_splits)
    note IH = less [OF this]
    show ?thesis
      unfolding all_loop_next [where list = list, OF on kn] walk_on [where list = list, OF on] IH
      using keep_new_out [OF kn] first_by_concat_cons [of out key seen xs]
      by (auto simp del: concat.simps)
  qed
qed

lemma paging_all_walk:
  "fst (paging_all c what key list) = Inr r \<longleftrightarrow>
     (\<exists>ps. walk c list 0 0 ps \<and> r = first_by key (concat ps))"
  by (simp add: paging_all_def all_loop_walk)

lemma paging_all_distinct: "fst (paging_all c what key list) = Inr r \<Longrightarrow> distinct (map key r)"
  by (auto simp: paging_all_walk distinct_first_by)

section \<open>A list that does not change while it is read\<close>

text \<open>
  The documented behaviour of a page-numbered list: pages count from one, a missing page
  number means the first, every page but the last says which one it is, and the last has no
  next link.
\<close>

definition serve :: "'a list list \<Rightarrow> 'a list_func" where
  "serve pages k page =
     (let n = max 1 page in
      if n < int (length pages) then Inr (pages ! nat (n - 1), CurrentPage (Inr n))
      else if n = int (length pages) then Inr (pages ! nat (n - 1), LastPage)
      else Inr ([], LastPage))"

lemma serve_walk:
  assumes "i < length pages" and "int (length pages) < 2 ^ 63"
    and "k + (length pages - i) \<le> ctx_live c" and "max 1 page = int (Suc i)"
  shows "walk c (serve pages) k page (drop i pages)"
  using assms
proof (induction "length pages - i" arbitrary: i k page)
  case (Suc m)
  have alive: "ctx_err c k = None"
    using Suc.prems by (auto simp: ctx_err_def)
  have here: "drop i pages = pages ! i # drop (Suc i) pages"
    using Suc.prems(1) by (simp add: Cons_nth_drop_Suc)
  show ?case
  proof (cases "Suc i < length pages")
    case True
    then have reply: "serve pages k page = Inr (pages ! i, CurrentPage (Inr (int (Suc i))))"
      using Suc.prems(4) by (simp add: serve_def)
    have "walk c (serve pages) (Suc k) (wrap64 (int (Suc i) + 1)) (drop (Suc i) pages)"
      using Suc True by (intro Suc.hyps) (auto simp: wrap64_small)
    with alive reply show ?thesis unfolding here by (rule walk_next)
  next
    case False
    then have "length pages = Suc i" using Suc.prems(1) by simp
    moreover from this have "serve pages k page = Inr (pages ! i, LastPage)"
      using Suc.prems(4) by (simp add: serve_def)
    ultimately show ?thesis unfolding here using alive by (auto intro: walk_stop)
  qed
qed simp

lemma paging_all_complete:
  assumes "pages \<noteq> []" and "int (length pages) < 2 ^ 63" and "length pages \<le> ctx_live c"
  shows "fst (paging_all c what key (serve pages)) = Inr (first_by key (concat pages))"
proof -
  have "walk c (serve pages) 0 0 (drop 0 pages)"
    using assms by (intro serve_walk) auto
  then show ?thesis by (auto simp: paging_all_walk)
qed

text \<open>A list of one page, the concrete list of many examples.\<close>

lemma paging_single_page:
  "0 < ctx_live c \<Longrightarrow> distinct (map key xs) \<Longrightarrow>
     fst (paging_all c what key (\<lambda>k page. Inr (xs, LastPage))) = Inr xs"
  unfolding paging_all_walk
  by (intro exI [of _ "[xs]"] conjI walk_stop [where lnk = LastPage])
    (simp_all add: ctx_err_def first_by_distinct)

section \<open>Properties\<close>

text \<open>
  C14. The walk returns a list exactly when it meets a last page before an error, a bad link or
  the end of its context, and then the first item of every key over all the pages it read, in
  order; so an item that slid onto the next page between two requests is reported once.
\<close>

theorem paging_refines_walk:
  "fst (paging_all c what key list) = Inr r \<longleftrightarrow>
     (\<exists>ps. walk c list 0 0 ps \<and> r = first_by key (concat ps))"
  by (rule paging_all_walk)

text \<open>
  Of a list that does not change while it is read, and whose pages the context lives to
  read, no key is lost and none is repeated.
\<close>

lemma paging_complete:
  assumes "pages \<noteq> []" and "int (length pages) < 2 ^ 63" and "length pages \<le> ctx_live c"
  shows "\<exists>r. fst (paging_all c what key (serve pages)) = Inr r \<and> distinct (map key r) \<and>
    key ` set r = key ` set (concat pages)"
  using paging_all_complete [OF assms, of what key] distinct_first_by [of key "concat pages"]
    keys_first_by [of key "concat pages"]
  by blast

lemma paging_complete_witness:
  "\<exists>r. fst (paging_all \<lparr>ctx_live = 3, ctx_cause = Sentinel Canceled\<rparr> ''x'' (\<lambda>n. n :: nat)
       (serve [[1, 2], [2, 3]])) = Inr r \<and> set r = {1, 2, 3}"
proof -
  let ?c = "\<lparr>ctx_live = 3, ctx_cause = Sentinel Canceled\<rparr>"
  obtain r where "fst (paging_all ?c ''x'' (\<lambda>n. n :: nat) (serve [[1, 2], [2, 3]])) = Inr r"
    "(\<lambda>n. n) ` set r = (\<lambda>n. n) ` set (concat [[1, 2], [2, 3 :: nat]])"
    using paging_complete [of "[[1, 2], [2, 3 :: nat]]" ?c "''x''" "\<lambda>n. n"] by auto
  then show ?thesis by auto
qed

end
