(* ===== verification/Tag_Filter.thy ===== *)
theory Tag_Filter
  imports Prelude
begin

text \<open>
  internal/filter: the tag and region filter every resource collector asks. A Go set
  (\<open>map[string]struct{}\<close>) that may be nil is an optional list without repetition; the order
  Go iterates it in never matters, because it is only iterated when it has one element.
\<close>

record filter_conf =
  f_tags :: "string list option"
  f_regions :: "string list option"

definition as_set :: "string list \<Rightarrow> string list option" where
  "as_set values = (if length values = 0 then None else Some (remdups values))"

definition filter_new :: "string list \<Rightarrow> string list \<Rightarrow> filter_conf" where
  "filter_new tags regions = \<lparr>f_tags = as_set tags, f_regions = as_set regions\<rparr>"

definition zero_filter :: filter_conf where
  "zero_filter = \<lparr>f_tags = None, f_regions = None\<rparr>"

fun any_tag_in :: "string list \<Rightarrow> string list \<Rightarrow> bool" where
  "any_tag_in T [] = False"
| "any_tag_in T (tag # tags) = (if tag \<in> set T then True else any_tag_in T tags)"

definition match_tags :: "filter_conf \<Rightarrow> string list \<Rightarrow> bool" where
  "match_tags f tags = (case f_tags f of None \<Rightarrow> True | Some T \<Rightarrow> any_tag_in T tags)"

definition match_region :: "filter_conf \<Rightarrow> string \<Rightarrow> bool" where
  "match_region f region = (case f_regions f of None \<Rightarrow> True | Some R \<Rightarrow> region \<in> set R)"

definition match :: "filter_conf \<Rightarrow> string list \<Rightarrow> string \<Rightarrow> bool" where
  "match f tags region \<longleftrightarrow> match_tags f tags \<and> match_region f region"

definition single_tag :: "filter_conf \<Rightarrow> string option" where
  "single_tag f =
     (case f_tags f of
        None \<Rightarrow> None
      | Some T \<Rightarrow>
          if length T \<noteq> 1 \<or> f_regions f \<noteq> None then None
          else (case T of [] \<Rightarrow> None | tag # _ \<Rightarrow> Some tag))"

section \<open>What the filter means\<close>

lemma any_tag_in_iff: "any_tag_in T tags \<longleftrightarrow> (\<exists>t \<in> set tags. t \<in> set T)"
  by (induction tags) auto

lemma match_tags_new [simp]:
  "match_tags (filter_new T R) tags \<longleftrightarrow> T = [] \<or> set tags \<inter> set T \<noteq> {}"
  by (auto simp: match_tags_def filter_new_def as_set_def any_tag_in_iff)

lemma match_region_new [simp]:
  "match_region (filter_new T R) region \<longleftrightarrow> R = [] \<or> region \<in> set R"
  by (auto simp: match_region_def filter_new_def as_set_def)

lemma filter_new_empty: "filter_new [] [] = zero_filter"
  by (simp add: filter_new_def as_set_def zero_filter_def)

lemma single_tag_new:
  "single_tag (filter_new T R) = Some t \<longleftrightarrow> set T = {t} \<and> R = []"
proof -
  have "remdups T = [t] \<longleftrightarrow> set T = {t}"
  proof
    assume "set T = {t}"
    then have "set (remdups T) = {t}" and "length (remdups T) = 1"
      by (simp_all add: distinct_card [symmetric])
    then show "remdups T = [t]" by (cases "remdups T") auto
  next
    assume "remdups T = [t]"
    then show "set T = {t}" by (metis empty_set list.simps(15) set_remdups)
  qed
  moreover have "length ys = 1 \<and> (case ys of [] \<Rightarrow> None | tag # _ \<Rightarrow> Some tag) = Some t
      \<longleftrightarrow> ys = [t]" for ys :: "string list"
    by (cases ys) auto
  ultimately show ?thesis
    by (auto simp: single_tag_def filter_new_def as_set_def split: if_splits)
qed

text \<open>
  The contract the collectors rely on, as an interface: a predicate on tags and region that
  is the conjunction of a condition on each, and an optional tag that stands for it.
\<close>

locale resource_filter =
  fixes admits :: "string list \<Rightarrow> string \<Rightarrow> bool"
    and scoped :: "string option"
  assumes scoped_admits: "scoped = Some t \<Longrightarrow> admits tags region \<longleftrightarrow> t \<in> set tags"
    and admits_mono: "set tags \<subseteq> set tags' \<Longrightarrow> admits tags region \<Longrightarrow> admits tags' region"
begin

text \<open>
  A listing the provider already narrowed to the tag loses nothing to the client-side match:
  both paths select the same resources.
\<close>

lemma scoped_listing_agrees:
  assumes "scoped = Some t"
  shows "filter (\<lambda>x. admits (tags x) (region x)) (filter (\<lambda>x. t \<in> set (tags x)) xs)
       = filter (\<lambda>x. admits (tags x) (region x)) xs"
    and "filter (\<lambda>x. admits (tags x) (region x)) (filter (\<lambda>x. t \<in> set (tags x)) xs)
       = filter (\<lambda>x. t \<in> set (tags x)) xs"
  using scoped_admits [OF assms] by simp_all

end

lemma single_tag_match: "single_tag f = Some t \<Longrightarrow> match f tags region \<longleftrightarrow> t \<in> set tags"
  by (auto simp: single_tag_def match_def match_tags_def match_region_def any_tag_in_iff
      split: option.splits if_splits list.splits)

lemma match_mono: "set tags \<subseteq> set tags' \<Longrightarrow> match f tags region \<Longrightarrow> match f tags' region"
  by (auto simp: match_def match_tags_def any_tag_in_iff split: option.splits)

interpretation conf_filter: resource_filter "match f" "single_tag f" for f
  by unfold_locales (auto simp: single_tag_match intro: match_mono)

section \<open>Properties\<close>

text \<open>
  A resource passes the filter built from two lists exactly when it carries one of the tags,
  or none was asked for, and lies in one of the regions, or none was asked for; and the filter
  offers a single tag for a narrowed listing exactly when that tag is all it asks for.
\<close>

lemma filter_meaning:
  "(match (filter_new T R) tags region \<longleftrightarrow>
      (T = [] \<or> (\<exists>tag. tag \<in> set tags \<and> tag \<in> set T)) \<and> (R = [] \<or> region \<in> set R)) \<and>
   (single_tag (filter_new T R) = Some t \<longleftrightarrow> set T = {t} \<and> R = [])"
  by (auto simp: match_def single_tag_new)

end
