(* ===== verification/Collector.thy ===== *)
theory Collector
  imports Metrics Paging Tag_Filter
begin

text \<open>
  internal/collector/collector.go: the contract between the scheduler and a collector, as
  locales. Refresh takes what the environment answers during it and returns the next snapshot
  with the error, if any; a panic is the error \<open>Panicked\<close>, which is what the scheduler's
  recover makes of it. Collect only reads the snapshot.

  \<open>collector\<close> is what every collector gives: it is silent before its first refresh, and all it
  sends was described and has one value per label. \<open>unique_collector\<close> adds that no series is
  sent twice, \<open>atomic_collector\<close> that a failed refresh leaves the snapshot as it was, which is
  what the Collector interface asks of Refresh.
\<close>

fun refreshes :: "('env \<Rightarrow> 's \<Rightarrow> 's \<times> goerr option) \<Rightarrow> 'env list \<Rightarrow> 's \<Rightarrow> 's" where
  "refreshes refresh [] s = s"
| "refreshes refresh (env # envs) s = refreshes refresh envs (fst (refresh env s))"

lemma refreshes_append [simp]:
  "refreshes refresh (es @ fs) s = refreshes refresh fs (refreshes refresh es s)"
  by (induction es arbitrary: s) auto

locale collector =
  fixes refresh :: "'env \<Rightarrow> 's \<Rightarrow> 's \<times> goerr option"
    and collect :: "'s \<Rightarrow> metric list"
    and describe :: "desc list"
    and start :: 's
    and ok :: "'s \<Rightarrow> bool"
  assumes start_ok: "ok start"
    and start_silent: "collect start = []"
    and refresh_ok: "ok s \<Longrightarrow> ok (fst (refresh env s))"
    and described: "ok s \<Longrightarrow> well_described describe (collect s)"
begin

lemma refreshes_ok: "ok s \<Longrightarrow> ok (refreshes refresh envs s)"
  by (induction envs arbitrary: s) (simp_all add: refresh_ok)

lemma always_described: "well_described describe (collect (refreshes refresh envs start))"
  by (rule described) (rule refreshes_ok, rule start_ok)

end

locale unique_collector = collector +
  assumes unique: "ok s \<Longrightarrow> no_duplicates (collect s)"
begin

lemma always_unique: "no_duplicates (collect (refreshes refresh envs start))"
  by (rule unique) (rule refreshes_ok, rule start_ok)

end

locale atomic_collector = collector +
  assumes failure_keeps: "snd (refresh env s) = Some e \<Longrightarrow> fst (refresh env s) = s"
begin

text \<open>
  While refreshes fail, the exposition stays what the last successful one made it: the
  metrics go stale, they do not disappear.
\<close>

lemma failing_run_keeps:
  "(\<And>env. env \<in> set envs \<Longrightarrow> snd (refresh env s) \<noteq> None) \<Longrightarrow> refreshes refresh envs s = s"
proof (induction envs)
  case (Cons env envs)
  then obtain e where "snd (refresh env s) = Some e" by fastforce
  then have "fst (refresh env s) = s" by (rule failure_keeps)
  with Cons show ?case by simp
qed simp

lemma stale_exposition:
  "(\<And>env. env \<in> set envs \<Longrightarrow> snd (refresh env (refreshes refresh past start)) \<noteq> None) \<Longrightarrow>
     collect (refreshes refresh (past @ envs) start) = collect (refreshes refresh past start)"
  by (simp add: failing_run_keeps)

end

section \<open>Replacing the snapshot\<close>

text \<open>
  The end of Refresh in every collector that replaces its snapshot as a whole: an error
  returns before the assignment under the lock.
\<close>

definition replace_snapshot :: "'a res \<Rightarrow> ('a \<Rightarrow> 's) \<Rightarrow> 's \<Rightarrow> 's \<times> goerr option" where
  "replace_snapshot r next s = (case r of Inl e \<Rightarrow> (s, Some e) | Inr x \<Rightarrow> (next x, None))"

lemma replace_snapshot_failure:
  "snd (replace_snapshot r next s) = Some e \<Longrightarrow> fst (replace_snapshot r next s) = s"
  by (auto simp: replace_snapshot_def split: sum.splits)

lemma replace_snapshot_ok:
  "P s \<Longrightarrow> (\<And>x. r = Inr x \<Longrightarrow> P (next x)) \<Longrightarrow> P (fst (replace_snapshot r next s))"
  by (auto simp: replace_snapshot_def split: sum.splits)

lemma replace_snapshot_success:
  "snd (replace_snapshot r next s) = None \<Longrightarrow> \<exists>x. r = Inr x \<and> fst (replace_snapshot r next s) = next x"
  by (auto simp: replace_snapshot_def split: sum.splits)

lemma replace_snapshot_None:
  "replace_snapshot r next s = (s', None) \<Longrightarrow> \<exists>x. r = Inr x \<and> s' = next x"
  by (auto simp: replace_snapshot_def split: sum.splits)

lemma replace_snapshot_simps [snapshot_simps]:
  "replace_snapshot (Inl e) next s = (s, Some e)"
  "replace_snapshot (Inr x) next s = (next x, None)"
  by (simp_all add: replace_snapshot_def)

text \<open>Keys stay distinct through the client-side filter and an injective renaming.\<close>

lemma distinct_map_filter_inj:
  assumes "distinct (map key xs)" and "\<And>x. key' (f x) = g (key x)" and "inj g"
  shows "distinct (map key' (map f (filter P xs)))"
proof -
  have "map key' (map f (filter P xs)) = map g (map key (filter P xs))"
    by (simp add: assms(2))
  moreover have "distinct (map key (filter P xs))"
    using assms(1) by (rule distinct_map_filter)
  ultimately have "distinct (map g (map key (filter P xs)))"
    unfolding distinct_map [of g] using inj_on_subset [OF assms(3)] by blast
  with \<open>map key' (map f (filter P xs)) = map g (map key (filter P xs))\<close> show ?thesis
    by (simp only:)
qed

end
