(* ===== verification/Scheduler.thy ===== *)
theory Scheduler
  imports Collector Go_Float
begin

text \<open>
  internal/collector/scheduler.go: registration, the stagger of the first refreshes, one
  guarded refresh and what it records, readiness, and \<open>Run\<close>'s loops.

  A collector is an object: its methods and the state they keep. \<open>co_refresh\<close> is given what
  the world answers under the context the scheduler built, which names the collector and
  bounds the refresh. A gauge vector is a map from its label value. \<open>Run\<close> is the step relation
  \<open>run_step\<close> over the phase of every loop; a refresh is one step, since it touches only its own
  collector and the samples of its own label. The log of a run is the list of the refreshes
  it did, and \<open>run_refines\<close> says that their effect is the one of doing them one by one. Metric
  registration, the log lines and the ticker's clock are not modelled: a tick may arrive
  whenever a loop waits for one.
\<close>

section \<open>Collectors and entries\<close>

record call_ctx =
  cc_collector :: string
  cc_timeout :: int

datatype refresh_end = Returned "goerr option" | Panics string

record ('env, 's) collector_obj =
  co_name :: string
  co_describe :: "desc list"
  co_refresh :: "(call_ctx \<Rightarrow> 'env) \<Rightarrow> call_ctx \<Rightarrow> 's \<Rightarrow> 's \<times> refresh_end"
  co_collect :: "'s \<Rightarrow> metric list"
  co_state :: 's

record ('env, 's) entry =
  en_collector :: "('env, 's) collector_obj"
  en_interval :: int
  en_timeout :: int

record ('env, 's) scheduler =
  sc_timeout :: int
  sc_entries :: "('env, 's) entry list"
  sc_success :: "string \<rightharpoonup> float64"
  sc_duration :: "string \<rightharpoonup> float64"
  sc_last_ok :: "string \<rightharpoonup> float64"
  sc_ready :: "string \<rightharpoonup> bool"

definition default_interval :: int where "default_interval = 5 * minute"
definition max_stagger :: int where "max_stagger = 3 * second"

definition new_scheduler :: "int \<Rightarrow> ('env, 's) scheduler" where
  "new_scheduler timeout =
     \<lparr>sc_timeout = timeout, sc_entries = [], sc_success = Map.empty, sc_duration = Map.empty,
      sc_last_ok = Map.empty, sc_ready = Map.empty\<rparr>"

definition register ::
  "('env, 's) collector_obj \<Rightarrow> int \<Rightarrow> int \<Rightarrow> ('env, 's) scheduler \<Rightarrow> ('env, 's) scheduler" where
  "register c interval timeout s =
     (let timeout' = (if timeout \<le> 0 then sc_timeout s else timeout);
          interval' = (if interval \<le> 0 then default_interval else interval)
      in s\<lparr>sc_entries := sc_entries s @
             [\<lparr>en_collector = c, en_interval = interval', en_timeout = timeout'\<rparr>]\<rparr>)"

definition entry_name :: "('env, 's) entry \<Rightarrow> string" where
  "entry_name e = co_name (en_collector e)"

definition names :: "('env, 's) scheduler \<Rightarrow> string list" where
  "names s = map entry_name (sc_entries s)"

definition pending :: "('env, 's) scheduler \<Rightarrow> string list" where
  "pending s = filter (\<lambda>name. sc_ready s name \<noteq> Some True) (map entry_name (sc_entries s))"

definition mark_ready :: "string \<Rightarrow> ('env, 's) scheduler \<Rightarrow> ('env, 's) scheduler" where
  "mark_ready name s = s\<lparr>sc_ready := (sc_ready s)(name \<mapsto> True)\<rparr>"

definition scheduler_describe :: "('env, 's) scheduler \<Rightarrow> desc list" where
  "scheduler_describe s = concat (map (\<lambda>e. co_describe (en_collector e)) (sc_entries s))"

definition scheduler_collect :: "('env, 's) scheduler \<Rightarrow> metric list" where
  "scheduler_collect s =
     concat (map (\<lambda>e. co_collect (en_collector e) (co_state (en_collector e))) (sc_entries s))"

section \<open>Stagger\<close>

definition stagger_window :: "('env, 's) entry list \<Rightarrow> int" where
  "stagger_window entries = foldl (\<lambda>window e. min window (en_interval e)) max_stagger entries"

definition stagger :: "int \<Rightarrow> int \<Rightarrow> int \<Rightarrow> int" where
  "stagger index n window =
     (if index \<le> 0 \<or> n \<le> 1 then 0 else mul64 (quot64 window n) index)"

section \<open>One refresh\<close>

text \<open>
  What a refresh meets: the world under its context, the seconds it took, the clock after it,
  and whether the scheduler's own context was done when it had failed.
\<close>

record 'env refresh_input =
  ri_world :: "call_ctx \<Rightarrow> 'env"
  ri_seconds :: float64
  ri_now :: int
  ri_shutdown :: bool

definition guarded_refresh ::
  "('env, 's) collector_obj \<Rightarrow> (call_ctx \<Rightarrow> 'env) \<Rightarrow> call_ctx \<Rightarrow> 's \<times> goerr option" where
  "guarded_refresh c world ctx =
     (case co_refresh c world ctx (co_state c) of
        (st, Panics v) \<Rightarrow> (st, Some (Panicked v))
      | (st, Returned err) \<Rightarrow> (st, err))"

definition refresh_ctx :: "('env, 's) entry \<Rightarrow> call_ctx" where
  "refresh_ctx e = \<lparr>cc_collector = entry_name e, cc_timeout = en_timeout e\<rparr>"

definition set_entry_state ::
  "nat \<Rightarrow> 's \<Rightarrow> ('env, 's) scheduler \<Rightarrow> ('env, 's) scheduler" where
  "set_entry_state i st s =
     (let e = sc_entries s ! i
      in s\<lparr>sc_entries := (sc_entries s)[i := e\<lparr>en_collector := (en_collector e)\<lparr>co_state := st\<rparr>\<rparr>]\<rparr>)"

definition scheduler_refresh ::
  "nat \<Rightarrow> 'env refresh_input \<Rightarrow> ('env, 's) scheduler \<Rightarrow> ('env, 's) scheduler" where
  "scheduler_refresh i inp s =
     (let e = sc_entries s ! i;
          name = entry_name e;
          (st, err) = guarded_refresh (en_collector e) (ri_world inp) (refresh_ctx e);
          s1 = set_entry_state i st s;
          s2 = s1\<lparr>sc_duration := (sc_duration s1)(name \<mapsto> ri_seconds inp)\<rparr>
      in case err of
           Some er \<Rightarrow>
             if \<not> errors_as_panic er \<and> ri_shutdown inp then s2
             else s2\<lparr>sc_success := (sc_success s2)(name \<mapsto> Fin 0)\<rparr>
         | None \<Rightarrow>
             mark_ready name
               (s2\<lparr>sc_success := (sc_success s2)(name \<mapsto> Fin 1),
                   sc_last_ok := (sc_last_ok s2)(name \<mapsto> of_int64 (ri_now inp))\<rparr>))"

definition refresh_all ::
  "(nat \<times> 'env refresh_input) list \<Rightarrow> ('env, 's) scheduler \<Rightarrow> ('env, 's) scheduler" where
  "refresh_all calls s = foldl (\<lambda>s (i, inp). scheduler_refresh i inp s) s calls"

section \<open>Run\<close>

datatype phase = Waiting int | Ticking | Stopped

record ('env, 's) run =
  run_scheduler :: "('env, 's) scheduler"
  run_phases :: "phase list"
  run_done :: bool
  run_log :: "(nat \<times> 'env refresh_input) list"

definition run_start :: "('env, 's) scheduler \<Rightarrow> ('env, 's) run" where
  "run_start s =
     (let window = stagger_window (sc_entries s); n = length (sc_entries s)
      in \<lparr>run_scheduler = s,
          run_phases = map (\<lambda>i. Waiting (stagger (int i) (int n) window)) [0..<n],
          run_done = False, run_log = []\<rparr>)"

definition run_refresh :: "nat \<Rightarrow> 'env refresh_input \<Rightarrow> ('env, 's) run \<Rightarrow> ('env, 's) run" where
  "run_refresh i inp r =
     r\<lparr>run_scheduler := scheduler_refresh i inp (run_scheduler r),
       run_phases := (run_phases r)[i := Ticking],
       run_log := run_log r @ [(i, inp)]\<rparr>"

text \<open>
  A loop with no offset has no select before its first refresh, so shutdown cannot stop it
  there; select may take the timer or the tick even when the context is done as well. The
  scheduler's context, once done, stays done, so a refresh that began after shutdown sees it.
\<close>

inductive run_step :: "('env, 's) run \<Rightarrow> ('env, 's) run \<Rightarrow> bool" where
  cancel: "run_step r (r\<lparr>run_done := True\<rparr>)"
| first: "i < length (run_phases r) \<Longrightarrow> run_phases r ! i = Waiting offset \<Longrightarrow>
    (run_done r \<longrightarrow> ri_shutdown inp) \<Longrightarrow> run_step r (run_refresh i inp r)"
| tick: "i < length (run_phases r) \<Longrightarrow> run_phases r ! i = Ticking \<Longrightarrow>
    (run_done r \<longrightarrow> ri_shutdown inp) \<Longrightarrow> run_step r (run_refresh i inp r)"
| leave: "i < length (run_phases r) \<Longrightarrow> run_phases r ! i = Waiting offset \<Longrightarrow> 0 < offset \<Longrightarrow>
    run_done r \<Longrightarrow> run_step r (r\<lparr>run_phases := (run_phases r)[i := Stopped]\<rparr>)"
| stop: "i < length (run_phases r) \<Longrightarrow> run_phases r ! i = Ticking \<Longrightarrow>
    run_done r \<Longrightarrow> run_step r (r\<lparr>run_phases := (run_phases r)[i := Stopped]\<rparr>)"

inductive run_reach :: "('env, 's) scheduler \<Rightarrow> ('env, 's) run \<Rightarrow> bool" for s where
  start: "run_reach s (run_start s)"
| step: "run_reach s r \<Longrightarrow> run_step r r' \<Longrightarrow> run_reach s r'"

definition run_over :: "('env, 's) run \<Rightarrow> bool" where
  "run_over r = (\<forall>p \<in> set (run_phases r). p = Stopped)"

inductive_cases run_stepE: "run_step r r'"

section \<open>Lemmas\<close>

lemma length_set_entry_state [simp]:
  "length (sc_entries (set_entry_state i st s)) = length (sc_entries s)"
  by (simp add: set_entry_state_def Let_def)

lemma set_entry_state_gauges [simp]:
  "sc_success (set_entry_state i st s) = sc_success s"
  "sc_duration (set_entry_state i st s) = sc_duration s"
  "sc_last_ok (set_entry_state i st s) = sc_last_ok s"
  "sc_ready (set_entry_state i st s) = sc_ready s"
  "sc_timeout (set_entry_state i st s) = sc_timeout s"
  by (simp_all add: set_entry_state_def Let_def)

text \<open>What one refresh comes to: the collector's next state and its error.\<close>

definition refresh_result ::
  "nat \<Rightarrow> 'env refresh_input \<Rightarrow> ('env, 's) scheduler \<Rightarrow> 's \<times> goerr option" where
  "refresh_result i inp s =
     (let e = sc_entries s ! i
      in guarded_refresh (en_collector e) (ri_world inp) (refresh_ctx e))"

definition recorded :: "bool \<Rightarrow> goerr option \<Rightarrow> bool" where
  "recorded shutdown err =
     (case err of None \<Rightarrow> True | Some e \<Rightarrow> errors_as_panic e \<or> \<not> shutdown)"

lemma scheduler_refresh_fields:
  assumes "refresh_result i inp s = (st, err)"
  defines "name \<equiv> entry_name (sc_entries s ! i)"
  shows "sc_entries (scheduler_refresh i inp s) = sc_entries (set_entry_state i st s)"
    and "sc_timeout (scheduler_refresh i inp s) = sc_timeout s"
    and "sc_duration (scheduler_refresh i inp s) = (sc_duration s)(name \<mapsto> ri_seconds inp)"
    and "sc_success (scheduler_refresh i inp s) =
           (if recorded (ri_shutdown inp) err
            then (sc_success s)(name \<mapsto> bool_to_float (err = None)) else sc_success s)"
    and "sc_last_ok (scheduler_refresh i inp s) =
           (if err = None then (sc_last_ok s)(name \<mapsto> of_int64 (ri_now inp)) else sc_last_ok s)"
    and "sc_ready (scheduler_refresh i inp s) =
           (if err = None then (sc_ready s)(name \<mapsto> True) else sc_ready s)"
  using assms
  by (auto simp: scheduler_refresh_def refresh_result_def recorded_def mark_ready_def Let_def
      bool_to_float_def split: option.splits)

lemma set_entry_state_other [simp]:
  "i \<noteq> j \<Longrightarrow> sc_entries (set_entry_state i st s) ! j = sc_entries s ! j"
  by (simp add: set_entry_state_def Let_def)

lemma set_entry_state_same [simp]:
  "i < length (sc_entries s) \<Longrightarrow>
     sc_entries (set_entry_state i st s) ! i =
       (sc_entries s ! i)\<lparr>en_collector := (en_collector (sc_entries s ! i))\<lparr>co_state := st\<rparr>\<rparr>"
  by (simp add: set_entry_state_def Let_def)

lemma entry_name_state [simp]:
  "entry_name (e\<lparr>en_collector := (en_collector e)\<lparr>co_state := st\<rparr>\<rparr>) = entry_name e"
  by (simp add: entry_name_def)

lemma map_list_update_same: "f y = f (xs ! i) \<Longrightarrow> map f (xs[i := y]) = map f xs"
  by (cases "i < length xs") (simp_all add: map_update list_update_same_conv list_update_beyond)

lemma entry_fields_kept [simp]:
  "map entry_name (sc_entries (set_entry_state i st s)) = map entry_name (sc_entries s)"
  "map en_interval (sc_entries (set_entry_state i st s)) = map en_interval (sc_entries s)"
  "map en_timeout (sc_entries (set_entry_state i st s)) = map en_timeout (sc_entries s)"
  unfolding set_entry_state_def Let_def
  by (simp_all add: map_list_update_same entry_name_def)

lemma scheduler_refresh_entries:
  "sc_entries (scheduler_refresh i inp s) = sc_entries (set_entry_state i (fst (refresh_result i inp s)) s)"
  by (cases "refresh_result i inp s") (simp add: scheduler_refresh_fields)

lemma scheduler_refresh_kept [simp]:
  "names (scheduler_refresh i inp s) = names s"
  "length (sc_entries (scheduler_refresh i inp s)) = length (sc_entries s)"
  "map en_interval (sc_entries (scheduler_refresh i inp s)) = map en_interval (sc_entries s)"
  "map en_timeout (sc_entries (scheduler_refresh i inp s)) = map en_timeout (sc_entries s)"
  by (simp_all add: scheduler_refresh_entries names_def)

lemma refresh_all_simps [simp]:
  "refresh_all [] s = s"
  "refresh_all ((i, inp) # calls) s = refresh_all calls (scheduler_refresh i inp s)"
  "refresh_all (calls @ calls') s = refresh_all calls' (refresh_all calls s)"
  by (simp_all add: refresh_all_def)

lemma refresh_all_kept [simp]:
  "names (refresh_all calls s) = names s"
  "length (sc_entries (refresh_all calls s)) = length (sc_entries s)"
  by (induction calls arbitrary: s) auto

text \<open>The history of a sequence of refreshes: whose, under shutdown or not, and its error.\<close>

fun outcomes ::
  "(nat \<times> 'env refresh_input) list \<Rightarrow> ('env, 's) scheduler \<Rightarrow> (string \<times> bool \<times> goerr option) list" where
  "outcomes [] s = []"
| "outcomes ((i, inp) # calls) s =
     (entry_name (sc_entries s ! i), ri_shutdown inp, snd (refresh_result i inp s))
       # outcomes calls (scheduler_refresh i inp s)"

lemma outcomes_append:
  "outcomes (calls @ calls') s = outcomes calls s @ outcomes calls' (refresh_all calls s)"
  by (induction calls s rule: outcomes.induct) simp_all

lemma ready_history:
  "sc_ready (refresh_all calls s) name = Some True \<longleftrightarrow>
     sc_ready s name = Some True \<or> (\<exists>sh. (name, sh, None) \<in> set (outcomes calls s))"
proof (induction calls s rule: outcomes.induct)
  case (2 i inp calls s)
  obtain st err where "refresh_result i inp s = (st, err)" by fastforce
  with 2 show ?case by (auto simp: scheduler_refresh_fields(6))
qed simp

definition records :: "string \<Rightarrow> string \<times> bool \<times> goerr option \<Rightarrow> bool" where
  "records name out = (fst out = name \<and> recorded (fst (snd out)) (snd (snd out)))"

lemma success_history:
  "sc_success (refresh_all calls s) name =
     (case rev (filter (records name) (outcomes calls s)) of
        [] \<Rightarrow> sc_success s name
      | out # _ \<Rightarrow> Some (bool_to_float (snd (snd out) = None)))"
proof (induction calls rule: rev_induct)
  case (snoc call calls)
  obtain i inp where [simp]: "call = (i, inp)" by fastforce
  obtain st err where "refresh_result i inp (refresh_all calls s) = (st, err)" by fastforce
  with snoc show ?case
    by (simp add: outcomes_append records_def scheduler_refresh_fields(4))
qed simp

section \<open>Isolation\<close>

text \<open>
  Operations on separate cells: one that works on its own cell depends on no other, and one
  that works on another cell leaves this one alone. Then what a sequence of operations makes
  of a cell is what its own operations make of it.
\<close>

locale cells =
  fixes operate :: "nat \<Rightarrow> 'i \<Rightarrow> 's \<Rightarrow> 's"
    and view :: "nat \<Rightarrow> 's \<Rightarrow> 'v"
    and inv :: "'s \<Rightarrow> bool"
    and n :: nat
  assumes inv_kept: "inv s \<Longrightarrow> inv (operate i x s)"
    and own: "inv s \<Longrightarrow> inv t \<Longrightarrow> j < n \<Longrightarrow> view j s = view j t \<Longrightarrow>
        view j (operate j x s) = view j (operate j x t)"
    and other: "inv s \<Longrightarrow> i < n \<Longrightarrow> j < n \<Longrightarrow> i \<noteq> j \<Longrightarrow> view j (operate i x s) = view j s"
begin

lemma isolated_from:
  assumes "inv s" and "inv t" and "view j s = view j t" and "j < n"
    and "\<And>i x. (i, x) \<in> set calls \<Longrightarrow> i < n"
  shows "view j (foldl (\<lambda>s (i, x). operate i x s) s calls) =
         view j (foldl (\<lambda>s (i, x). operate i x s) t (filter (\<lambda>(i, x). i = j) calls))"
  using assms
proof (induction calls arbitrary: s t)
  case (Cons call calls)
  obtain i x where [simp]: "call = (i, x)" by fastforce
  have i: "i < n" using Cons.prems(5) [of i x] by simp
  have rest: "\<And>i x. (i, x) \<in> set calls \<Longrightarrow> i < n" using Cons.prems(5) by auto
  show ?case
  proof (cases "i = j")
    case True
    have "view j (operate j x s) = view j (operate j x t)"
      using Cons.prems(1-4) by (intro own)
    then show ?thesis
      using Cons.IH [of "operate j x s" "operate j x t", OF _ _ _ Cons.prems(4) rest] Cons.prems(1,2) True
      by (simp add: inv_kept)
  next
    case False
    have "view j (operate i x s) = view j t"
      using Cons.prems(1-4) False i by (simp add: other)
    then show ?thesis
      using Cons.IH [of "operate i x s" t, OF _ _ _ Cons.prems(4) rest] Cons.prems(1,2) False
      by (simp add: inv_kept)
  qed
qed simp

lemma isolated:
  "inv s \<Longrightarrow> j < n \<Longrightarrow> (\<And>i x. (i, x) \<in> set calls \<Longrightarrow> i < n) \<Longrightarrow>
     view j (foldl (\<lambda>s (i, x). operate i x s) s calls) =
     view j (foldl (\<lambda>s (i, x). operate i x s) s (filter (\<lambda>(i, x). i = j) calls))"
  by (rule isolated_from) auto

end

text \<open>What the outside sees of one collector: its entry, its gauges and its readiness.\<close>

definition collector_view ::
  "nat \<Rightarrow> ('env, 's) scheduler \<Rightarrow>
     ('env, 's) entry \<times> float64 option \<times> float64 option \<times> float64 option \<times> bool option" where
  "collector_view j s =
     (let e = sc_entries s ! j; name = entry_name e
      in (e, sc_success s name, sc_duration s name, sc_last_ok s name, sc_ready s name))"

definition scheduler_ok :: "nat \<Rightarrow> ('env, 's) scheduler \<Rightarrow> bool" where
  "scheduler_ok n s = (length (sc_entries s) = n \<and> distinct (names s))"

lemma length_names [simp]: "length (names s) = length (sc_entries s)"
  by (simp add: names_def)

lemma entry_name_nth: "i < length (sc_entries s) \<Longrightarrow> entry_name (sc_entries s ! i) = names s ! i"
  by (simp add: names_def)

lemma scheduler_refresh_own:
  assumes "scheduler_ok n s" and "scheduler_ok n t" and "j < n"
    and "collector_view j s = collector_view j t"
  shows "collector_view j (scheduler_refresh j inp s) = collector_view j (scheduler_refresh j inp t)"
proof -
  let ?e = "sc_entries s ! j"
  have e: "sc_entries t ! j = ?e" and len: "j < length (sc_entries s)" "j < length (sc_entries t)"
    using assms by (auto simp: collector_view_def Let_def scheduler_ok_def)
  obtain st err where r: "refresh_result j inp s = (st, err)" by fastforce
  then have r': "refresh_result j inp t = (st, err)" by (simp add: refresh_result_def Let_def e)
  have gauges: "sc_success t (entry_name ?e) = sc_success s (entry_name ?e)"
    "sc_duration t (entry_name ?e) = sc_duration s (entry_name ?e)"
    "sc_last_ok t (entry_name ?e) = sc_last_ok s (entry_name ?e)"
    "sc_ready t (entry_name ?e) = sc_ready s (entry_name ?e)"
    using assms(4) by (simp_all add: collector_view_def Let_def e)
  show ?thesis
    by (simp add: collector_view_def Let_def scheduler_refresh_fields [OF r]
        scheduler_refresh_fields [OF r'] len e gauges)
qed

lemma scheduler_refresh_other:
  assumes "scheduler_ok n s" and "i < n" and "j < n" and "i \<noteq> j"
  shows "collector_view j (scheduler_refresh i inp s) = collector_view j s"
proof -
  obtain st err where r: "refresh_result i inp s = (st, err)" by fastforce
  have "entry_name (sc_entries s ! i) \<noteq> entry_name (sc_entries s ! j)"
    using assms nth_eq_iff_index_eq [of "names s" i j]
    by (simp add: scheduler_ok_def entry_name_nth)
  then show ?thesis
    using assms by (simp add: collector_view_def Let_def scheduler_refresh_fields [OF r])
qed

interpretation entries: cells scheduler_refresh collector_view "scheduler_ok n" n for n
proof
  show "scheduler_ok n (scheduler_refresh i x s)" if "scheduler_ok n s" for i x and s :: "('a, 'b) scheduler"
    using that by (simp add: scheduler_ok_def)
qed (rule scheduler_refresh_own scheduler_refresh_other; assumption)+

section \<open>Registration and the stagger\<close>

definition entries_ok :: "('env, 's) scheduler \<Rightarrow> bool" where
  "entries_ok s = (\<forall>e \<in> set (sc_entries s). 0 < en_interval e)"

lemma default_interval_pos: "0 < default_interval"
  by (simp add: default_interval_def minute_def second_def)

lemma register_ok: "entries_ok s \<Longrightarrow> entries_ok (register c interval timeout s)"
  by (auto simp: entries_ok_def register_def Let_def default_interval_pos)

lemma foldl_min_le: "foldl (\<lambda>w e. min w (f e)) (w :: int) es \<le> w"
proof (induction es arbitrary: w)
  case (Cons a es)
  show ?case using Cons.IH [of "min w (f a)"] by simp
qed simp

lemma foldl_min_le_each: "e \<in> set es \<Longrightarrow> foldl (\<lambda>w e. min w (f e)) (w :: int) es \<le> f e"
proof (induction es arbitrary: w)
  case (Cons a es)
  show ?case
  proof (cases "e = a")
    case True
    then show ?thesis using foldl_min_le [of f "min w (f a)" es] by simp
  next
    case False
    then show ?thesis using Cons by simp
  qed
qed simp

lemma foldl_min_pos:
  "0 < w \<Longrightarrow> (\<And>e. e \<in> set es \<Longrightarrow> 0 < f e) \<Longrightarrow> 0 < foldl (\<lambda>w e. min w (f e)) (w :: int) es"
  by (induction es arbitrary: w) auto

lemma stagger_window_bounds:
  "stagger_window es \<le> 3 * second"
  "e \<in> set es \<Longrightarrow> stagger_window es \<le> en_interval e"
  "(\<And>e. e \<in> set es \<Longrightarrow> 0 < en_interval e) \<Longrightarrow> 0 < stagger_window es"
  unfolding stagger_window_def max_stagger_def
  by (rule foldl_min_le, erule foldl_min_le_each, rule foldl_min_pos) (simp_all add: second_def)

lemma stagger_eq:
  assumes "0 < window" and "window \<le> 3 * second" and "0 \<le> i" and "i < n"
  shows "stagger i n window = window div n * i"
    and "0 \<le> window div n * i" and "window div n * i < window"
proof -
  have q: "0 \<le> window div n" and le: "window div n * n \<le> window"
    using assms minus_mod_eq_div_mult [of window n, symmetric]
    by (simp_all add: pos_imp_zdiv_nonneg_iff)
  show lower: "0 \<le> window div n * i" using q assms(3) by simp
  show upper: "window div n * i < window"
  proof (cases "window div n = 0")
    case False
    with q have "window div n * i < window div n * n" using assms(4) by simp
    with le show ?thesis by simp
  qed (use assms in simp)
  have "quot64 window n = window div n"
    using assms by (intro quot64_pos) (auto simp: second_def)
  moreover have "wrap64 (window div n * i) = window div n * i"
    using lower upper assms(2) by (intro wrap64_small) (auto simp: second_def)
  ultimately show "stagger i n window = window div n * i"
    using assms by (auto simp: stagger_def mul64_def)
qed

section \<open>Invariant of a run\<close>

definition stagger_of :: "('env, 's) scheduler \<Rightarrow> nat \<Rightarrow> int" where
  "stagger_of s i =
     stagger (int i) (int (length (sc_entries s))) (stagger_window (sc_entries s))"

definition phase_ok :: "('env, 's) scheduler \<Rightarrow> ('env, 's) run \<Rightarrow> nat \<Rightarrow> bool" where
  "phase_ok s r i =
     (case run_phases r ! i of
        Waiting offset \<Rightarrow> offset = stagger_of s i \<and> i \<notin> fst ` set (run_log r)
      | Ticking \<Rightarrow> i \<in> fst ` set (run_log r)
      | Stopped \<Rightarrow> run_done r \<and> (i \<in> fst ` set (run_log r) \<or> 0 < stagger_of s i))"

definition run_inv :: "('env, 's) scheduler \<Rightarrow> ('env, 's) run \<Rightarrow> bool" where
  "run_inv s r \<longleftrightarrow>
     length (run_phases r) = length (sc_entries s) \<and>
     run_scheduler r = refresh_all (run_log r) s \<and>
     (\<forall>(i, inp) \<in> set (run_log r). i < length (sc_entries s)) \<and>
     (\<forall>i < length (sc_entries s). phase_ok s r i)"

lemma run_inv_start: "run_inv s (run_start s)"
  by (simp add: run_inv_def run_start_def phase_ok_def stagger_of_def Let_def)

lemma phase_ok_refresh:
  assumes "phase_ok s r k" and "i < length (run_phases r)" and "run_phases r ! i \<noteq> Stopped"
  shows "phase_ok s (run_refresh i inp r) k"
  using assms
  by (cases "k = i") (auto simp: phase_ok_def run_refresh_def nth_list_update split: phase.splits)

lemma run_inv_refresh:
  assumes "run_inv s r" and "i < length (run_phases r)" and "run_phases r ! i \<noteq> Stopped"
  shows "run_inv s (run_refresh i inp r)"
proof -
  have "\<forall>k < length (sc_entries s). phase_ok s (run_refresh i inp r) k"
    using assms phase_ok_refresh [OF _ assms(2,3)] by (simp add: run_inv_def)
  with assms(1,2) show ?thesis by (auto simp: run_inv_def run_refresh_def)
qed

lemma run_inv_leave:
  assumes "run_inv s r" and "i < length (run_phases r)" and "run_done r"
    and "run_phases r ! i = Ticking \<or> (\<exists>offset. run_phases r ! i = Waiting offset \<and> 0 < offset)"
  shows "run_inv s (r\<lparr>run_phases := (run_phases r)[i := Stopped]\<rparr>)"
proof -
  have "phase_ok s r i" using assms(1,2) by (simp add: run_inv_def)
  then have "phase_ok s (r\<lparr>run_phases := (run_phases r)[i := Stopped]\<rparr>) k"
    if "phase_ok s r k" for k
    using that assms(2-4) by (cases "k = i") (auto simp: phase_ok_def split: phase.splits)
  with assms(1) show ?thesis by (simp add: run_inv_def)
qed

lemma run_inv_step:
  assumes "run_step r r'" and "run_inv s r"
  shows "run_inv s r'"
  using assms
proof (cases rule: run_step.cases)
  case cancel
  have "phase_ok s (r\<lparr>run_done := True\<rparr>) k" if "phase_ok s r k" for k
    using that by (auto simp: phase_ok_def split: phase.splits)
  with assms(2) cancel show ?thesis by (simp add: run_inv_def)
qed (auto simp: assms(2) intro!: run_inv_refresh run_inv_leave)

lemma run_reach_inv: "run_reach s r \<Longrightarrow> run_inv s r"
  by (induction rule: run_reach.induct) (auto intro: run_inv_start run_inv_step)

lemma run_refines:
  "run_reach s r \<Longrightarrow> run_scheduler r = refresh_all (run_log r) s"
  by (drule run_reach_inv) (simp add: run_inv_def)

text \<open>Once the context is done, every loop can stop.\<close>

lemma loop_stops:
  assumes "run_done r" and "i < length (run_phases r)"
  shows "\<exists>r'. run_step\<^sup>*\<^sup>* r r' \<and> run_done r' \<and> run_phases r' = (run_phases r)[i := Stopped]"
proof -
  define inp :: "'a refresh_input" where
    "inp = \<lparr>ri_world = undefined, ri_seconds = Fin 0, ri_now = 0, ri_shutdown = True\<rparr>"
  let ?f = "run_refresh i inp r"
  have stop: "\<exists>r'. run_step\<^sup>*\<^sup>* q r' \<and> run_done r' \<and> run_phases r' = (run_phases q)[i := Stopped]"
    if "run_phases q ! i = Ticking" "run_done q" "i < length (run_phases q)" for q :: "('a, 'b) run"
    using run_step.stop [OF that(3,1,2)] that(2)
    by (intro exI [of _ "q\<lparr>run_phases := (run_phases q)[i := Stopped]\<rparr>"]) auto
  show ?thesis
  proof (cases "run_phases r ! i")
    case (Waiting offset)
    have "run_step r ?f" using Waiting assms by (intro run_step.first) (auto simp: inp_def)
    moreover have "\<exists>r'. run_step\<^sup>*\<^sup>* ?f r' \<and> run_done r' \<and> run_phases r' = (run_phases ?f)[i := Stopped]"
      using assms by (intro stop) (simp_all add: run_refresh_def)
    ultimately show ?thesis
      by (auto simp: run_refresh_def intro: converse_rtranclp_into_rtranclp)
  next
    case Stopped
    then show ?thesis
      using assms list_update_id [of "run_phases r" i] by (intro exI [of _ r]) simp
  qed (use stop assms in blast)
qed

lemma loops_stop:
  "run_done r \<Longrightarrow> k \<le> length (run_phases r) \<Longrightarrow>
     \<exists>r'. run_step\<^sup>*\<^sup>* r r' \<and> run_done r' \<and> length (run_phases r') = length (run_phases r) \<and>
       (\<forall>i<k. run_phases r' ! i = Stopped)"
proof (induction k)
  case 0
  then show ?case by (intro exI [of _ r]) simp
next
  case (Suc k)
  then obtain q where q: "run_step\<^sup>*\<^sup>* r q" "run_done q"
    "length (run_phases q) = length (run_phases r)" "\<forall>i<k. run_phases q ! i = Stopped" by auto
  with Suc.prems loop_stops [of q k] obtain r' where
    "run_step\<^sup>*\<^sup>* q r'" "run_done r'" "run_phases r' = (run_phases q)[k := Stopped]" by auto
  with q Suc.prems show ?case
    by (intro exI [of _ r'])
      (auto simp: less_Suc_eq nth_list_update intro: rtranclp_trans)
qed

lemma run_can_end: "\<exists>r'. run_step\<^sup>*\<^sup>* r r' \<and> run_over r'"
proof -
  have c: "run_step r (r\<lparr>run_done := True\<rparr>)" by (rule run_step.cancel)
  obtain r' where "run_step\<^sup>*\<^sup>* (r\<lparr>run_done := True\<rparr>) r'" "length (run_phases r') = length (run_phases r)"
    "\<forall>i<length (run_phases r). run_phases r' ! i = Stopped"
    using loops_stop [of "r\<lparr>run_done := True\<rparr>" "length (run_phases r)"] by auto
  with c show ?thesis
    by (intro exI [of _ r'])
      (auto simp: run_over_def in_set_conv_nth intro: converse_rtranclp_into_rtranclp)
qed

section \<open>A collector of the library as an object\<close>

definition as_object ::
  "string \<Rightarrow> desc list \<Rightarrow> ('env \<Rightarrow> 's \<Rightarrow> 's \<times> goerr option) \<Rightarrow> ('s \<Rightarrow> metric list) \<Rightarrow> 's \<Rightarrow>
     ('env, 's) collector_obj" where
  "as_object name describe refresh collect st =
     \<lparr>co_name = name, co_describe = describe,
      co_refresh = (\<lambda>world ctx s. case refresh (world ctx) s of (s', err) \<Rightarrow> (s', Returned err)),
      co_collect = collect, co_state = st\<rparr>"

text \<open>Registration of a list of collectors with a fresh scheduler.\<close>

definition registered ::
  "int \<Rightarrow> (('env, 's) collector_obj \<times> int \<times> int) list \<Rightarrow> ('env, 's) scheduler" where
  "registered timeout regs = foldl (\<lambda>s (c, i, t). register c i t s) (new_scheduler timeout) regs"

lemma registered_ok: "entries_ok (registered timeout regs)"
proof -
  have "entries_ok s \<Longrightarrow> entries_ok (foldl (\<lambda>s (c, i, t). register c i t s) s regs)"
    for s :: "('a, 'b) scheduler"
    by (induction regs arbitrary: s) (auto intro: register_ok)
  moreover have "entries_ok (new_scheduler timeout :: ('a, 'b) scheduler)"
    by (simp add: entries_ok_def new_scheduler_def)
  ultimately show ?thesis by (simp only: registered_def)
qed

lemma registered_silent:
  "sc_ready (registered timeout regs) = Map.empty" "sc_success (registered timeout regs) = Map.empty"
proof -
  have "sc_ready (foldl (\<lambda>s (c, i, t). register c i t s) s regs) = sc_ready s \<and>
        sc_success (foldl (\<lambda>s (c, i, t). register c i t s) s regs) = sc_success s"
    for s :: "('a, 'b) scheduler"
    by (induction regs arbitrary: s) (auto simp: register_def Let_def)
  then show "sc_ready (registered timeout regs) = Map.empty"
    and "sc_success (registered timeout regs) = Map.empty"
    by (simp_all add: registered_def new_scheduler_def)
qed

text \<open>Two collectors: the first answers, the second panics.\<close>

definition demo_scheduler :: "(unit, nat) scheduler" where
  "demo_scheduler =
     registered second
       [(as_object ''a'' [] (\<lambda>_ s. (Suc s, None)) (\<lambda>_. []) 0, minute, 0),
        (\<lparr>co_name = ''b'', co_describe = [], co_refresh = (\<lambda>_ _ s. (s, Panics ''nil'')),
          co_collect = (\<lambda>_. []), co_state = 0\<rparr>, minute, 0)]"

definition demo_input :: "unit refresh_input" where
  "demo_input = \<lparr>ri_world = (\<lambda>_. ()), ri_seconds = Fin 1, ri_now = 7, ri_shutdown = True\<rparr>"

lemma demo_entries:
  "sc_entries demo_scheduler =
     [\<lparr>en_collector = as_object ''a'' [] (\<lambda>_ s. (Suc s, None)) (\<lambda>_. []) 0,
       en_interval = minute, en_timeout = second\<rparr>,
      \<lparr>en_collector = \<lparr>co_name = ''b'', co_describe = [], co_refresh = (\<lambda>_ _ s. (s, Panics ''nil'')),
          co_collect = (\<lambda>_. []), co_state = 0\<rparr>, en_interval = minute, en_timeout = second\<rparr>]"
  by (simp add: demo_scheduler_def registered_def register_def new_scheduler_def Let_def
      minute_def second_def)

lemma demo_names: "names demo_scheduler = [''a'', ''b'']"
  by (simp add: names_def demo_entries entry_name_def as_object_def)

lemma demo_fresh: "sc_ready demo_scheduler = Map.empty"
  unfolding demo_scheduler_def by (rule registered_silent)

definition demo_run :: "(unit, nat) run" where
  "demo_run = run_refresh 1 demo_input (run_refresh 0 demo_input (run_start demo_scheduler))"

lemma demo_reach: "run_reach demo_scheduler demo_run"
proof -
  let ?r = "run_start demo_scheduler"
  have l: "length (run_phases ?r) = 2" and w: "\<exists>k. run_phases ?r ! 0 = Waiting k"
    "\<exists>k. run_phases ?r ! 1 = Waiting k" and d: "\<not> run_done ?r"
    by (simp_all add: run_start_def Let_def demo_entries upt_rec)
  have "run_reach demo_scheduler (run_refresh 0 demo_input ?r)"
    using w(1) l d by (auto intro!: run_reach.step [OF run_reach.start] run_step.first)
  then show ?thesis
    unfolding demo_run_def
  proof (rule run_reach.step)
    let ?q = "run_refresh 0 demo_input ?r"
    have "1 < length (run_phases ?q)" and "\<exists>k. run_phases ?q ! 1 = Waiting k" and "\<not> run_done ?q"
      using w(2) l d by (simp_all add: run_refresh_def)
    then show "run_step ?q (run_refresh 1 demo_input ?q)" by (auto intro: run_step.first)
  qed
qed

lemma demo_outcomes:
  "outcomes (run_log demo_run) demo_scheduler =
     [(''a'', True, None), (''b'', True, Some (Panicked ''nil''))]"
  by (simp add: demo_run_def run_refresh_def run_start_def Let_def refresh_result_def demo_entries
      guarded_refresh_def as_object_def entry_name_def demo_input_def scheduler_refresh_def
      set_entry_state_def mark_ready_def)

section \<open>Properties\<close>

text \<open>
  C2. Readiness, under every interleaving of the loops: at any moment of a run, the collectors
  that are pending are exactly the registered ones, in registration order, of which no refresh
  has returned without an error. So the list is empty precisely when each one holds a snapshot.
\<close>

theorem sched_ready:
  assumes "run_reach s r" and "sc_ready s = Map.empty"
  shows "pending (run_scheduler r) =
    filter (\<lambda>name. \<forall>sh. (name, sh, None) \<notin> set (outcomes (run_log r) s)) (names s)"
proof -
  have "pending (run_scheduler r) =
      filter (\<lambda>name. sc_ready (refresh_all (run_log r) s) name \<noteq> Some True) (names s)"
    using run_refines [OF assms(1)] refresh_all_kept(1) [of "run_log r" s]
    by (simp add: pending_def flip: names_def)
  then show ?thesis using assms(2) by (simp add: ready_history)
qed

lemma sched_ready_witness: "pending (run_scheduler demo_run) = [''b'']"
  using sched_ready [OF demo_reach demo_fresh]
  by (simp add: demo_names demo_outcomes all_bool_eq)

text \<open>
  C11. Isolation: after any run, what is visible of one collector, its snapshot, its
  success, duration and last-success gauges and its readiness, is what its own refreshes alone
  would have made of it. Whatever the other collectors do, panics included, does not reach it.
\<close>

theorem sched_isolated:
  assumes "run_reach s r" and "distinct (names s)" and "j < length (sc_entries s)"
  shows "collector_view j (run_scheduler r) =
         collector_view j (refresh_all (filter (\<lambda>(i, inp). i = j) (run_log r)) s)"
proof -
  have "\<And>i inp. (i, inp) \<in> set (run_log r) \<Longrightarrow> i < length (sc_entries s)"
    using run_reach_inv [OF assms(1)] by (auto simp: run_inv_def)
  then show ?thesis
    using entries.isolated [of "length (sc_entries s)" s j "run_log r"] assms(2,3)
    by (simp add: run_refines [OF assms(1)] refresh_all_def scheduler_ok_def)
qed

lemma sched_isolated_witness:
  "collector_view 0 (run_scheduler demo_run) =
     collector_view 0 (refresh_all [(0, demo_input)] demo_scheduler)"
  using sched_isolated [OF demo_reach, of 0]
  by (simp add: demo_names demo_entries demo_run_def run_refresh_def run_start_def Let_def)

text \<open>
  C26. The success gauge of a collector shows its last recorded refresh: 1 if that returned no
  error, 0 if it failed or panicked. A failure is left out only when the scheduler was shutting
  down and it was no panic.
\<close>

theorem sched_success_gauge:
  "sc_success (refresh_all calls s) name =
     (case rev (filter (records name) (outcomes calls s)) of
        [] \<Rightarrow> sc_success s name
      | out # _ \<Rightarrow> Some (bool_to_float (snd (snd out) = None)))"
  by (rule success_history)

text \<open>
  C27. Shutdown. From every state of a run the loops can all come to their end, and a run with
  collectors is only ever over after its context was cancelled and the first collector, whose
  loop has no wait before its first refresh, was refreshed at least once.
\<close>

theorem sched_shutdown:
  assumes "run_reach s r" and "sc_entries s \<noteq> []"
  shows "(\<exists>r'. run_step\<^sup>*\<^sup>* r r' \<and> run_over r') \<and>
    (run_over r \<longrightarrow> run_done r \<and> 0 \<in> fst ` set (run_log r))"
proof -
  have inv: "run_inv s r" using assms(1) by (rule run_reach_inv)
  have "run_done r \<and> 0 \<in> fst ` set (run_log r)" if "run_over r"
  proof -
    have "run_phases r ! 0 = Stopped" and "phase_ok s r 0"
      using that inv assms(2) by (auto simp: run_over_def run_inv_def)
    then show ?thesis by (simp add: phase_ok_def stagger_of_def stagger_def)
  qed
  then show ?thesis using run_can_end by blast
qed

lemma sched_shutdown_witness: "\<exists>r'. run_step\<^sup>*\<^sup>* demo_run r' \<and> run_over r'"
  using sched_shutdown [OF demo_reach] by (simp add: demo_entries)

text \<open>
  C28. The stagger. Of \<open>n\<close> registered collectors each waits less than three seconds and less
  than every collector's interval, so no first tick comes before a first refresh, and two of
  them never wait equally long as long as the window has a nanosecond for each.
\<close>

theorem sched_stagger:
  assumes s_def: "s = registered timeout regs"
    and "i < length (sc_entries s)" and "j < length (sc_entries s)" and "i < j"
    and "int (length (sc_entries s)) \<le> stagger_window (sc_entries s)"
    and "e \<in> set (sc_entries s)"
  shows "0 \<le> stagger_of s i \<and> stagger_of s i < stagger_of s j \<and>
         stagger_of s j < en_interval e \<and> stagger_of s j < 3 * second"
proof -
  let ?w = "stagger_window (sc_entries s)" and ?n = "int (length (sc_entries s))"
  have pos: "\<And>e. e \<in> set (sc_entries s) \<Longrightarrow> 0 < en_interval e"
    using registered_ok [of timeout regs] by (auto simp: entries_ok_def s_def)
  have w: "0 < ?w" "?w \<le> 3 * second" "?w \<le> en_interval e"
    using assms(6) pos by (auto intro!: stagger_window_bounds)
  have "?n \<noteq> 0" using assms(2) by auto
  then have q: "0 < ?w div ?n" using assms(5) w by (simp add: pos_imp_zdiv_pos_iff)
  have "stagger_of s i = ?w div ?n * int i" "stagger_of s j = ?w div ?n * int j"
    "?w div ?n * int j < ?w" "0 \<le> ?w div ?n * int i"
    using stagger_eq [OF w(1,2)] assms(2,3) by (simp_all add: stagger_of_def)
  moreover have "?w div ?n * int i < ?w div ?n * int j" using q assms(4) by simp
  ultimately show ?thesis using w by simp
qed

lemma sched_stagger_witness:
  "stagger_of demo_scheduler 0 < stagger_of demo_scheduler 1 \<and>
   stagger_of demo_scheduler 1 < minute"
proof -
  have n: "sc_entries demo_scheduler \<noteq> []" "length (sc_entries demo_scheduler) = 2"
    by (simp_all add: demo_entries)
  moreover have "int (length (sc_entries demo_scheduler)) \<le> stagger_window (sc_entries demo_scheduler)"
    by (simp add: demo_entries stagger_window_def max_stagger_def minute_def second_def)
  ultimately show ?thesis
    using sched_stagger [OF demo_scheduler_def, of 0 1 "hd (sc_entries demo_scheduler)"]
    by (simp add: demo_entries)
qed

end
