(* ===== verification/Routes.thy ===== *)
theory Routes
  imports Scheduler
begin

text \<open>
  The HTTP side of cmd/digitalocean_exporter/main.go: the answers of the probes, the table of
  routes newHandler builds and how net/http picks one. The handler of the Prometheus library and
  the landing page of the exporter toolkit are parameters. A handler is a function of the state
  of the exporter, \<open>'st\<close>, and of the path of the request; the server and its shutdown are in
  Serving.
\<close>

section \<open>Answers\<close>

record http_reply =
  an_status :: int
  an_content_type :: string
  an_body :: string

definition write_plain :: "int \<Rightarrow> string \<Rightarrow> http_reply" where
  "write_plain status body =
     \<lparr>an_status = status, an_content_type = ''text/plain; charset=utf-8'', an_body = body\<rparr>"

definition handle_healthz :: http_reply where
  "handle_healthz = write_plain 200 (''ok'' @ [CHR 0x0A])"

definition handle_readyz :: "string list \<Rightarrow> http_reply" where
  "handle_readyz pending_names =
     (if pending_names = [] then write_plain 200 (''ok'' @ [CHR 0x0A])
      else write_plain 503
             (''waiting for the first successful refresh of:'' @ [CHR 0x0A] @
              join_with [CHR 0x0A] pending_names @ [CHR 0x0A]))"

section \<open>The request multiplexer of net/http\<close>

text \<open>
  A pattern that ends in a slash matches what lies below it, any other only itself; the longest
  match wins. A path that is not in its clean form is redirected to it: no empty, \<open>.\<close> or \<open>..\<close>
  segment, and a slash in front.
\<close>

type_synonym 'st handler = "'st \<Rightarrow> string \<Rightarrow> http_reply"
type_synonym 'st mux = "(string \<times> 'st handler) list"

datatype routed = Redirected (target: string) | Answered (reply_of: http_reply)

fun clean_segments :: "string list \<Rightarrow> string list \<Rightarrow> string list" where
  "clean_segments acc [] = rev acc"
| "clean_segments acc (s # ss) =
     (if s = '''' \<or> s = ''.'' then clean_segments acc ss
      else if s = ''..'' then clean_segments (tl acc) ss
      else clean_segments (s # acc) ss)"

definition clean_path :: "string \<Rightarrow> string" where
  "clean_path p =
     (let segs = clean_segments [] (split_on (CHR ''/'') p)
      in if segs = [] then ''/''
         else ''/'' @ join_with ''/'' segs @ (if last p = CHR ''/'' then ''/'' else ''''))"

definition pattern_matches :: "string \<Rightarrow> string \<Rightarrow> bool" where
  "pattern_matches pat path =
     (pat = path \<or> (pat \<noteq> '''' \<and> last pat = CHR ''/'' \<and> take (length pat) path = pat))"

fun most_specific :: "string \<Rightarrow> 'st mux \<Rightarrow> (string \<times> 'st handler) option" where
  "most_specific path [] = None"
| "most_specific path ((pat, h) # mux) =
     (case most_specific path mux of
        None \<Rightarrow> if pattern_matches pat path then Some (pat, h) else None
      | Some (pat', h') \<Rightarrow>
          if pattern_matches pat path \<and> length pat' < length pat then Some (pat, h)
          else Some (pat', h'))"

definition mux_serve :: "'st mux \<Rightarrow> 'st \<Rightarrow> string \<Rightarrow> routed" where
  "mux_serve mux st path =
     (if clean_path path \<noteq> path then Redirected (clean_path path)
      else case most_specific path mux of
             None \<Rightarrow> Answered (write_plain 404 (''404 page not found'' @ [CHR 0x0A]))
           | Some (pat, h) \<Rightarrow> Answered (h st path))"

section \<open>The routes\<close>

record landing_link =
  ll_address :: string
  ll_text :: string
  ll_description :: string

record landing_config =
  lc_name :: string
  lc_description :: string
  lc_version :: string
  lc_links :: "landing_link list"

definition exporter_landing :: "string \<Rightarrow> landing_config" where
  "exporter_landing version =
     \<lparr>lc_name = ''DigitalOcean Exporter'', lc_description = ''Prometheus exporter for DigitalOcean.'',
      lc_version = version,
      lc_links =
        [\<lparr>ll_address = ''/metrics'', ll_text = ''Metrics'',
          ll_description = ''The exposition the collectors feed.''\<rparr>,
         \<lparr>ll_address = ''/healthz'', ll_text = ''Health'',
          ll_description = ''Liveness: the process is running.''\<rparr>,
         \<lparr>ll_address = ''/readyz'', ll_text = ''Readiness'',
          ll_description = ''Readiness: every enabled collector has a snapshot.''\<rparr>]\<rparr>"

definition new_handler ::
  "(landing_config \<Rightarrow> 'st handler res) \<Rightarrow> string \<Rightarrow> 'st handler \<Rightarrow> ('st \<Rightarrow> string list) \<Rightarrow> 'st mux res" where
  "new_handler new_landing_page version metrics ready =
     (case new_landing_page (exporter_landing version) of
        Inl e \<Rightarrow> Inl (Wrap ''build landing page'' [e])
      | Inr landing \<Rightarrow> Inr
          [(''/metrics'', metrics), (''/healthz'', \<lambda>st path. handle_healthz),
           (''/readyz'', \<lambda>st path. handle_readyz (ready st)), (''/'', landing)])"

section \<open>What the routes answer\<close>

text \<open>A clean path is where a redirect ends.\<close>

lemma clean_segments_plain:
  "(\<And>s. s \<in> set ss \<Longrightarrow> s \<notin> {'''', ''.'', ''..''}) \<Longrightarrow> clean_segments acc ss = rev acc @ ss"
  by (induction acc ss rule: clean_segments.induct) auto

lemma clean_segments_result:
  "s \<in> set (clean_segments acc ss) \<Longrightarrow>
     (\<And>a. a \<in> set acc \<Longrightarrow> a \<notin> {'''', ''.'', ''..''} \<and> CHR ''/'' \<notin> set a) \<Longrightarrow>
     (\<And>x. x \<in> set ss \<Longrightarrow> CHR ''/'' \<notin> set x) \<Longrightarrow> s \<notin> {'''', ''.'', ''..''} \<and> CHR ''/'' \<notin> set s"
proof (induction acc ss rule: clean_segments.induct)
  case (2 acc x ss)
  have "a \<in> set (tl acc) \<Longrightarrow> a \<in> set acc" for a by (cases acc) auto
  with 2 show ?case by (auto split: if_splits)
qed auto

lemma split_on_plain: "c \<notin> set s \<Longrightarrow> split_on c s = [s]"
  by (induction s) auto

lemma split_on_segments:
  "(\<And>s. s \<in> set (x # xs) \<Longrightarrow> c \<notin> set s) \<Longrightarrow> split_on c (join_with [c] (x # xs)) = x # xs"
  unfolding split_on_join by (induction xs arbitrary: x) (auto simp: split_on_plain)

lemma clean_segments_skip:
  "clean_segments acc ('''' # ss) = clean_segments acc ss"
  "clean_segments acc (ss @ ['''']) = clean_segments acc ss"
  by simp (induction acc ss rule: clean_segments.induct; simp)

lemma join_with_last:
  "x \<noteq> '''' \<Longrightarrow> join_with sep (xs @ [x]) \<noteq> '''' \<and> last (join_with sep (xs @ [x])) = last x"
proof (induction xs)
  case (Cons y ys)
  then show ?case by (cases ys) auto
qed simp

lemma clean_path_idem: "clean_path (clean_path p) = clean_path p"
proof (cases "clean_segments [] (split_on (CHR ''/'') p) = []")
  case True
  then show ?thesis by (simp add: clean_path_def)
next
  case False
  define segs where "segs = clean_segments [] (split_on (CHR ''/'') p)"
  define tail where "tail = (if last p = CHR ''/'' then ''/'' else '''')"
  have plain: "s \<notin> {'''', ''.'', ''..''} \<and> CHR ''/'' \<notin> set s" if "s \<in> set segs" for s
    using clean_segments_result [of s "[]" "split_on (CHR ''/'') p"] that split_on_no_sep
    by (auto simp: segs_def)
  obtain x xs where segs: "segs = x # xs" using False by (cases segs) (auto simp: segs_def)
  have out: "clean_path p = ''/'' @ join_with ''/'' segs @ tail"
    using False by (simp add: clean_path_def segs_def tail_def Let_def)
  have "split_on (CHR ''/'') (join_with ''/'' segs) = segs"
    using split_on_segments [of x xs "CHR ''/''"] plain by (simp add: segs)
  then have "split_on (CHR ''/'') (clean_path p) = '''' # segs @ (if tail = '''' then [] else [''''])"
    using split_on_join_cons [of "CHR ''/''" "join_with ''/'' segs" "''''"] by (auto simp: out tail_def)
  moreover have "clean_segments [] segs = segs"
    using clean_segments_plain [of segs "[]"] plain by simp
  ultimately have again: "clean_segments [] (split_on (CHR ''/'') (clean_path p)) = segs"
    using clean_segments_skip by auto
  have "last segs \<noteq> '''' \<and> CHR ''/'' \<notin> set (last segs)"
    using plain [of "last segs"] by (simp add: segs)
  then have "last (last segs) \<noteq> CHR ''/'' \<and> last segs \<noteq> ''''" by (metis last_in_set)
  then have "last (join_with ''/'' segs) \<noteq> CHR ''/'' \<and> join_with ''/'' segs \<noteq> ''''"
    using join_with_last [of "last segs" "''/''" "butlast segs"]
      append_butlast_last_id [of segs] by (simp add: segs del: butlast.simps last.simps)
  then have "last (clean_path p) = CHR ''/'' \<longleftrightarrow> tail \<noteq> ''''"
    by (auto simp: out tail_def)
  then have "(if last (clean_path p) = CHR ''/'' then ''/'' else '''') = tail"
    by (simp add: tail_def split: if_splits)
  moreover have "clean_path q = ''/'' @ join_with ''/'' segs @ (if last q = CHR ''/'' then ''/'' else '''')"
    if "clean_segments [] (split_on (CHR ''/'') q) = segs" for q
    using that segs by (simp add: clean_path_def Let_def)
  ultimately show ?thesis using again out by (simp only:)
qed

lemma route_paths [simp]:
  "clean_path ''/metrics'' = ''/metrics''" "clean_path ''/healthz'' = ''/healthz''"
  "clean_path ''/readyz'' = ''/readyz''" "clean_path ''/'' = ''/''"
  by (simp_all add: clean_path_def Let_def)

lemma handler_routes:
  assumes "new_handler page version metrics ready = Inr mux"
  shows "mux_serve mux st ''/metrics'' = Answered (metrics st ''/metrics'')"
    and "mux_serve mux st ''/healthz'' = Answered handle_healthz"
    and "mux_serve mux st ''/readyz'' = Answered (handle_readyz (ready st))"
  using assms
  by (auto simp: new_handler_def mux_serve_def pattern_matches_def split: sum.splits)

text \<open>Any other path is the landing page's, unless it has to be cleaned first.\<close>

lemma handler_landing:
  assumes "new_handler page version metrics ready = Inr mux"
    and "path \<notin> {''/metrics'', ''/healthz'', ''/readyz''}" and "clean_path path = path"
  shows "\<exists>landing. page (exporter_landing version) = Inr landing \<and>
    mux_serve mux st path = Answered (landing st path)"
proof -
  have "take 1 path = ''/''"
    by (subst assms(3) [symmetric]) (simp add: clean_path_def Let_def)
  then show ?thesis
    using assms by (auto simp: new_handler_def mux_serve_def pattern_matches_def split: sum.splits)
qed

end
