(* ===== verification/Serving.thy ===== *)
theory Serving
  imports Prelude
begin

text \<open>
  How the exporter serves and ends: serve and main of cmd/digitalocean_exporter/main.go as a step
  relation over the listening server, the goroutine that waits for the signal, and the requests
  in flight. What net/http documents of \<open>Shutdown\<close> is in the steps: it closes the listeners first,
  at which a listening server returns \<open>ErrServerClosed\<close> at once, and then waits for the requests
  in flight until its deadline. The relation starts where main calls serve; what ends main
  before that, the help or a configuration that is refused, is not part of it.
\<close>

section \<open>The end of serve and of main\<close>

definition serve_http :: "goerr option \<Rightarrow> goerr option" where
  "serve_http err =
     (case err of
        Some e \<Rightarrow> if errors_is e ErrServerClosed then None else Some (Wrap ''serve'' [e])
      | None \<Rightarrow> None)"

definition exit_code :: "goerr option \<Rightarrow> int" where
  "exit_code err =
     (case err of
        None \<Rightarrow> 0
      | Some e \<Rightarrow> if errors_is e ErrHelpShown then 0 else 1)"

section \<open>Steps\<close>

text \<open>How far \<open>server.Shutdown\<close> has come; the phases are ordered as they follow each other.\<close>

datatype drain = Uncalled | Draining | Drained

fun drain_rank :: "drain \<Rightarrow> nat" where
  "drain_rank Uncalled = 0"
| "drain_rank Draining = 1"
| "drain_rank Drained = 2"

lemma drain_rank_inj: "drain_rank d = drain_rank d' \<Longrightarrow> d = d'"
  by (cases d; cases d') simp_all

instantiation drain :: linorder
begin

definition less_eq_drain :: "drain \<Rightarrow> drain \<Rightarrow> bool" where
  "less_eq_drain d d' \<longleftrightarrow> drain_rank d \<le> drain_rank d'"

definition less_drain :: "drain \<Rightarrow> drain \<Rightarrow> bool" where
  "less_drain d d' \<longleftrightarrow> drain_rank d < drain_rank d'"

instance
  by standard (auto simp: less_eq_drain_def less_drain_def dest: drain_rank_inj)

end

lemma drain_order [simp]:
  "Uncalled \<le> d" "Draining \<le> d \<longleftrightarrow> d \<noteq> Uncalled" "Drained \<le> d \<longleftrightarrow> d = Drained"
  by (cases d; simp add: less_eq_drain_def)+

text \<open>
  \<open>sv_returned\<close> is what \<open>ListenAndServe\<close> came back with, \<open>sv_exit\<close> the exit code of the process. A
  listener that fails does so with an error that is neither of the two the command knows.
\<close>

record serving =
  sv_cancelled :: bool
  sv_open :: bool
  sv_inflight :: nat
  sv_drain :: drain
  sv_returned :: "goerr option option"
  sv_exit :: "int option"

definition serve_start :: serving where
  "serve_start =
     \<lparr>sv_cancelled = False, sv_open = True, sv_inflight = 0, sv_drain = Uncalled,
      sv_returned = None, sv_exit = None\<rparr>"

inductive serve_step :: "serving \<Rightarrow> serving \<Rightarrow> bool" where
  signal: "sv_exit r = None \<Longrightarrow> serve_step r (r\<lparr>sv_cancelled := True\<rparr>)"
| accept: "sv_exit r = None \<Longrightarrow> sv_open r \<Longrightarrow>
    serve_step r (r\<lparr>sv_inflight := Suc (sv_inflight r)\<rparr>)"
| finish: "sv_exit r = None \<Longrightarrow> sv_inflight r = Suc n \<Longrightarrow> serve_step r (r\<lparr>sv_inflight := n\<rparr>)"
| shutdown: "sv_exit r = None \<Longrightarrow> sv_cancelled r \<Longrightarrow> sv_drain r = Uncalled \<Longrightarrow>
    serve_step r (r\<lparr>sv_open := False, sv_drain := Draining\<rparr>)"
| drained: "sv_exit r = None \<Longrightarrow> sv_drain r = Draining \<Longrightarrow> sv_inflight r = 0 \<Longrightarrow>
    serve_step r (r\<lparr>sv_drain := Drained\<rparr>)"
| overdue: "sv_exit r = None \<Longrightarrow> sv_drain r = Draining \<Longrightarrow> serve_step r (r\<lparr>sv_drain := Drained\<rparr>)"
| broken: "sv_exit r = None \<Longrightarrow> sv_returned r = None \<Longrightarrow>
    \<not> errors_is e ErrServerClosed \<Longrightarrow> \<not> errors_is e ErrHelpShown \<Longrightarrow>
    serve_step r (r\<lparr>sv_open := False, sv_returned := Some (Some e)\<rparr>)"
| closed: "sv_exit r = None \<Longrightarrow> sv_returned r = None \<Longrightarrow> sv_drain r \<noteq> Uncalled \<Longrightarrow>
    serve_step r (r\<lparr>sv_returned := Some (Some (Sentinel ErrServerClosed))\<rparr>)"
| leave_main: "sv_exit r = None \<Longrightarrow> sv_returned r = Some err \<Longrightarrow>
    serve_step r (r\<lparr>sv_exit := Some (exit_code (serve_http err))\<rparr>)"

inductive serve_reach :: "serving \<Rightarrow> bool" where
  serve_begin: "serve_reach serve_start"
| serve_more: "serve_reach r \<Longrightarrow> serve_step r r' \<Longrightarrow> serve_reach r'"

inductive_cases serve_stepE: "serve_step r r'"

section \<open>Lemmas\<close>

text \<open>Shutdown only moves forward, and no request comes in once it has begun.\<close>

lemma serve_monotone:
  "serve_step r r' \<Longrightarrow> sv_drain r \<le> sv_drain r' \<and> (sv_open r' \<longrightarrow> sv_open r) \<and>
     (sv_cancelled r \<longrightarrow> sv_cancelled r')"
  by (induction rule: serve_step.induct) auto

lemma serve_no_late_request:
  "serve_step r r' \<Longrightarrow> \<not> sv_open r \<Longrightarrow> sv_inflight r' \<le> sv_inflight r"
  by (induction rule: serve_step.induct) auto

definition serve_inv :: "serving \<Rightarrow> bool" where
  "serve_inv r \<longleftrightarrow>
     (Draining \<le> sv_drain r \<longrightarrow> sv_cancelled r \<and> \<not> sv_open r) \<and>
     (case sv_returned r of
        None \<Rightarrow> sv_exit r = None
      | Some err \<Rightarrow> (\<exists>e. err = Some e \<and> \<not> errors_is e ErrHelpShown \<and>
            (errors_is e ErrServerClosed \<longrightarrow> Draining \<le> sv_drain r)) \<and>
          \<not> sv_open r \<and> sv_exit r \<in> {None, Some (exit_code (serve_http err))})"

lemma serve_step_inv: "serve_step r r' \<Longrightarrow> serve_inv r \<Longrightarrow> serve_inv r'"
  by (induction rule: serve_step.induct) (auto simp: serve_inv_def split: option.splits)

lemma serve_reach_inv: "serve_reach r \<Longrightarrow> serve_inv r"
  by (induction rule: serve_reach.induct) (auto simp: serve_inv_def serve_start_def dest: serve_step_inv)

text \<open>From any moment before the signal, the shortest way out.\<close>

lemma serve_hasty_exit:
  assumes "sv_exit r = None" and "sv_returned r = None" and "sv_drain r = Uncalled"
  shows "serve_step\<^sup>*\<^sup>* r (r\<lparr>sv_cancelled := True, sv_open := False, sv_drain := Draining,
    sv_returned := Some (Some (Sentinel ErrServerClosed)), sv_exit := Some 0\<rparr>)"
proof -
  let ?a = "r\<lparr>sv_cancelled := True\<rparr>"
  let ?b = "?a\<lparr>sv_open := False, sv_drain := Draining\<rparr>"
  let ?c = "?b\<lparr>sv_returned := Some (Some (Sentinel ErrServerClosed))\<rparr>"
  have "serve_step r ?a" using assms(1) by (rule serve_step.signal)
  moreover have "serve_step ?a ?b" by (rule serve_step.shutdown) (simp_all add: assms)
  moreover have "serve_step ?b ?c" by (rule serve_step.closed) (simp_all add: assms)
  moreover have "serve_step ?c (?c\<lparr>sv_exit := Some 0\<rparr>)"
    using serve_step.leave_main [of ?c "Some (Sentinel ErrServerClosed)"] assms
    by (simp add: serve_http_def exit_code_def)
  ultimately have "serve_step\<^sup>*\<^sup>* r (?c\<lparr>sv_exit := Some 0\<rparr>)"
    by (meson converse_rtranclp_into_rtranclp rtranclp.rtrancl_refl)
  then show ?thesis by simp
qed

section \<open>Properties\<close>

text \<open>
  C23. The exit code tells a shutdown from a failure: 0 only after a signal that closed the
  server, 1 only when a listener failed. But the shutdown is not waited for: at whatever moment
  the signal comes, the process may be gone while every request that was in flight still is and
  the drain has only begun, because the server returns as soon as its listeners are closed.
\<close>

theorem serve_ends:
  assumes "serve_reach r"
  shows "(sv_exit r = Some 0 \<longrightarrow> sv_cancelled r \<and> \<not> sv_open r \<and> Draining \<le> sv_drain r) \<and>
    (\<forall>code. sv_exit r = Some code \<and> code \<noteq> 0 \<longrightarrow>
      code = 1 \<and> (\<exists>e. sv_returned r = Some (Some e) \<and> \<not> errors_is e ErrServerClosed)) \<and>
    (sv_exit r = None \<and> sv_returned r = None \<and> sv_drain r = Uncalled \<longrightarrow>
      (\<exists>r'. serve_step\<^sup>*\<^sup>* r r' \<and> sv_exit r' = Some 0 \<and> sv_drain r' = Draining \<and>
        sv_inflight r' = sv_inflight r))"
proof (intro conjI impI)
  have inv: "serve_inv r" using assms by (rule serve_reach_inv)
  show "sv_cancelled r" "\<not> sv_open r" "Draining \<le> sv_drain r" if "sv_exit r = Some 0"
    using inv that
    by (auto simp: serve_inv_def serve_http_def exit_code_def split: option.splits if_splits)
  show "\<forall>code. sv_exit r = Some code \<and> code \<noteq> 0 \<longrightarrow>
      code = 1 \<and> (\<exists>e. sv_returned r = Some (Some e) \<and> \<not> errors_is e ErrServerClosed)"
    using inv by (auto simp: serve_inv_def serve_http_def exit_code_def split: option.splits if_splits)
  assume "sv_exit r = None \<and> sv_returned r = None \<and> sv_drain r = Uncalled"
  then have "serve_step\<^sup>*\<^sup>* r (r\<lparr>sv_cancelled := True, sv_open := False, sv_drain := Draining,
      sv_returned := Some (Some (Sentinel ErrServerClosed)), sv_exit := Some 0\<rparr>)"
    using serve_hasty_exit by blast
  then show "\<exists>r'. serve_step\<^sup>*\<^sup>* r r' \<and> sv_exit r' = Some 0 \<and> sv_drain r' = Draining \<and>
      sv_inflight r' = sv_inflight r"
    by (intro exI conjI) (assumption, simp_all)
qed

lemma serve_ends_witness:
  "\<exists>r r'. serve_reach r \<and> sv_inflight r = 1 \<and> serve_step\<^sup>*\<^sup>* r r' \<and> sv_exit r' = Some 0 \<and>
     sv_drain r' = Draining \<and> sv_inflight r' = 1"
proof -
  let ?r = "serve_start\<lparr>sv_inflight := Suc (sv_inflight serve_start)\<rparr>"
  have "serve_step serve_start ?r" by (rule serve_step.accept) (simp_all add: serve_start_def)
  then have r: "serve_reach ?r" by (rule serve_more [OF serve_begin])
  obtain r' where "serve_step\<^sup>*\<^sup>* ?r r'" "sv_exit r' = Some 0" "sv_drain r' = Draining"
    "sv_inflight r' = sv_inflight ?r"
    using serve_ends [OF r] by (auto simp: serve_start_def)
  with r show ?thesis by (intro exI [of _ ?r] exI [of _ r']) (simp add: serve_start_def)
qed

end
