(* ===== verification/Doclient.thy ===== *)
theory Doclient
  imports Go_Strings Go_Float "HOL-Library.Multiset"
begin

text \<open>
  internal/doclient: the transport every API request goes through. It waits for the rate
  limiter, sends the request with the bearer token, counts and times the attempt under the
  collector and the resource it belongs to, records the rate-limit headers and decides whether
  the request is tried again and after which wait.

  What is outside is a parameter: the next \<open>http.RoundTripper\<close>, the limiter, the clock and two
  parsers of the Go library, collected in \<open>transport_env\<close> over a world \<open>'w\<close> that they advance.
  Instants and durations are nanoseconds. The counter and the histogram are multisets of what
  was added and observed. The log of the waits a request made is kept beside its result.
\<close>

section \<open>Requests, responses and contexts\<close>

type_synonym header = "string \<Rightarrow> string"

record response =
  rs_status :: int
  rs_header :: header

record request =
  rq_path :: string
  rq_header :: header
  rq_body :: bool

record req_ctx =
  rc_collector :: "string option"
  rc_deadline :: "int option"
  rc_cancel :: "int option"

text \<open>
  \<open>ctx.Err()\<close> at an instant: a context is done from its deadline on, or from the moment it is
  cancelled if that comes first.
\<close>

definition rc_err :: "req_ctx \<Rightarrow> int \<Rightarrow> goerr option" where
  "rc_err ctx now =
     (let late = (case rc_deadline ctx of None \<Rightarrow> False | Some d \<Rightarrow> d \<le> now);
          cancelled = (case rc_cancel ctx of None \<Rightarrow> False | Some c \<Rightarrow> c \<le> now);
          first = (case (rc_cancel ctx, rc_deadline ctx) of
                     (Some c, Some d) \<Rightarrow> c < d | _ \<Rightarrow> True)
      in if cancelled \<and> first then Some (Sentinel Canceled)
         else if late then Some (Sentinel DeadlineExceeded) else None)"

section \<open>context.go\<close>

definition no_collector :: string where "no_collector = ''none''"

definition with_collector :: "req_ctx \<Rightarrow> string \<Rightarrow> req_ctx" where
  "with_collector ctx name = (if name = '''' then ctx else ctx\<lparr>rc_collector := Some name\<rparr>)"

definition collector_name :: "req_ctx \<Rightarrow> string" where
  "collector_name ctx =
     (case rc_collector ctx of
        None \<Rightarrow> no_collector
      | Some name \<Rightarrow> if name = '''' then no_collector else name)"

section \<open>Labels and header gauges\<close>

definition resource :: "string \<Rightarrow> string" where
  "resource path =
     (let trimmed = trim_prefix ''v2/'' (trim_prefix ''/'' path);
          seg = before_byte (CHR ''/'') trimmed
      in if seg = '''' then ''unknown'' else seg)"

record api_metrics =
  am_requests :: "(string \<times> string \<times> string) multiset"
  am_duration :: "(string \<times> string \<times> float64) multiset"
  am_remaining :: float64
  am_limit :: float64
  am_reset :: float64

definition new_metrics :: api_metrics where
  "new_metrics =
     \<lparr>am_requests = {#}, am_duration = {#}, am_remaining = Fin 0, am_limit = Fin 0,
      am_reset = Fin 0\<rparr>"

definition set_from_header ::
  "(string \<Rightarrow> float64 option) \<Rightarrow> float64 \<Rightarrow> header \<Rightarrow> string \<Rightarrow> float64" where
  "set_from_header parse_float gauge header name =
     (case parse_float (header name) of None \<Rightarrow> gauge | Some value \<Rightarrow> value)"

definition observe_rate_limit ::
  "(string \<Rightarrow> float64 option) \<Rightarrow> header \<Rightarrow> api_metrics \<Rightarrow> api_metrics" where
  "observe_rate_limit parse_float header m =
     m\<lparr>am_remaining := set_from_header parse_float (am_remaining m) header ''RateLimit-Remaining'',
       am_limit := set_from_header parse_float (am_limit m) header ''RateLimit-Limit'',
       am_reset := set_from_header parse_float (am_reset m) header ''RateLimit-Reset''\<rparr>"

section \<open>The environment of the transport\<close>

record 'w transport_env =
  te_base :: "request \<Rightarrow> 'w \<Rightarrow> response res \<times> 'w"
  te_limit :: "req_ctx \<Rightarrow> 'w \<Rightarrow> goerr option \<times> 'w"
  te_now :: "'w \<Rightarrow> int"
  te_sleep :: "int \<Rightarrow> 'w \<Rightarrow> bool \<times> 'w"
  te_seconds :: "int \<Rightarrow> float64"
  te_parse_float :: "string \<Rightarrow> float64 option"
  te_parse_time :: "string \<Rightarrow> int option"

record transport =
  tp_token :: string
  tp_limiter :: "float64 option"
  tp_max_attempts :: int

section \<open>When to try again, and after which wait\<close>

definition base_backoff :: int where "base_backoff = second"
definition max_backoff :: int where "max_backoff = 10 * second"
definition default_max_attempts :: int where "default_max_attempts = 3"

definition retryable :: "int \<Rightarrow> bool" where
  "retryable status = (status = 429 \<or> (500 \<le> status \<and> status \<noteq> 501))"

definition retryable_error :: "goerr \<Rightarrow> bool" where
  "retryable_error e = (\<not> errors_is e Canceled \<and> \<not> errors_is e DeadlineExceeded)"

definition budget_spent :: "(string \<Rightarrow> float64 option) \<Rightarrow> header \<Rightarrow> bool" where
  "budget_spent parse_float header =
     (case parse_float (header ''RateLimit-Remaining'') of
        None \<Rightarrow> False
      | Some remaining \<Rightarrow> flt_le remaining (Fin 0))"

definition fallback_backoff :: "nat \<Rightarrow> int" where
  "fallback_backoff attempt = min (shl64 base_backoff (attempt - 1)) max_backoff"

text \<open>\<open>time.Until\<close> saturates at the ends of the range of a duration.\<close>

definition until :: "int \<Rightarrow> int \<Rightarrow> int" where
  "until now t = max (- (2 ^ 63)) (min (2 ^ 63 - 1) (t - now))"

definition retry_after :: "(string \<Rightarrow> int option) \<Rightarrow> int \<Rightarrow> string \<Rightarrow> int option" where
  "retry_after parse_time now value =
     (if value = '''' then None
      else case atoi value of
             Some seconds \<Rightarrow> Some (max (mul64 seconds second) 0)
           | None \<Rightarrow>
               (case parse_time value of
                  Some t \<Rightarrow> Some (max (until now t) 0)
                | None \<Rightarrow> None))"

definition retry_delay :: "'w transport_env \<Rightarrow> int \<Rightarrow> response \<Rightarrow> nat \<Rightarrow> int option" where
  "retry_delay env now resp attempt =
     (if \<not> retryable (rs_status resp) then None
      else case retry_after (te_parse_time env) now (rs_header resp ''Retry-After'') of
             Some wait \<Rightarrow> Some wait
           | None \<Rightarrow>
               if rs_status resp = 429 \<and> budget_spent (te_parse_float env) (rs_header resp)
               then None else Some (fallback_backoff attempt))"

definition next_wait :: "'w transport_env \<Rightarrow> int \<Rightarrow> response res \<Rightarrow> nat \<Rightarrow> int option" where
  "next_wait env now r attempt =
     (case r of
        Inl e \<Rightarrow> if retryable_error e then Some (fallback_backoff attempt) else None
      | Inr resp \<Rightarrow> retry_delay env now resp attempt)"

definition fits :: "req_ctx \<Rightarrow> int \<Rightarrow> int \<Rightarrow> bool" where
  "fits ctx now d = (case rc_deadline ctx of None \<Rightarrow> True | Some deadline \<Rightarrow> now + d < deadline)"

definition limiter_error :: "req_ctx \<Rightarrow> int \<Rightarrow> goerr \<Rightarrow> goerr" where
  "limiter_error ctx now err =
     (case rc_err ctx now of
        Some e \<Rightarrow> e
      | None \<Rightarrow>
          if rc_deadline ctx \<noteq> None then Wrap '''' [Sentinel DeadlineExceeded, err] else err)"

section \<open>Attempts and the retry loop\<close>

definition attempt ::
  "'w transport_env \<Rightarrow> transport \<Rightarrow> req_ctx \<Rightarrow> request \<Rightarrow> api_metrics \<times> 'w \<Rightarrow>
     response res \<times> api_metrics \<times> 'w" where
  "attempt env t ctx req s =
     (let (m, w) = s;
          (refused, w1) = (case tp_limiter t of None \<Rightarrow> (None, w) | Some _ \<Rightarrow> te_limit env ctx w)
      in case refused of
           Some e \<Rightarrow>
             (Inl (Wrap ''wait for the API rate limiter'' [limiter_error ctx (te_now env w1) e]), m, w1)
         | None \<Rightarrow>
             (let authed = req\<lparr>rq_header :=
                             (rq_header req)(''Authorization'' := ''Bearer '' @ tp_token t)\<rparr>;
                  name = collector_name ctx;
                  res = resource (rq_path req);
                  start = te_now env w1;
                  (r, w2) = te_base env authed w1;
                  m1 = m\<lparr>am_duration := am_duration m +
                           {#(name, res, te_seconds env (te_now env w2 - start))#}\<rparr>
              in case r of
                   Inl e \<Rightarrow> (Inl e, m1\<lparr>am_requests := am_requests m1 + {#(name, res, ''error'')#}\<rparr>, w2)
                 | Inr resp \<Rightarrow>
                     (Inr resp,
                      observe_rate_limit (te_parse_float env) (rs_header resp)
                        (m1\<lparr>am_requests := am_requests m1 +
                              {#(name, res, itoa (rs_status resp))#}\<rparr>), w2)))"

text \<open>
  \<open>sleep\<close>: the timer and the context race. The world says how long the select waited and whether
  it took the timer's branch, which it may also do when the context is done by then.
\<close>

definition sleep :: "'w transport_env \<Rightarrow> req_ctx \<Rightarrow> int \<Rightarrow> 'w \<Rightarrow> goerr option \<times> 'w" where
  "sleep env ctx d w =
     (if d \<le> 0 then (None, w)
      else let (fired, w') = te_sleep env d w
           in (if fired then None else rc_err ctx (te_now env w'), w'))"

function round_trip_from ::
  "'w transport_env \<Rightarrow> transport \<Rightarrow> req_ctx \<Rightarrow> request \<Rightarrow> int \<Rightarrow> nat \<Rightarrow> api_metrics \<times> 'w \<Rightarrow>
     response res \<times> (int \<times> int) list \<times> api_metrics \<times> 'w" where
  "round_trip_from env t ctx req attempts k s =
     (let (r, m, w) = attempt env t ctx req s
      in if attempts \<le> int k then (r, [], m, w)
         else let now = te_now env w
              in case next_wait env now r k of
                   None \<Rightarrow> (r, [], m, w)
                 | Some wait \<Rightarrow>
                     if \<not> fits ctx now wait then (r, [], m, w)
                     else (case sleep env ctx wait w of
                             (Some e, w') \<Rightarrow> (Inl e, [(now, wait)], m, w')
                           | (None, w') \<Rightarrow>
                               (let (r', waits, s') =
                                  round_trip_from env t ctx req attempts (Suc k) (m, w')
                                in (r', (now, wait) # waits, s'))))"
  by pat_completeness auto
termination
  by (relation "measure (\<lambda>(env, t, ctx, req, attempts, k, s). nat attempts - k)") auto

declare round_trip_from.simps [simp del]

definition round_trip ::
  "'w transport_env \<Rightarrow> transport \<Rightarrow> req_ctx \<Rightarrow> request \<Rightarrow> api_metrics \<times> 'w \<Rightarrow>
     response res \<times> (int \<times> int) list \<times> api_metrics \<times> 'w" where
  "round_trip env t ctx req s =
     (let attempts = (if rq_body req then 1 else tp_max_attempts t)
      in round_trip_from env t ctx req attempts 1 s)"

section \<open>New\<close>

record client_config =
  cl_token :: string
  cl_base_url :: string
  cl_user_agent :: string
  cl_timeout :: int
  cl_rate_limit :: float64
  cl_max_attempts :: int
  cl_metrics :: "api_metrics option"

record http_client =
  hc_timeout :: int
  hc_transport :: transport

definition new_client ::
  "(http_client \<Rightarrow> string \<Rightarrow> string option \<Rightarrow> 'client res) \<Rightarrow> client_config \<Rightarrow> 'client res" where
  "new_client godo_new cfg =
     (if cl_metrics cfg = None then Inl (Other ''api metrics are required'')
      else let attempts = (if cl_max_attempts cfg \<le> 0 then default_max_attempts
                           else cl_max_attempts cfg);
               limiter = (if flt_less (Fin 0) (cl_rate_limit cfg) then Some (cl_rate_limit cfg)
                          else None);
               client = \<lparr>hc_timeout = cl_timeout cfg,
                         hc_transport = \<lparr>tp_token = cl_token cfg, tp_limiter = limiter,
                                         tp_max_attempts = attempts\<rparr>\<rparr>
           in godo_new client (cl_user_agent cfg)
                (if cl_base_url cfg = '''' then None else Some (cl_base_url cfg)))"

section \<open>Lemmas\<close>

lemma collector_name_with [simp]:
  "name \<noteq> '''' \<Longrightarrow> collector_name (with_collector ctx name) = name"
  by (simp add: collector_name_def with_collector_def)

lemma collector_name_nonempty: "collector_name ctx \<noteq> ''''"
  by (simp add: collector_name_def no_collector_def split: option.splits)

lemma observe_rate_limit_counters [simp]:
  "am_requests (observe_rate_limit pf h m) = am_requests m"
  "am_duration (observe_rate_limit pf h m) = am_duration m"
  by (simp_all add: observe_rate_limit_def)

text \<open>The limiter's part of an attempt: refused or not, and the world after it.\<close>

definition limiter_wait :: "'w transport_env \<Rightarrow> transport \<Rightarrow> req_ctx \<Rightarrow> 'w \<Rightarrow> goerr option \<times> 'w" where
  "limiter_wait env t ctx w = (case tp_limiter t of None \<Rightarrow> (None, w) | Some _ \<Rightarrow> te_limit env ctx w)"

lemma attempt_refused:
  assumes "limiter_wait env t ctx w = (Some e, w1)"
  shows "attempt env t ctx req (m, w) =
    (Inl (Wrap ''wait for the API rate limiter'' [limiter_error ctx (te_now env w1) e]), m, w1)"
  using assms by (simp add: attempt_def limiter_wait_def)

definition authed :: "transport \<Rightarrow> request \<Rightarrow> request" where
  "authed t req =
     req\<lparr>rq_header := (rq_header req)(''Authorization'' := ''Bearer '' @ tp_token t)\<rparr>"

text \<open>
  An exchange is a request that reached the API: what was sent, what came back and how long it
  took. \<open>logged env\<close> is the environment \<open>env\<close> with the log of its exchanges kept beside the world.
  Only the call of the next round tripper writes to it.
\<close>

record exchange =
  ex_request :: request
  ex_answer :: "response res"
  ex_took :: int

definition logged :: "'w transport_env \<Rightarrow> (exchange list \<times> 'w) transport_env" where
  "logged env =
     \<lparr>te_base = (\<lambda>req (xs, w).
        let (r, w') = te_base env req w
        in (r, (xs @ [\<lparr>ex_request = req, ex_answer = r, ex_took = te_now env w' - te_now env w\<rparr>], w'))),
      te_limit = (\<lambda>ctx (xs, w). let (e, w') = te_limit env ctx w in (e, (xs, w'))),
      te_now = (\<lambda>(xs, w). te_now env w),
      te_sleep = (\<lambda>d (xs, w). let (fired, w') = te_sleep env d w in (fired, (xs, w'))),
      te_seconds = te_seconds env, te_parse_float = te_parse_float env,
      te_parse_time = te_parse_time env\<rparr>"

definition answer_code :: "response res \<Rightarrow> string" where
  "answer_code r = (case r of Inl e \<Rightarrow> ''error'' | Inr resp \<Rightarrow> itoa (rs_status resp))"

text \<open>
  What a log of exchanges adds to the counter and the histogram: of every exchange its outcome and
  its duration, once each, under the collector of the context and the resource of the path.
\<close>

definition accounted ::
  "'w transport_env \<Rightarrow> req_ctx \<Rightarrow> request \<Rightarrow> exchange list \<Rightarrow> api_metrics \<Rightarrow> api_metrics \<Rightarrow> bool" where
  "accounted env ctx req xs m m' \<longleftrightarrow>
     am_requests m' = am_requests m +
       mset (map (\<lambda>x. (collector_name ctx, resource (rq_path req), answer_code (ex_answer x))) xs) \<and>
     am_duration m' = am_duration m +
       mset (map (\<lambda>x. (collector_name ctx, resource (rq_path req), te_seconds env (ex_took x))) xs)"

lemma accounted_zero: "accounted env ctx req [] m m"
  by (simp add: accounted_def)

lemma accounted_trans:
  "accounted env ctx req xs m m1 \<Longrightarrow> accounted env ctx req ys m1 m2 \<Longrightarrow>
     accounted env ctx req (xs @ ys) m m2"
  by (simp add: accounted_def add.assoc)

lemma logged_sel [simp]:
  "te_now (logged env) (xs, w) = te_now env w"
  "te_seconds (logged env) = te_seconds env"
  "te_parse_float (logged env) = te_parse_float env"
  "te_parse_time (logged env) = te_parse_time env"
  "te_limit (logged env) ctx (xs, w) = (let (e, w') = te_limit env ctx w in (e, (xs, w')))"
  "te_base (logged env) req (xs, w) =
     (let (r, w') = te_base env req w
      in (r, (xs @ [\<lparr>ex_request = req, ex_answer = r, ex_took = te_now env w' - te_now env w\<rparr>], w')))"
  by (simp_all add: logged_def)

lemma sleep_logged:
  "sleep (logged env) ctx d (xs, w) = (let (e, w') = sleep env ctx d w in (e, (xs, w')))"
  by (simp add: sleep_def logged_def Let_def split: prod.split)

lemma next_wait_logged [simp]: "next_wait (logged env) now r k = next_wait env now r k"
  unfolding next_wait_def retry_delay_def logged_sel ..

text \<open>An attempt makes at most one exchange, accounts for it, and is not changed by the log.\<close>

lemma attempt_logged:
  assumes "attempt env t ctx req (m, w) = (r, m', w')"
  shows "\<exists>ys. attempt (logged env) t ctx req (m, (xs, w)) = (r, m', (xs @ ys, w')) \<and>
    length ys \<le> 1 \<and> list_all (\<lambda>x. ex_request x = authed t req) ys \<and> accounted env ctx req ys m m'"
proof (cases "limiter_wait env t ctx w")
  case (Pair refused w1)
  then have limit: "limiter_wait (logged env) t ctx (xs, w) = (refused, (xs, w1))"
    by (auto simp: limiter_wait_def split: option.splits)
  show ?thesis
  proof (cases refused)
    case None
    obtain r1 w2 where base: "te_base env (authed t req) w1 = (r1, w2)" by fastforce
    let ?y = "\<lparr>ex_request = authed t req, ex_answer = r1, ex_took = te_now env w2 - te_now env w1\<rparr>"
    have "attempt (logged env) t ctx req (m, (xs, w)) = (r, m', (xs @ [?y], w')) \<and>
        accounted env ctx req [?y] m m'"
      using assms base Pair limit None unfolding accounted_def
      by (auto simp: attempt_def limiter_wait_def authed_def answer_code_def Let_def split: sum.splits)
    then show ?thesis by (intro exI [of _ "[?y]"]) simp
  next
    case (Some e)
    with Pair limit assms show ?thesis
      by (intro exI [of _ "[]"]) (auto simp: attempt_refused accounted_zero)
  qed
qed

text \<open>One turn of the loop, with the answer of its attempt given.\<close>

lemma round_trip_step:
  assumes "attempt env t ctx req s = (r, m, w)"
  shows "round_trip_from env t ctx req attempts k s =
    (if attempts \<le> int k then (r, [], m, w)
     else case next_wait env (te_now env w) r k of
            None \<Rightarrow> (r, [], m, w)
          | Some wait \<Rightarrow>
              if \<not> fits ctx (te_now env w) wait then (r, [], m, w)
              else (case sleep env ctx wait w of
                      (Some e, w') \<Rightarrow> (Inl e, [(te_now env w, wait)], m, w')
                    | (None, w') \<Rightarrow>
                        (let (r', waits, s') =
                           round_trip_from env t ctx req attempts (Suc k) (m, w')
                         in (r', (te_now env w, wait) # waits, s'))))"
  by (subst round_trip_from.simps) (simp only: assms Let_def prod.case)

lemma shl64_one:
  "1 \<le> k \<Longrightarrow> k \<le> 34 \<Longrightarrow> shl64 base_backoff (k - 1) = second * 2 ^ (k - 1)"
proof -
  assume k: "1 \<le> k" "k \<le> 34"
  then have "(2 :: int) ^ (k - 1) \<le> 2 ^ 33" by (intro power_increasing) auto
  then show ?thesis
    by (simp add: shl64_def base_backoff_def second_def wrap64_small)
qed

lemma fallback_backoff_eq:
  "1 \<le> k \<Longrightarrow> k \<le> 34 \<Longrightarrow> fallback_backoff k = min (second * 2 ^ (k - 1)) (10 * second)"
  unfolding fallback_backoff_def max_backoff_def by (simp only: shl64_one)

lemma fallback_backoff_bounds:
  assumes "1 \<le> k" and "k \<le> 34"
  shows "second \<le> fallback_backoff k" and "fallback_backoff k \<le> 10 * second"
proof -
  have "(1 :: int) \<le> 2 ^ (k - 1)" by simp
  then show "second \<le> fallback_backoff k" and "fallback_backoff k \<le> 10 * second"
    using assms by (simp_all add: fallback_backoff_eq second_def)
qed

lemma next_wait_nonneg:
  "next_wait env now r k = Some d \<Longrightarrow> 1 \<le> k \<Longrightarrow> k \<le> 34 \<Longrightarrow> 0 \<le> d"
  using fallback_backoff_bounds [of k]
  by (auto simp: next_wait_def retry_delay_def retry_after_def second_def
      split: sum.splits if_splits option.splits)

text \<open>The loop, from the \<open>k\<close>-th attempt on: within the budget, and every exchange accounted for.\<close>

lemma round_trip_from_logged:
  assumes "round_trip_from env t ctx req attempts k (m, w) = (r, waits, m', w')" and "1 \<le> k"
  shows "\<exists>ys. round_trip_from (logged env) t ctx req attempts k (m, (xs, w)) =
      (r, waits, m', (xs @ ys, w')) \<and>
    int (length ys) \<le> max 1 (attempts - int k + 1) \<and>
    list_all (\<lambda>x. ex_request x = authed t req) ys \<and> accounted env ctx req ys m m'"
  using assms
proof (induction "nat attempts - k" arbitrary: k m w r waits xs rule: less_induct)
  case less
  obtain r1 m1 w1 where a: "attempt env t ctx req (m, w) = (r1, m1, w1)" by (metis prod_cases3)
  from attempt_logged [OF this, of xs] obtain ys where
    b: "attempt (logged env) t ctx req (m, (xs, w)) = (r1, m1, (xs @ ys, w1))" and
    ys: "length ys \<le> 1" "list_all (\<lambda>x. ex_request x = authed t req) ys" "accounted env ctx req ys m m1"
    by blast
  show ?case
  proof (cases "\<exists>d w2. \<not> attempts \<le> int k \<and> next_wait env (te_now env w1) r1 k = Some d \<and>
      fits ctx (te_now env w1) d \<and> sleep env ctx d w1 = (None, w2)")
    case False
    then have "round_trip_from (logged env) t ctx req attempts k (m, (xs, w)) =
        (r, waits, m', (xs @ ys, w')) \<and> m' = m1"
      using less.prems(1)
      by (auto simp: round_trip_step [OF a] round_trip_step [OF b] sleep_logged
          split: option.splits if_splits prod.splits)
    with ys show ?thesis by (intro exI [of _ ys]) auto
  next
    case True
    then obtain d w2 where go: "\<not> attempts \<le> int k" "next_wait env (te_now env w1) r1 k = Some d"
      "fits ctx (te_now env w1) d" "sleep env ctx d w1 = (None, w2)" by blast
    then obtain rest where
      next_: "round_trip_from env t ctx req attempts (Suc k) (m1, w2) = (r, rest, m', w')" and
      waits: "waits = (te_now env w1, d) # rest"
      using less.prems(1) by (auto simp: round_trip_step [OF a] split: prod.splits)
    have "nat attempts - Suc k < nat attempts - k" using go(1) by linarith
    from less.hyps [OF this next_, of "xs @ ys"] obtain zs where
      zs: "round_trip_from (logged env) t ctx req attempts (Suc k) (m1, (xs @ ys, w2)) =
        (r, rest, m', (xs @ ys @ zs, w'))" "int (length zs) \<le> max 1 (attempts - int (Suc k) + 1)"
      "list_all (\<lambda>x. ex_request x = authed t req) zs" "accounted env ctx req zs m1 m'" by auto
    have "round_trip_from (logged env) t ctx req attempts k (m, (xs, w)) =
        (r, waits, m', (xs @ (ys @ zs), w'))"
      using go zs(1) by (simp add: round_trip_step [OF b] sleep_logged waits)
    moreover have "int (length (ys @ zs)) \<le> max 1 (attempts - int k + 1)"
      using ys(1) zs(2) go(1) by auto
    ultimately show ?thesis
      using ys(2,3) zs(3,4) by (intro exI [of _ "ys @ zs"]) (auto intro: accounted_trans)
  qed
qed

definition wait_ok :: "req_ctx \<Rightarrow> int \<times> int \<Rightarrow> bool" where
  "wait_ok ctx wait =
     (0 \<le> snd wait \<and>
      (case rc_deadline ctx of None \<Rightarrow> True | Some d \<Rightarrow> fst wait + snd wait < d))"

lemma round_trip_from_waits:
  assumes "round_trip_from env t ctx req attempts k (m, w) = (r, waits, m', w')"
    and "1 \<le> k" and "attempts \<le> 35"
  shows "list_all (wait_ok ctx) waits \<and> int (length waits) \<le> max 0 (attempts - int k)"
  using assms(1,2)
proof (induction "nat attempts - k" arbitrary: k m w r waits rule: less_induct)
  case less
  obtain r1 m1 w1 where a: "attempt env t ctx req (m, w) = (r1, m1, w1)" by (metis prod_cases3)
  show ?case
  proof (cases "waits = []")
    case False
    with less.prems(1) obtain d w2 rest where
      d: "\<not> attempts \<le> int k" "next_wait env (te_now env w1) r1 k = Some d"
      "fits ctx (te_now env w1) d" "waits = (te_now env w1, d) # rest" and
      rest: "rest = [] \<or> round_trip_from env t ctx req attempts (Suc k) (m1, w2) = (r, rest, m', w')"
      by (auto simp: round_trip_step [OF a] split: option.splits if_splits prod.splits)
    have "wait_ok ctx (te_now env w1, d)"
      using d(3) next_wait_nonneg [OF d(2) less.prems(2)] d(1) assms(3)
      by (auto simp: wait_ok_def fits_def split: option.splits)
    moreover have "list_all (wait_ok ctx) rest \<and> int (length rest) \<le> max 0 (attempts - int (Suc k))"
      using rest less.hyps [of "Suc k"] d(1) by auto
    ultimately show ?thesis using d by auto
  qed simp
qed

lemma atoi_small: "0 \<le> n \<Longrightarrow> n < 2 ^ 63 \<Longrightarrow> atoi (itoa n) = Some n"
  by (rule atoi_itoa) (simp add: in_int64_def)

lemma itoa_nonempty [simp]: "itoa n \<noteq> ''''"
  by (simp add: itoa_def)

lemma retry_after_seconds:
  "0 \<le> n \<Longrightarrow> n < 2 ^ 63 \<Longrightarrow> retry_after pt now (itoa n) = Some (max (mul64 n second) 0)"
  by (simp add: retry_after_def atoi_small del: One_nat_def)

lemma mul64_second: "0 \<le> n \<Longrightarrow> n \<le> 9223372036 \<Longrightarrow> mul64 n second = n * second"
  by (simp add: mul64_def second_def wrap64_small)

lemma mul64_second_wraps:
  "9223372037 \<le> n \<Longrightarrow> n \<le> 18446744073 \<Longrightarrow> mul64 n second < 0"
proof -
  assume n: "9223372037 \<le> n" "n \<le> 18446744073"
  have "(n * 1000000000 + 2 ^ 63) mod 2 ^ 64 = ((n * 1000000000 - 2 ^ 63) + 2 ^ 64) mod (2 ^ 64 :: int)"
    by (simp add: add.commute)
  also have "\<dots> = n * 1000000000 - 2 ^ 63"
    unfolding mod_add_self2 using n by (intro mod_pos_pos_trivial) simp_all
  finally show ?thesis using n by (simp add: mul64_def second_def wrap64_def)
qed

section \<open>Properties\<close>

text \<open>A world for the witnesses: the clock, and the answers still to come.\<close>

definition demo_api :: "(int \<times> response res list) transport_env" where
  "demo_api =
     \<lparr>te_base = (\<lambda>req (now, rs). (hd rs, (now + second, tl rs))),
      te_limit = (\<lambda>ctx w. (Some (Other ''would exceed context deadline''), w)),
      te_now = fst, te_sleep = (\<lambda>d (now, rs). (True, (now + d, rs))), te_seconds = (\<lambda>d. Fin 1),
      te_parse_float = (\<lambda>s. if s = ''0'' then Some (Fin 0) else None),
      te_parse_time = (\<lambda>s. None)\<rparr>"

definition demo_transport :: transport where
  "demo_transport = \<lparr>tp_token = ''t'', tp_limiter = None, tp_max_attempts = 3\<rparr>"

definition demo_ctx :: req_ctx where
  "demo_ctx = \<lparr>rc_collector = Some ''droplets'', rc_deadline = Some (30 * second), rc_cancel = None\<rparr>"

definition demo_request :: request where
  "demo_request = \<lparr>rq_path = ''/v2/droplets'', rq_header = (\<lambda>_. ''''), rq_body = False\<rparr>"

definition answer :: "int \<Rightarrow> (string \<times> string) list \<Rightarrow> response" where
  "answer status hs =
     \<lparr>rs_status = status,
      rs_header = (\<lambda>n. case map_of hs n of None \<Rightarrow> '''' | Some v \<Rightarrow> v)\<rparr>"

text \<open>
  C19. The retry loop returns, spends at most its budget, and accounts for what it spent. Run the
  same exchange in the environment that logs every request handed to the next round tripper, with
  its answer and its duration. The log changes nothing; it holds no more requests than the
  configured number of attempts, only one if the request has a body, each the request of the
  caller with the token of the transport; and the counter and the histogram have grown by exactly
  one entry per logged request, with its status or \<open>error\<close> and with the time it took, under the
  collector of the context and the resource of the path, so that no identifier reaches a label.
\<close>

theorem round_trip_budget:
  assumes "round_trip env t ctx req (m, w) = (r, waits, m', w')"
  shows "\<exists>log. round_trip (logged env) t ctx req (m, ([], w)) = (r, waits, m', (log, w')) \<and>
    int (length log) \<le> max 1 (if rq_body req then 1 else tp_max_attempts t) \<and>
    list_all (\<lambda>x. ex_request x = authed t req) log \<and>
    am_requests m' = am_requests m +
      mset (map (\<lambda>x. (collector_name ctx, resource (rq_path req), answer_code (ex_answer x))) log) \<and>
    am_duration m' = am_duration m +
      mset (map (\<lambda>x. (collector_name ctx, resource (rq_path req), te_seconds env (ex_took x))) log)"
  using round_trip_from_logged [OF assms [unfolded round_trip_def Let_def], of "[]"]
  by (simp add: round_trip_def Let_def accounted_def)

lemma round_trip_budget_witness:
  "\<exists>log. length log \<le> 3 \<and>
     fst (snd (snd (snd (round_trip (logged demo_api) demo_transport demo_ctx demo_request
       (new_metrics, ([], (0, [Inl (Other ''reset''), Inr (answer 503 []), Inr (answer 200 [])]))))))) = log \<and>
     size (am_requests (fst (snd (snd (round_trip demo_api demo_transport demo_ctx demo_request
       (new_metrics, (0, [Inl (Other ''reset''), Inr (answer 503 []), Inr (answer 200 [])]))))))) = length log"
proof -
  obtain r waits m' w' where rt: "round_trip demo_api demo_transport demo_ctx demo_request
      (new_metrics, (0, [Inl (Other ''reset''), Inr (answer 503 []), Inr (answer 200 [])])) =
      (r, waits, m', w')" by (metis prod_cases4)
  from round_trip_budget [OF this] rt show ?thesis
    by (auto simp: demo_request_def demo_transport_def new_metrics_def)
qed

text \<open>
  C3. No wait outlives the deadline: every wait between two attempts is not negative and ends
  strictly before the deadline of the context, if it has one, and there are fewer waits than
  attempts. The bound on the attempts is the one up to which the doubling does not wrap around.
\<close>

theorem round_trip_waits:
  assumes "round_trip env t ctx req (m, w) = (r, waits, m', w')" and "tp_max_attempts t \<le> 35"
  shows "list_all (wait_ok ctx) waits \<and> int (length waits) \<le> max 0 (tp_max_attempts t - 1)"
proof -
  have b: "(if rq_body req then 1 else tp_max_attempts t) \<le> 35" using assms(2) by simp
  from round_trip_from_waits [OF assms(1) [unfolded round_trip_def Let_def] _ b]
  show ?thesis by (auto split: if_splits)
qed

lemma round_trip_waits_witness:
  "list_all (wait_ok demo_ctx)
     (fst (snd (round_trip demo_api demo_transport demo_ctx demo_request
       (new_metrics, (0, [Inl (Other ''reset''), Inr (answer 503 []), Inr (answer 200 [])])))))"
proof -
  obtain r waits m' w' where "round_trip demo_api demo_transport demo_ctx demo_request
      (new_metrics, (0, [Inl (Other ''reset''), Inr (answer 503 []), Inr (answer 200 [])])) =
      (r, waits, m', w')" by (metis prod_cases4)
  from round_trip_waits [OF this] this show ?thesis
    by (simp add: demo_transport_def)
qed

text \<open>
  C17. A Retry-After in seconds is honoured in full or not at all: when the first answer may be
  tried again and names a number of seconds, then either that answer is handed back after one
  attempt, or the loop waits exactly as long before the second, and it waits whenever attempts
  are left and the wait ends before the deadline.
\<close>

theorem round_trip_retry_after:
  assumes "attempt env t ctx req (m, w) = (Inr resp, m1, w1)"
    and "retryable (rs_status resp)" and "rs_header resp ''Retry-After'' = itoa n"
    and "0 \<le> n" and "n \<le> 9223372036"
    and "round_trip env t ctx req (m, w) = (r, waits, m', w')"
  shows "if rq_body req \<or> tp_max_attempts t \<le> 1 \<or> \<not> fits ctx (te_now env w1) (n * second)
         then r = Inr resp \<and> waits = [] \<and> m' = m1
         else \<exists>rest. waits = (te_now env w1, n * second) # rest"
proof -
  have wait: "next_wait env (te_now env w1) (Inr resp) 1 = Some (n * second)"
    using assms(2-5)
    using mul64_second [of n]
    by (simp add: next_wait_def retry_delay_def retry_after_seconds max_def second_def)
  show ?thesis
    using assms(6) unfolding round_trip_def Let_def round_trip_step [OF assms(1)] wait
    by (auto split: if_splits option.splits prod.splits)
qed

lemma round_trip_retry_after_witness:
  "\<exists>r rest m' w'.
     round_trip demo_api demo_transport demo_ctx demo_request
       (new_metrics, (0, [Inr (answer 429 [(''Retry-After'', ''5'')]), Inr (answer 200 [])]))
     = (r, (second, 5 * second) # rest, m', w')"
proof -
  let ?s = "(new_metrics, (0, [Inr (answer 429 [(''Retry-After'', ''5'')]), Inr (answer 200 [])]))"
  obtain r waits m' w' where rt: "round_trip demo_api demo_transport demo_ctx demo_request ?s =
      (r, waits, m', w')" by (metis prod_cases4)
  obtain m1 where a: "attempt demo_api demo_transport demo_ctx demo_request ?s =
      (Inr (answer 429 [(''Retry-After'', ''5'')]), m1, (second, [Inr (answer 200 [])]))"
    by (simp add: attempt_def demo_transport_def demo_api_def Let_def)
  have five: "itoa 5 = ''5''" by code_simp
  from round_trip_retry_after [OF a _ _ _ _ rt, of 5] rt show ?thesis
    by (auto simp: answer_def retryable_def five demo_request_def demo_transport_def demo_ctx_def
        demo_api_def fits_def second_def)
qed

text \<open>
  The hourly budget is not spent on retries: an answer that is not worth another attempt,
  and a 429 that names no wait while the budget is reported as spent, is handed back after a
  single attempt.
\<close>

lemma round_trip_gives_up:
  assumes "attempt env t ctx req (m, w) = (Inr resp, m1, w1)"
    and "\<not> retryable (rs_status resp) \<or>
      (rs_status resp = 429 \<and> rs_header resp ''Retry-After'' = '''' \<and>
       budget_spent (te_parse_float env) (rs_header resp))"
  shows "round_trip env t ctx req (m, w) = (Inr resp, [], m1, w1)"
proof -
  have "next_wait env (te_now env w1) (Inr resp) 1 = None"
    using assms(2) by (auto simp: next_wait_def retry_delay_def retry_after_def)
  then show ?thesis by (simp add: round_trip_def Let_def round_trip_step [OF assms(1)])
qed

lemma round_trip_gives_up_witness:
  "fst (round_trip demo_api demo_transport demo_ctx demo_request
     (new_metrics, (0, [Inr (answer 429 [(''RateLimit-Remaining'', ''0'')])]))) =
   Inr (answer 429 [(''RateLimit-Remaining'', ''0'')])"
proof -
  let ?s = "(new_metrics, (0, [Inr (answer 429 [(''RateLimit-Remaining'', ''0'')])]))"
  obtain m1 where a: "attempt demo_api demo_transport demo_ctx demo_request ?s =
      (Inr (answer 429 [(''RateLimit-Remaining'', ''0'')]), m1, (second, []))"
    by (simp add: attempt_def demo_transport_def demo_api_def Let_def)
  show ?thesis
    using round_trip_gives_up [OF a] by (simp add: answer_def budget_spent_def demo_api_def)
qed

text \<open>
  A Retry-After beyond the range of a duration is not honoured: its product with a second
  wraps around to a negative wait, which is taken for "now", so the loop tries again at once.
\<close>

lemma retry_after_overflow:
  assumes "9223372037 \<le> n" and "n \<le> 18446744073"
  shows "retry_after parse_time now (itoa n) = Some 0"
  using assms mul64_second_wraps [of n] by (simp add: retry_after_seconds)

lemma retry_after_overflow_witness: "retry_after (\<lambda>_. None) 0 (itoa 10000000000) = Some 0"
  using retry_after_overflow [of 10000000000 "\<lambda>_. None" 0] by simp

text \<open>
  The resource label is one path segment: it is never empty, holds no slash, and is the
  segment that follows the version prefix.
\<close>

lemma resource_label:
  assumes "CHR ''/'' \<notin> set seg" and "seg \<noteq> ''''"
  shows "resource (''/v2/'' @ seg) = seg \<and> resource (''/v2/'' @ seg @ ''/'' @ rest) = seg \<and>
    resource path \<noteq> '''' \<and> CHR ''/'' \<notin> set (resource path)"
proof -
  have cut: "before_byte (CHR ''/'') (seg @ CHR ''/'' # rest) = seg" "before_byte (CHR ''/'') seg = seg"
    using assms(1) by (induction seg) (auto simp: before_byte_def)
  have "CHR ''/'' \<notin> set (before_byte (CHR ''/'') s)" for s
    by (auto simp: before_byte_def dest: set_takeWhileD)
  then show ?thesis
    using assms(2) cut by (simp add: resource_def Let_def trim_prefix_def has_prefix_def)
qed

lemma resource_label_witness: "resource ''/v2/customers/my/balance'' = ''customers''"
  using resource_label [of "''customers''" "''my/balance''"] by simp

end
