(* ===== verification/Config.thy ===== *)
theory Config
  imports Go_Strings Go_Float
begin

text \<open>
  internal/config/config.go: the flags with their environment variables and defaults, their
  validation, the secrets and the bucket and list syntax.

  kingpin is a parameter: given the declared flags and the arguments it fails, terminates (usage
  or version were printed) or yields a value for every flag. Reading a file is a parameter too.
  Help texts are not modelled, and error messages carry their text without the quoting of
  \<open>%q\<close> and without the rate limit's digits.
\<close>

section \<open>Configuration records\<close>

record collector_config =
  cg_enabled :: bool
  cg_interval :: int
  cg_timeout :: int

record spaces_bucket =
  sb_name :: string
  sb_region :: string

record spaces_config =
  sp_access_key :: string
  sp_secret_key :: string
  sp_region :: string
  sp_buckets :: "spaces_bucket list"
  sp_concurrency :: int

record config =
  cf_listen_address :: string
  cf_web_config_file :: string
  cf_token :: string
  cf_api_base_url :: string
  cf_timeout :: int
  cf_rate_limit :: float64
  cf_log_level :: string
  cf_log_format :: string
  cf_filter_tags :: "string list"
  cf_filter_regions :: "string list"
  cf_collectors :: "string \<rightharpoonup> collector_config"
  cf_spaces :: spaces_config
  cf_droplet_metrics_concurrency :: int
  cf_droplet_metrics_agent_only :: bool
  cf_load_balancer_metrics_concurrency :: int
  cf_load_balancer_metrics_extended :: bool
  cf_kubernetes_upgrades :: bool
  cf_database_details :: bool

record collector_flags =
  fb_enabled :: bool
  fb_interval :: int

record flags =
  f_listen :: string
  f_web_config :: string
  f_token :: string
  f_token_file :: string
  f_api_base_url :: string
  f_timeout :: int
  f_rate_limit :: float64
  f_log_level :: string
  f_log_format :: string
  f_filter_tags :: "string list"
  f_filter_regions :: "string list"
  f_simple :: "(string \<times> collector_flags) list"
  f_databases :: bool
  f_db_interval :: int
  f_db_timeout :: int
  f_db_details :: bool
  f_projects :: bool
  f_proj_interval :: int
  f_proj_timeout :: int
  f_droplet_metrics :: bool
  f_dm_interval :: int
  f_dm_timeout :: int
  f_dm_concurrency :: int
  f_dm_agent_only :: bool
  f_lb_metrics :: bool
  f_lbm_interval :: int
  f_lbm_timeout :: int
  f_lbm_concurrency :: int
  f_lbm_extended :: bool
  f_spaces :: bool
  f_spaces_interval :: int
  f_spaces_timeout :: int
  f_spaces_buckets :: "string list"
  f_spaces_concurrent :: int
  f_spaces_key :: string
  f_spaces_key_file :: string
  f_spaces_secret :: string
  f_spaces_secret_file :: string
  f_spaces_region :: string
  f_k8s_upgrades :: bool
  f_uptime :: bool
  f_uptime_interval :: int
  f_uptime_timeout :: int

section \<open>Durations as text\<close>

text \<open>
  \<open>time.Duration.String\<close>: below a second the largest unit that fits, above it hours, minutes
  and seconds, with a fraction that has no trailing zeros. The micro sign is its two bytes.
\<close>

fun fixed_digits :: "nat \<Rightarrow> nat \<Rightarrow> string" where
  "fixed_digits 0 v = ''''"
| "fixed_digits (Suc p) v = fixed_digits p (v div 10) @ [digit_char (v mod 10)]"

definition fraction :: "nat \<Rightarrow> nat \<Rightarrow> string" where
  "fraction prec v =
     (let ds = rev (dropWhile (\<lambda>c. c = CHR ''0'') (rev (fixed_digits prec v)))
      in if ds = '''' then '''' else CHR ''.'' # ds)"

definition abs_duration_string :: "nat \<Rightarrow> string" where
  "abs_duration_string u =
     (if u = 0 then ''0s''
      else if u < 1000 then decimal u @ ''ns''
      else if u < 1000000 then
        decimal (u div 1000) @ fraction 3 u @ [CHR 0xC2, CHR 0xB5, CHR ''s'']
      else if u < 1000000000 then decimal (u div 1000000) @ fraction 6 u @ ''ms''
      else let s = u div 1000000000; m = s div 60; h = m div 60
           in (if h > 0 then decimal h @ ''h'' else '''') @
              (if m > 0 then decimal (m mod 60) @ ''m'' else '''') @
              decimal (s mod 60) @ fraction 9 u @ ''s'')"

definition duration_string :: "int \<Rightarrow> string" where
  "duration_string d =
     (if d < 0 then CHR ''-'' # abs_duration_string (nat (- d)) else abs_duration_string (nat d))"

section \<open>The flags\<close>

datatype flag_kind =
  StringFlag | DurationFlag | FloatFlag | BoolFlag | IntFlag | EnumFlag "string list" | StringsFlag

record flag_decl =
  fl_name :: string
  fl_envar :: string
  fl_default :: "string option"
  fl_kind :: flag_kind
  fl_hidden :: bool

definition decl :: "string \<Rightarrow> string \<Rightarrow> string option \<Rightarrow> flag_kind \<Rightarrow> bool \<Rightarrow> flag_decl" where
  "decl name envar def kind hidden =
     \<lparr>fl_name = name, fl_envar = envar, fl_default = def, fl_kind = kind, fl_hidden = hidden\<rparr>"

record simple_collector =
  sm_name :: string
  sm_enabled :: bool
  sm_interval :: int

definition default_flag_interval :: int where "default_flag_interval = 5 * minute"

definition simple_collectors :: "simple_collector list" where
  "simple_collectors =
     [\<lparr>sm_name = ''account'', sm_enabled = True, sm_interval = default_flag_interval\<rparr>,
      \<lparr>sm_name = ''balance'', sm_enabled = True, sm_interval = default_flag_interval\<rparr>,
      \<lparr>sm_name = ''registry'', sm_enabled = True, sm_interval = default_flag_interval\<rparr>,
      \<lparr>sm_name = ''reservedips'', sm_enabled = True, sm_interval = default_flag_interval\<rparr>,
      \<lparr>sm_name = ''limits'', sm_enabled = True, sm_interval = default_flag_interval\<rparr>,
      \<lparr>sm_name = ''droplets'', sm_enabled = True, sm_interval = default_flag_interval\<rparr>,
      \<lparr>sm_name = ''dropletautoscale'', sm_enabled = True, sm_interval = 2 * minute\<rparr>,
      \<lparr>sm_name = ''kubernetes'', sm_enabled = True, sm_interval = default_flag_interval\<rparr>,
      \<lparr>sm_name = ''volumes'', sm_enabled = True, sm_interval = default_flag_interval\<rparr>,
      \<lparr>sm_name = ''images'', sm_enabled = True, sm_interval = 10 * minute\<rparr>,
      \<lparr>sm_name = ''loadbalancers'', sm_enabled = True, sm_interval = default_flag_interval\<rparr>,
      \<lparr>sm_name = ''cdn'', sm_enabled = True, sm_interval = default_flag_interval\<rparr>,
      \<lparr>sm_name = ''apps'', sm_enabled = True, sm_interval = default_flag_interval\<rparr>,
      \<lparr>sm_name = ''domains'', sm_enabled = True, sm_interval = default_flag_interval\<rparr>,
      \<lparr>sm_name = ''tags'', sm_enabled = True, sm_interval = 10 * minute\<rparr>,
      \<lparr>sm_name = ''firewalls'', sm_enabled = False, sm_interval = default_flag_interval\<rparr>,
      \<lparr>sm_name = ''certificates'', sm_enabled = False, sm_interval = default_flag_interval\<rparr>]"

definition bind_general :: "flag_decl list" where
  "bind_general =
     [decl ''web.listen-address'' ''WEB_LISTEN_ADDRESS'' (Some '':9212'') StringFlag False,
      decl ''web.config.file'' ''WEB_CONFIG_FILE'' (Some '''') StringFlag False,
      decl ''do.token'' ''DIGITALOCEAN_TOKEN'' (Some '''') StringFlag False,
      decl ''do.token-file'' ''DIGITALOCEAN_TOKEN_FILE'' (Some '''') StringFlag False,
      decl ''do.api-base-url'' ''DO_API_BASE_URL'' (Some '''') StringFlag True,
      decl ''do.timeout'' ''DO_TIMEOUT'' (Some ''30s'') DurationFlag False,
      decl ''do.rate-limit'' ''DO_RATE_LIMIT'' (Some ''4'') FloatFlag False,
      decl ''log.level'' ''LOG_LEVEL'' (Some ''info'') (EnumFlag [''debug'', ''info'', ''warn'', ''error'']) False,
      decl ''log.format'' ''LOG_FORMAT'' (Some ''logfmt'') (EnumFlag [''logfmt'', ''json'']) False,
      decl ''filter.tag'' ''FILTER_TAG'' None StringsFlag False,
      decl ''filter.region'' ''FILTER_REGION'' None StringsFlag False]"

definition bind_databases :: "flag_decl list" where
  "bind_databases =
     [decl ''collector.databases'' ''COLLECTOR_DATABASES'' (Some ''true'') BoolFlag False,
      decl ''collector.databases.interval'' ''COLLECTOR_DATABASES_INTERVAL'' (Some ''5m'') DurationFlag False,
      decl ''collector.databases.timeout'' ''COLLECTOR_DATABASES_TIMEOUT'' (Some ''2m'') DurationFlag False,
      decl ''collector.databases.details'' ''COLLECTOR_DATABASES_DETAILS'' (Some ''true'') BoolFlag False]"

definition bind_projects :: "flag_decl list" where
  "bind_projects =
     [decl ''collector.projects'' ''COLLECTOR_PROJECTS'' (Some ''true'') BoolFlag False,
      decl ''collector.projects.interval'' ''COLLECTOR_PROJECTS_INTERVAL'' (Some ''10m'') DurationFlag False,
      decl ''collector.projects.timeout'' ''COLLECTOR_PROJECTS_TIMEOUT'' (Some ''2m'') DurationFlag False]"

definition bind_monitoring :: "flag_decl list" where
  "bind_monitoring =
     [decl ''collector.dropletmetrics'' ''COLLECTOR_DROPLETMETRICS'' (Some ''false'') BoolFlag False,
      decl ''collector.dropletmetrics.interval'' ''COLLECTOR_DROPLETMETRICS_INTERVAL'' (Some ''5m'') DurationFlag False,
      decl ''collector.dropletmetrics.timeout'' ''COLLECTOR_DROPLETMETRICS_TIMEOUT'' (Some ''2m'') DurationFlag False,
      decl ''collector.dropletmetrics.concurrency'' ''COLLECTOR_DROPLETMETRICS_CONCURRENCY'' (Some ''4'') IntFlag False,
      decl ''collector.dropletmetrics.agent-only'' ''COLLECTOR_DROPLETMETRICS_AGENT_ONLY'' (Some ''false'') BoolFlag False,
      decl ''collector.loadbalancermetrics'' ''COLLECTOR_LOADBALANCERMETRICS'' (Some ''false'') BoolFlag False,
      decl ''collector.loadbalancermetrics.interval'' ''COLLECTOR_LOADBALANCERMETRICS_INTERVAL'' (Some ''5m'') DurationFlag False,
      decl ''collector.loadbalancermetrics.timeout'' ''COLLECTOR_LOADBALANCERMETRICS_TIMEOUT'' (Some ''2m'') DurationFlag False,
      decl ''collector.loadbalancermetrics.concurrency'' ''COLLECTOR_LOADBALANCERMETRICS_CONCURRENCY'' (Some ''4'') IntFlag False,
      decl ''collector.loadbalancermetrics.extended'' ''COLLECTOR_LOADBALANCERMETRICS_EXTENDED'' (Some ''false'') BoolFlag False]"

definition bind_spaces :: "flag_decl list" where
  "bind_spaces =
     [decl ''collector.spaces'' ''COLLECTOR_SPACES'' (Some ''false'') BoolFlag False,
      decl ''collector.spaces.interval'' ''COLLECTOR_SPACES_INTERVAL'' (Some ''5m'') DurationFlag False,
      decl ''collector.spaces.timeout'' ''COLLECTOR_SPACES_TIMEOUT'' (Some ''2m'') DurationFlag False,
      decl ''collector.spaces.bucket'' ''COLLECTOR_SPACES_BUCKET'' None StringsFlag False,
      decl ''collector.spaces.concurrency'' ''COLLECTOR_SPACES_CONCURRENCY'' (Some ''4'') IntFlag False,
      decl ''spaces.access-key'' ''DIGITALOCEAN_SPACES_KEY'' (Some '''') StringFlag False,
      decl ''spaces.access-key-file'' ''DIGITALOCEAN_SPACES_KEY_FILE'' (Some '''') StringFlag False,
      decl ''spaces.secret-key'' ''DIGITALOCEAN_SPACES_SECRET'' (Some '''') StringFlag False,
      decl ''spaces.secret-key-file'' ''DIGITALOCEAN_SPACES_SECRET_FILE'' (Some '''') StringFlag False,
      decl ''spaces.region'' ''SPACES_REGION'' (Some '''') StringFlag False]"

definition bind_uptime :: "flag_decl list" where
  "bind_uptime =
     [decl ''collector.uptime'' ''COLLECTOR_UPTIME'' (Some ''false'') BoolFlag False,
      decl ''collector.uptime.interval'' ''COLLECTOR_UPTIME_INTERVAL'' (Some ''2m'') DurationFlag False,
      decl ''collector.uptime.timeout'' ''COLLECTOR_UPTIME_TIMEOUT'' (Some ''1m'') DurationFlag False]"

definition bind_simple :: "flag_decl list" where
  "bind_simple =
     concat (map (\<lambda>c.
       let envar = ''COLLECTOR_'' @ to_upper (sm_name c)
       in [decl (''collector.'' @ sm_name c) envar (Some (format_bool (sm_enabled c))) BoolFlag False,
           decl (''collector.'' @ sm_name c @ ''.interval'') (envar @ ''_INTERVAL'')
             (Some (duration_string (sm_interval c))) DurationFlag False]) simple_collectors)"

definition bind_upgrades :: flag_decl where
  "bind_upgrades =
     decl ''collector.kubernetes.upgrades'' ''COLLECTOR_KUBERNETES_UPGRADES'' (Some ''true'')
       BoolFlag False"

definition flag_table :: "flag_decl list" where
  "flag_table =
     bind_general @ bind_simple @ [bind_upgrades] @ bind_databases @ bind_projects @
     bind_monitoring @ bind_spaces @ bind_uptime"

text \<open>The values kingpin stores behind the pointers that \<open>bind\<close> keeps.\<close>

datatype flag_value =
  StringVal string | DurationVal int | FloatVal float64 | BoolVal bool | IntVal int
| StringsVal "string list"

fun as_string :: "flag_value \<Rightarrow> string" where
  "as_string (StringVal s) = s" | "as_string _ = ''''"

fun as_duration :: "flag_value \<Rightarrow> int" where
  "as_duration (DurationVal d) = d" | "as_duration _ = 0"

fun as_float :: "flag_value \<Rightarrow> float64" where
  "as_float (FloatVal x) = x" | "as_float _ = Fin 0"

fun as_bool :: "flag_value \<Rightarrow> bool" where
  "as_bool (BoolVal b) = b" | "as_bool _ = False"

fun as_int :: "flag_value \<Rightarrow> int" where
  "as_int (IntVal n) = n" | "as_int _ = 0"

fun as_strings :: "flag_value \<Rightarrow> string list" where
  "as_strings (StringsVal xs) = xs" | "as_strings _ = []"

definition simple_flags :: "(string \<Rightarrow> flag_value) \<Rightarrow> (string \<times> collector_flags) list" where
  "simple_flags v =
     map (\<lambda>c. (sm_name c,
                \<lparr>fb_enabled = as_bool (v (''collector.'' @ sm_name c)),
                 fb_interval = as_duration (v (''collector.'' @ sm_name c @ ''.interval''))\<rparr>))
       simple_collectors"

definition bind :: "(string \<Rightarrow> flag_value) \<Rightarrow> flags" where
  "bind v =
     \<lparr>f_listen = as_string (v ''web.listen-address''),
      f_web_config = as_string (v ''web.config.file''),
      f_token = as_string (v ''do.token''),
      f_token_file = as_string (v ''do.token-file''),
      f_api_base_url = as_string (v ''do.api-base-url''),
      f_timeout = as_duration (v ''do.timeout''),
      f_rate_limit = as_float (v ''do.rate-limit''),
      f_log_level = as_string (v ''log.level''),
      f_log_format = as_string (v ''log.format''),
      f_filter_tags = as_strings (v ''filter.tag''),
      f_filter_regions = as_strings (v ''filter.region''),
      f_simple = simple_flags v,
      f_databases = as_bool (v ''collector.databases''),
      f_db_interval = as_duration (v ''collector.databases.interval''),
      f_db_timeout = as_duration (v ''collector.databases.timeout''),
      f_db_details = as_bool (v ''collector.databases.details''),
      f_projects = as_bool (v ''collector.projects''),
      f_proj_interval = as_duration (v ''collector.projects.interval''),
      f_proj_timeout = as_duration (v ''collector.projects.timeout''),
      f_droplet_metrics = as_bool (v ''collector.dropletmetrics''),
      f_dm_interval = as_duration (v ''collector.dropletmetrics.interval''),
      f_dm_timeout = as_duration (v ''collector.dropletmetrics.timeout''),
      f_dm_concurrency = as_int (v ''collector.dropletmetrics.concurrency''),
      f_dm_agent_only = as_bool (v ''collector.dropletmetrics.agent-only''),
      f_lb_metrics = as_bool (v ''collector.loadbalancermetrics''),
      f_lbm_interval = as_duration (v ''collector.loadbalancermetrics.interval''),
      f_lbm_timeout = as_duration (v ''collector.loadbalancermetrics.timeout''),
      f_lbm_concurrency = as_int (v ''collector.loadbalancermetrics.concurrency''),
      f_lbm_extended = as_bool (v ''collector.loadbalancermetrics.extended''),
      f_spaces = as_bool (v ''collector.spaces''),
      f_spaces_interval = as_duration (v ''collector.spaces.interval''),
      f_spaces_timeout = as_duration (v ''collector.spaces.timeout''),
      f_spaces_buckets = as_strings (v ''collector.spaces.bucket''),
      f_spaces_concurrent = as_int (v ''collector.spaces.concurrency''),
      f_spaces_key = as_string (v ''spaces.access-key''),
      f_spaces_key_file = as_string (v ''spaces.access-key-file''),
      f_spaces_secret = as_string (v ''spaces.secret-key''),
      f_spaces_secret_file = as_string (v ''spaces.secret-key-file''),
      f_spaces_region = as_string (v ''spaces.region''),
      f_k8s_upgrades = as_bool (v ''collector.kubernetes.upgrades''),
      f_uptime = as_bool (v ''collector.uptime''),
      f_uptime_interval = as_duration (v ''collector.uptime.interval''),
      f_uptime_timeout = as_duration (v ''collector.uptime.timeout'')\<rparr>"

section \<open>Validation\<close>

definition require_positive :: "string \<Rightarrow> int \<Rightarrow> sentinel \<Rightarrow> goerr option" where
  "require_positive flag d err =
     (if 0 < d then None
      else Some (Wrap (''--'' @ flag @ '' is '' @ duration_string d) [Sentinel err]))"

text \<open>The first error of a list of checks, in order.\<close>

fun first_error :: "goerr option list \<Rightarrow> goerr option" where
  "first_error [] = None"
| "first_error (Some e # rest) = Some e"
| "first_error (None # rest) = first_error rest"

definition timed_collectors :: "flags \<Rightarrow> (string \<times> int \<times> int) list" where
  "timed_collectors f =
     [(''databases'', f_db_interval f, f_db_timeout f),
      (''projects'', f_proj_interval f, f_proj_timeout f),
      (''dropletmetrics'', f_dm_interval f, f_dm_timeout f),
      (''loadbalancermetrics'', f_lbm_interval f, f_lbm_timeout f),
      (''spaces'', f_spaces_interval f, f_spaces_timeout f),
      (''uptime'', f_uptime_interval f, f_uptime_timeout f)]"

definition simple_interval :: "(string \<times> collector_flags) list \<Rightarrow> string \<Rightarrow> int" where
  "simple_interval simple name =
     (case map_of simple name of Some bound \<Rightarrow> fb_interval bound | None \<Rightarrow> 0)"

definition validate_durations :: "flags \<Rightarrow> goerr option" where
  "validate_durations f =
     first_error
       ([require_positive ''do.timeout'' (f_timeout f) ErrNonPositiveTimeout] @
        map (\<lambda>name. require_positive (''collector.'' @ name @ ''.interval'')
                       (simple_interval (f_simple f) name) ErrNonPositiveInterval)
          (sort_strings (map fst (f_simple f))) @
        concat (map (\<lambda>(name, interval, timeout).
            [require_positive (''collector.'' @ name @ ''.interval'') interval ErrNonPositiveInterval,
             require_positive (''collector.'' @ name @ ''.timeout'') timeout ErrNonPositiveTimeout])
          (timed_collectors f)))"

definition resolve_secret ::
  "(string \<Rightarrow> string res) \<Rightarrow> string \<Rightarrow> string \<Rightarrow> sentinel \<Rightarrow> sentinel \<Rightarrow> string res" where
  "resolve_secret read_file inline file conflict missing =
     (if inline \<noteq> '''' \<and> file \<noteq> '''' then Inl (Sentinel conflict)
      else if inline \<noteq> '''' then Inr inline
      else if file \<noteq> '''' then
        (case read_file file of
           Inl e \<Rightarrow> Inl (Wrap (''read '' @ file) [e])
         | Inr raw \<Rightarrow>
             (let trimmed = trim_space raw
              in if trimmed = '''' then Inl (Wrap (''file '' @ file @ '' is empty'') [Sentinel missing])
                 else Inr trimmed))
      else Inl (Sentinel missing))"

definition split_list_values :: "string list \<Rightarrow> string list" where
  "split_list_values raw =
     concat (map (\<lambda>entry. filter (\<lambda>value. value \<noteq> '''')
                            (map trim_space (split_on (CHR '','') entry))) raw)"

definition parse_bucket :: "string \<Rightarrow> string \<Rightarrow> spaces_bucket res" where
  "parse_bucket spec default_region =
     (case cut_at (CHR ''@'') spec of
        (name, region, found) \<Rightarrow>
          (let region' = (if \<not> found \<or> region = '''' then default_region else region)
           in if name = '''' then Inl (Other (''empty bucket name in '' @ spec))
              else if region' = '''' then
                Inl (Wrap (''bucket '' @ name @ '' has no region'') [Sentinel ErrNoSpacesRegion])
              else Inr \<lparr>sb_name = name, sb_region = region'\<rparr>))"

fun parse_specs :: "string \<Rightarrow> string list \<Rightarrow> spaces_bucket list res" where
  "parse_specs default_region [] = Inr []"
| "parse_specs default_region (spec # specs) =
     (let spec' = trim_space spec
      in if spec' = '''' then parse_specs default_region specs
         else case parse_bucket spec' default_region of
                Inl e \<Rightarrow> Inl e
              | Inr bucket \<Rightarrow>
                  (case parse_specs default_region specs of
                     Inl e \<Rightarrow> Inl e
                   | Inr buckets \<Rightarrow> Inr (bucket # buckets)))"

definition parse_buckets :: "string list \<Rightarrow> string \<Rightarrow> spaces_bucket list res" where
  "parse_buckets raw default_region =
     parse_specs default_region (concat (map (split_on (CHR '','')) raw))"

text \<open>The value a Go function returns beside an error is the zero value of its type.\<close>

definition or_zero :: "'a \<Rightarrow> 'a res \<Rightarrow> 'a" where
  "or_zero z r = (case r of Inl _ \<Rightarrow> z | Inr x \<Rightarrow> x)"

definition err_of :: "'a res \<Rightarrow> goerr option" where
  "err_of r = (case r of Inl e \<Rightarrow> Some e | Inr _ \<Rightarrow> None)"

definition spaces_settings :: "(string \<Rightarrow> string res) \<Rightarrow> flags \<Rightarrow> spaces_config res" where
  "spaces_settings read_file f =
     (let region = f_spaces_region f;
          key = resolve_secret read_file (f_spaces_key f) (f_spaces_key_file f)
                  ErrSpacesCredentialConflict ErrNoSpacesCredentials;
          secret = resolve_secret read_file (f_spaces_secret f) (f_spaces_secret_file f)
                     ErrSpacesCredentialConflict ErrNoSpacesCredentials;
          buckets = parse_buckets (f_spaces_buckets f) region
      in case (if f_spaces f then first_error [err_of key, err_of secret, err_of buckets] else None) of
           Some e \<Rightarrow> Inl e
         | None \<Rightarrow>
             if f_spaces f \<and> or_zero [] buckets = [] \<and> region = ''''
             then Inl (Wrap ''discovery needs a region'' [Sentinel ErrNoSpacesRegion])
             else Inr \<lparr>sp_access_key = or_zero '''' key, sp_secret_key = or_zero '''' secret,
                       sp_region = region, sp_buckets = or_zero [] buckets,
                       sp_concurrency = f_spaces_concurrent f\<rparr>)"

definition collector_table :: "flags \<Rightarrow> string \<rightharpoonup> collector_config" where
  "collector_table f =
     foldl (\<lambda>m (name, c). m(name \<mapsto> c))
       (map_of (map (\<lambda>(name, bound).
          (name, \<lparr>cg_enabled = fb_enabled bound, cg_interval = fb_interval bound, cg_timeout = 0\<rparr>))
          (f_simple f)))
       [(''databases'', \<lparr>cg_enabled = f_databases f, cg_interval = f_db_interval f,
                          cg_timeout = f_db_timeout f\<rparr>),
        (''projects'', \<lparr>cg_enabled = f_projects f, cg_interval = f_proj_interval f,
                         cg_timeout = f_proj_timeout f\<rparr>),
        (''dropletmetrics'', \<lparr>cg_enabled = f_droplet_metrics f, cg_interval = f_dm_interval f,
                               cg_timeout = f_dm_timeout f\<rparr>),
        (''loadbalancermetrics'', \<lparr>cg_enabled = f_lb_metrics f, cg_interval = f_lbm_interval f,
                                    cg_timeout = f_lbm_timeout f\<rparr>),
        (''spaces'', \<lparr>cg_enabled = f_spaces f, cg_interval = f_spaces_interval f,
                       cg_timeout = f_spaces_timeout f\<rparr>),
        (''uptime'', \<lparr>cg_enabled = f_uptime f, cg_interval = f_uptime_interval f,
                       cg_timeout = f_uptime_timeout f\<rparr>)]"

definition resolve_config :: "(string \<Rightarrow> string res) \<Rightarrow> flags \<Rightarrow> config res" where
  "resolve_config read_file f =
     (case validate_durations f of
        Some e \<Rightarrow> Inl e
      | None \<Rightarrow>
          if flt_less (f_rate_limit f) (Fin 0)
          then Inl (Wrap ''--do.rate-limit'' [Sentinel ErrNegativeRateLimit])
          else case resolve_secret read_file (f_token f) (f_token_file f) ErrTokenConflict ErrNoToken of
                 Inl e \<Rightarrow> Inl e
               | Inr token \<Rightarrow>
                   (case spaces_settings read_file f of
                      Inl e \<Rightarrow> Inl e
                    | Inr spaces \<Rightarrow>
                        Inr \<lparr>cf_listen_address = f_listen f, cf_web_config_file = f_web_config f,
                             cf_token = token, cf_api_base_url = f_api_base_url f,
                             cf_timeout = f_timeout f, cf_rate_limit = f_rate_limit f,
                             cf_log_level = f_log_level f, cf_log_format = f_log_format f,
                             cf_filter_tags = split_list_values (f_filter_tags f),
                             cf_filter_regions = split_list_values (f_filter_regions f),
                             cf_collectors = collector_table f, cf_spaces = spaces,
                             cf_droplet_metrics_concurrency = f_dm_concurrency f,
                             cf_droplet_metrics_agent_only = f_dm_agent_only f,
                             cf_load_balancer_metrics_concurrency = f_lbm_concurrency f,
                             cf_load_balancer_metrics_extended = f_lbm_extended f,
                             cf_kubernetes_upgrades = f_k8s_upgrades f,
                             cf_database_details = f_db_details f\<rparr>))"

section \<open>Parse\<close>

datatype parsed = ParseFailed goerr | Terminated | Parsed "string \<Rightarrow> flag_value"

definition parse_config ::
  "(flag_decl list \<Rightarrow> string list \<Rightarrow> parsed) \<Rightarrow> (string \<Rightarrow> string res) \<Rightarrow> string list \<Rightarrow> config res" where
  "parse_config kingpin read_file args =
     (case kingpin flag_table args of
        ParseFailed e \<Rightarrow> Inl (Wrap ''parse flags'' [e])
      | Terminated \<Rightarrow> Inl (Sentinel ErrHelpShown)
      | Parsed v \<Rightarrow> resolve_config read_file (bind v))"

section \<open>Lemmas\<close>

lemma first_error_none: "first_error es = None \<longleftrightarrow> (\<forall>e \<in> set es. e = None)"
  by (induction es rule: first_error.induct) auto

lemma first_error_append_none:
  "first_error (es @ fs) = None \<longleftrightarrow> first_error es = None \<and> first_error fs = None"
  by (auto simp: first_error_none)

lemma first_error_map_none:
  "first_error (map g xs) = None \<longleftrightarrow> (\<forall>x \<in> set xs. g x = None)"
  by (simp add: first_error_none)

lemma first_error_concat_none:
  "first_error (concat (map g xs)) = None \<longleftrightarrow> (\<forall>x \<in> set xs. first_error (g x) = None)"
  by (auto simp: first_error_none)

lemma first_error_pair:
  "first_error [a] = None \<longleftrightarrow> a = None" "first_error [a, b] = None \<longleftrightarrow> a = None \<and> b = None"
  by (simp_all add: first_error_none)

lemma require_positive_none [simp]: "require_positive flag d err = None \<longleftrightarrow> 0 < d"
  by (simp add: require_positive_def)

lemma simple_names_distinct: "distinct (map sm_name simple_collectors)"
  by (simp add: simple_collectors_def)

lemma simple_flags_names [simp]: "map fst (simple_flags v) = map sm_name simple_collectors"
  by (simp add: simple_flags_def)

lemma validate_durations_none:
  "validate_durations f = None \<longleftrightarrow>
     0 < f_timeout f \<and> (\<forall>name \<in> fst ` set (f_simple f). 0 < simple_interval (f_simple f) name) \<and>
     (\<forall>(name, interval, timeout) \<in> set (timed_collectors f). 0 < interval \<and> 0 < timeout)"
  by (simp add: validate_durations_def first_error_append_none first_error_map_none
      first_error_concat_none first_error_pair split_beta del: append.simps)

lemma resolve_secret_ok:
  "resolve_secret rf inline file c m = Inr s \<Longrightarrow> s \<noteq> '''' \<and> (inline = '''') \<noteq> (file = '''')"
  by (auto simp: resolve_secret_def Let_def split: if_splits sum.splits)

lemma cut_at_before: "cut_at c s = (a, b, found) \<Longrightarrow> c \<notin> set a"
  by (induction c s arbitrary: a rule: cut_at.induct) (auto split: if_splits prod.splits)

lemma parse_bucket_ok:
  "parse_bucket spec d = Inr b \<Longrightarrow> sb_name b \<noteq> '''' \<and> sb_region b \<noteq> '''' \<and> CHR ''@'' \<notin> set (sb_name b)"
  by (auto simp: parse_bucket_def Let_def dest: cut_at_before split: prod.splits if_splits)

lemma parse_specs_ok:
  "parse_specs d specs = Inr bs \<Longrightarrow> \<forall>b \<in> set bs. sb_name b \<noteq> '''' \<and> sb_region b \<noteq> ''''"
  by (induction d specs arbitrary: bs rule: parse_specs.induct)
    (auto simp: Let_def dest: parse_bucket_ok split: if_splits sum.splits)

lemma spaces_settings_ok:
  assumes "spaces_settings rf f = Inr sp" and "f_spaces f"
  shows "sp_access_key sp \<noteq> ''''" and "sp_secret_key sp \<noteq> ''''"
    and "\<And>b. b \<in> set (sp_buckets sp) \<Longrightarrow> sb_name b \<noteq> '''' \<and> sb_region b \<noteq> ''''"
    and "sp_buckets sp \<noteq> [] \<or> sp_region sp \<noteq> ''''"
  using assms
  by (auto simp: spaces_settings_def Let_def err_of_def or_zero_def parse_buckets_def
      dest: resolve_secret_ok parse_specs_ok split: sum.splits if_splits)

lemma map_of_key: "map_of (map (\<lambda>c. (key c, g (key c))) xs) k = (if k \<in> key ` set xs then Some (g k) else None)"
  by (induction xs) auto

lemma simple_flags_lookup:
  "map_of (simple_flags v) name =
     (if name \<in> sm_name ` set simple_collectors
      then Some \<lparr>fb_enabled = as_bool (v (''collector.'' @ name)),
                 fb_interval = as_duration (v (''collector.'' @ name @ ''.interval''))\<rparr>
      else None)"
  unfolding simple_flags_def by (rule map_of_key)

lemma collector_table_cases:
  assumes "collector_table f name = Some cc"
  shows "(\<exists>bound. map_of (f_simple f) name = Some bound \<and> cg_interval cc = fb_interval bound \<and>
            cg_enabled cc = fb_enabled bound \<and> cg_timeout cc = 0) \<or>
         (name, cg_interval cc, cg_timeout cc) \<in> set (timed_collectors f)"
proof -
  have simple: "map_of (map (\<lambda>(name, bound). (name, h bound)) xs) name = map_option h (map_of xs name)"
    for h :: "collector_flags \<Rightarrow> collector_config" and xs
    by (induction xs) auto
  show ?thesis
    using assms
    by (auto simp: collector_table_def timed_collectors_def simple split: if_splits)
qed

lemma validated_simple:
  assumes "validate_durations f = None" and "map_of (f_simple f) name = Some bound"
  shows "0 < fb_interval bound \<and> name \<in> fst ` set (f_simple f)"
proof -
  have "name \<in> fst ` set (f_simple f)"
    using map_of_SomeD [OF assms(2)] by (simp add: rev_image_eqI)
  then have "0 < simple_interval (f_simple f) name"
    using assms(1) unfolding validate_durations_none by blast
  with assms(2) \<open>name \<in> _\<close> show ?thesis by (simp add: simple_interval_def)
qed

text \<open>Flags that pass the validation, with the Spaces collector on and one of its buckets named.\<close>

definition demo_value :: "string \<Rightarrow> flag_value" where
  "demo_value name =
     (if name = ''collector.spaces'' then BoolVal True
      else if name = ''collector.spaces.bucket'' then StringsVal [''a@fra1,b'']
      else if name = ''spaces.region'' then StringVal ''ams3''
      else if name \<in> {''do.token'', ''spaces.access-key'', ''spaces.secret-key''} then StringVal ''t''
      else DurationVal second)"

lemma demo_simple_intervals:
  "name \<in> fst ` set (f_simple (bind demo_value)) \<Longrightarrow> 0 < simple_interval (f_simple (bind demo_value)) name"
proof -
  assume "name \<in> fst ` set (f_simple (bind demo_value))"
  then have "name \<in> sm_name ` set simple_collectors"
    by (auto simp: bind_def simple_flags_def)
  moreover have "as_duration (demo_value (''collector.'' @ name @ ''.interval'')) = second"
    if "name \<in> sm_name ` set simple_collectors"
    using that by (auto simp: demo_value_def simple_collectors_def)
  ultimately show ?thesis by (simp add: bind_def simple_interval_def simple_flags_lookup second_def)
qed

lemma demo_validates: "validate_durations (bind demo_value) = None"
proof -
  have "0 < interval \<and> 0 < timeout" if "(name, interval, timeout) \<in> set (timed_collectors (bind demo_value))"
    for name interval timeout
    using that unfolding timed_collectors_def bind_def flags.select_convs
    by (auto simp: demo_value_def second_def)
  moreover have "0 < f_timeout (bind demo_value)"
    unfolding bind_def flags.select_convs by (simp add: demo_value_def second_def)
  ultimately show ?thesis
    using demo_simple_intervals by (auto simp: validate_durations_none)
qed

lemma trim_plain: "trim_space ''a@fra1'' = ''a@fra1''" "trim_space ''b'' = ''b''"
  by code_simp+

lemma demo_buckets:
  "parse_buckets [''a@fra1,b''] ''ams3'' =
     Inr [\<lparr>sb_name = ''a'', sb_region = ''fra1''\<rparr>, \<lparr>sb_name = ''b'', sb_region = ''ams3''\<rparr>]"
  by (simp add: parse_buckets_def trim_plain parse_bucket_def Let_def)

lemma demo_spaces:
  "spaces_settings rf (bind demo_value) =
     Inr \<lparr>sp_access_key = ''t'', sp_secret_key = ''t'', sp_region = ''ams3'',
          sp_buckets = [\<lparr>sb_name = ''a'', sb_region = ''fra1''\<rparr>, \<lparr>sb_name = ''b'', sb_region = ''ams3''\<rparr>],
          sp_concurrency = 0\<rparr>"
proof -
  have b: "f_spaces_buckets (bind demo_value) = [''a@fra1,b'']"
    "f_spaces_region (bind demo_value) = ''ams3''" "f_spaces (bind demo_value)"
    "f_spaces_key (bind demo_value) = ''t''" "f_spaces_key_file (bind demo_value) = ''''"
    "f_spaces_secret (bind demo_value) = ''t''" "f_spaces_secret_file (bind demo_value) = ''''"
    "f_spaces_concurrent (bind demo_value) = 0"
    by (simp_all add: bind_def demo_value_def)
  show ?thesis
    by (simp add: spaces_settings_def Let_def b demo_buckets resolve_secret_def err_of_def or_zero_def)
qed

lemma demo_config: "\<exists>c. resolve_config rf (bind demo_value) = Inr c"
proof -
  have "f_token (bind demo_value) = ''t''" "f_token_file (bind demo_value) = ''''"
    "f_rate_limit (bind demo_value) = Fin 0"
    by (simp_all add: bind_def demo_value_def)
  then show ?thesis
    by (simp add: resolve_config_def demo_validates demo_spaces resolve_secret_def)
qed

lemma config_accepted:
  assumes "resolve_config rf f = Inr c"
  shows "0 < cf_timeout c \<and> cf_token c \<noteq> '''' \<and> \<not> flt_less (cf_rate_limit c) (Fin 0) \<and>
    (case cf_collectors c name of
       None \<Rightarrow> True
     | Some cc \<Rightarrow> 0 < cg_interval cc \<and> 0 \<le> cg_timeout cc \<and>
         (0 < cg_timeout cc \<or> name \<in> fst ` set (f_simple f)))"
proof -
  have v: "validate_durations f = None"
    and c: "cf_timeout c = f_timeout f" "cf_collectors c = collector_table f"
    and rest: "cf_token c \<noteq> ''''" "\<not> flt_less (cf_rate_limit c) (Fin 0)"
    using assms by (auto simp: resolve_config_def dest: resolve_secret_ok
        split: option.splits if_splits sum.splits)
  have "0 < cg_interval cc \<and> 0 \<le> cg_timeout cc \<and> (0 < cg_timeout cc \<or> name \<in> fst ` set (f_simple f))"
    if "collector_table f name = Some cc" for cc
    using collector_table_cases [OF that] validated_simple [OF v] v
    by (auto simp: validate_durations_none)
  then show ?thesis using v c rest by (simp add: validate_durations_none split: option.splits)
qed

section \<open>Properties\<close>

text \<open>
  C18. What an accepted configuration promises its users: the refresh timeout and every
  collector's interval are positive, no timeout is negative and those of the collectors that
  have one of their own are positive, the rate limit is not negative, and there is a token.
\<close>

theorem config_validated:
  assumes "resolve_config rf f = Inr c"
  shows "0 < cf_timeout c \<and> cf_token c \<noteq> '''' \<and> \<not> flt_less (cf_rate_limit c) (Fin 0) \<and>
    (case cf_collectors c name of
       None \<Rightarrow> True
     | Some cc \<Rightarrow> 0 < cg_interval cc \<and> 0 \<le> cg_timeout cc \<and>
         (0 < cg_timeout cc \<or> name \<in> fst ` set (f_simple f)))"
  using assms by (rule config_accepted)

lemma config_validated_witness:
  "\<exists>c. resolve_config (\<lambda>_. Inl (Other ''no such file'')) (bind demo_value) = Inr c \<and> 0 < cf_timeout c"
proof -
  obtain c where "resolve_config (\<lambda>_. Inl (Other ''no such file'')) (bind demo_value) = Inr c"
    using demo_config by blast
  with config_validated [OF this, of "''''"] show ?thesis by blast
qed

text \<open>
  With the Spaces collector enabled, an accepted configuration holds both halves of the key
  pair, names and places every bucket, and has a region to discover buckets in when it names none.
\<close>

lemma config_spaces_complete:
  assumes "resolve_config rf f = Inr c" and "f_spaces f"
  shows "sp_access_key (cf_spaces c) \<noteq> '''' \<and> sp_secret_key (cf_spaces c) \<noteq> '''' \<and>
    list_all (\<lambda>b. sb_name b \<noteq> '''' \<and> sb_region b \<noteq> '''') (sp_buckets (cf_spaces c)) \<and>
    (sp_buckets (cf_spaces c) \<noteq> [] \<or> sp_region (cf_spaces c) \<noteq> '''')"
proof -
  have "spaces_settings rf f = Inr (cf_spaces c)"
    using assms(1) by (auto simp: resolve_config_def split: option.splits if_splits sum.splits)
  from spaces_settings_ok [OF this assms(2)] show ?thesis by (simp add: list_all_iff)
qed

lemma config_spaces_complete_witness:
  "\<exists>c. resolve_config (\<lambda>_. Inl (Other ''no such file'')) (bind demo_value) = Inr c \<and>
     sp_access_key (cf_spaces c) \<noteq> ''''"
proof -
  obtain c where "resolve_config (\<lambda>_. Inl (Other ''no such file'')) (bind demo_value) = Inr c"
    using demo_config by blast
  with config_spaces_complete [OF this] show ?thesis by (auto simp: bind_def demo_value_def)
qed

text \<open>
  The environment form of a repeatable flag means what the repeated flag means: one value
  with commas yields the same tags, regions and buckets as the values it joins, errors included.
\<close>

lemma config_commas:
  "split_list_values [join_with '','' raw] = split_list_values raw \<and>
   parse_buckets [join_with '','' raw] region = parse_buckets raw region"
proof (cases raw)
  case Nil
  have "trim_space '''' = ''''" by simp
  then show ?thesis using Nil by (simp add: split_list_values_def parse_buckets_def)
next
  case (Cons x xs)
  have "concat (map (split_on (CHR '','')) [join_with '','' raw]) = concat (map (split_on (CHR '','')) raw)"
    using split_on_join [of "CHR '',''" x xs] Cons by simp
  moreover have "split_list_values r =
      filter (\<lambda>value. value \<noteq> '''') (map trim_space (concat (map (split_on (CHR '','')) r)))" for r
    by (simp add: split_list_values_def filter_concat map_concat comp_def)
  ultimately show ?thesis by (simp only: parse_buckets_def)
qed

text \<open>
  The error a bad interval is reported with does not depend on the order the map of simple
  collectors happens to be iterated in.
\<close>

lemma config_error_stable:
  assumes "mset simple = mset simple'" and "distinct (map fst simple)"
  shows "validate_durations (f\<lparr>f_simple := simple\<rparr>) = validate_durations (f\<lparr>f_simple := simple'\<rparr>)"
proof -
  have keys: "mset (map fst simple) = mset (map fst simple')" by (simp add: assms(1))
  have "distinct (map fst simple')" using assms(2) keys mset_eq_imp_distinct_iff by blast
  moreover have "set simple = set simple'" using assms(1) by (rule mset_eq_setD)
  ultimately have "map_of simple = map_of simple'" using assms(2) by (simp add: map_of_inject_set)
  then show ?thesis
    by (simp add: validate_durations_def simple_interval_def timed_collectors_def
        sort_strings_perm [OF keys])
qed

lemma config_error_stable_witness:
  "validate_durations ((bind demo_value)\<lparr>f_simple := [(''a'', \<lparr>fb_enabled = True, fb_interval = 0\<rparr>),
       (''b'', \<lparr>fb_enabled = True, fb_interval = -1\<rparr>)]\<rparr>) =
   validate_durations ((bind demo_value)\<lparr>f_simple := [(''b'', \<lparr>fb_enabled = True, fb_interval = -1\<rparr>),
       (''a'', \<lparr>fb_enabled = True, fb_interval = 0\<rparr>)]\<rparr>)"
  by (rule config_error_stable) simp_all

text \<open>
  A secret comes from exactly one source: it is accepted when the value is given inline or
  the file holds more than white space, never when both are set, and it is never empty.
\<close>

lemma config_secret:
  "resolve_secret rf inline file conflict missing = Inr s \<longleftrightarrow>
     s \<noteq> '''' \<and>
     ((file = '''' \<and> s = inline) \<or>
      (inline = '''' \<and> file \<noteq> '''' \<and> (\<exists>raw. rf file = Inr raw \<and> s = trim_space raw)))"
  by (auto simp: resolve_secret_def Let_def split: sum.splits)

lemmas flag_table_defs = flag_table_def bind_general_def bind_simple_def simple_collectors_def
  bind_upgrades_def bind_databases_def bind_projects_def bind_monitoring_def bind_spaces_def
  bind_uptime_def decl_def Let_def

lemmas literal_flags = flag_table_defs flag_decl.select_convs simple_collector.select_convs
  list.map append.simps concat.simps distinct.simps list.set image_insert image_empty insert_iff
  empty_iff list.inject list.distinct char.inject simp_thms

lemma flag_names_distinct: "distinct (map fl_name flag_table)"
  by (simp only: literal_flags)

lemma flag_envars_distinct: "distinct (map fl_envar flag_table)"
  by (simp only: literal_flags to_upper_def to_upper_letters)

definition declared :: "string \<Rightarrow> bool" where
  "declared name =
     (''collector.'' @ name \<in> fl_name ` set flag_table \<and>
      ''collector.'' @ name @ ''.interval'' \<in> fl_name ` set flag_table)"

definition timed_names :: "string list" where
  "timed_names =
     [''databases'', ''projects'', ''dropletmetrics'', ''loadbalancermetrics'', ''spaces'', ''uptime'']"

lemma simple_flags_declared: "name \<in> set (map sm_name simple_collectors) \<Longrightarrow> declared name"
  unfolding flag_table_def bind_simple_def declared_def
  by (auto simp: decl_def Let_def image_Un image_UN)

lemma timed_flags_declared: "list_all declared timed_names"
  by (simp only: literal_flags declared_def timed_names_def list.pred_inject)

text \<open>
  The command line is well formed: no two flags share a name or an environment variable, so
  declaring them never fails, and every collector has an enable switch and an interval.
\<close>

lemma config_flags_distinct:
  "distinct (map fl_name flag_table) \<and> distinct (map fl_envar flag_table) \<and>
   list_all declared (map sm_name simple_collectors @ timed_names)"
  using flag_names_distinct flag_envars_distinct simple_flags_declared timed_flags_declared
  by (auto simp: list_all_iff)

end
