(* ===== verification/Timeseries.thy ===== *)
theory Timeseries
  imports Go_Float Go_Strings
begin

text \<open>
  internal/timeseries: the newest sample of every series of a monitoring response. Labels are
  a map; an instant is its number of milliseconds since the epoch, which is the resolution of
  the API client's timestamps.
\<close>

record sample_pair =
  p_timestamp :: int
  p_value :: float64

record sample_stream =
  ss_metric :: "(string \<times> string) list"
  ss_values :: "sample_pair list"

record metrics_response =
  mr_status :: string
  mr_result :: "sample_stream list"

record sample =
  s_labels :: "string \<rightharpoonup> string"
  s_value :: float64
  s_time :: int

definition sample_label :: "sample \<Rightarrow> string \<Rightarrow> string" where
  "sample_label s name = (case s_labels s name of None \<Rightarrow> [] | Some v \<Rightarrow> v)"

definition success_status :: string where "success_status = ''success''"

text \<open>\<open>Time.Unix\<close>: whole seconds, rounded down.\<close>

definition unix_seconds :: "int \<Rightarrow> int" where
  "unix_seconds ms = ms div 1000"

text \<open>\<open>newest\<close> is a fold over the points with the variables \<open>best\<close> and \<open>found\<close>.\<close>

definition zero_pair :: sample_pair where
  "zero_pair = \<lparr>p_timestamp = 0, p_value = Fin 0\<rparr>"

fun newest_loop :: "sample_pair \<Rightarrow> bool \<Rightarrow> sample_pair list \<Rightarrow> sample_pair \<times> bool" where
  "newest_loop best found [] = (best, found)"
| "newest_loop best found (point # rest) =
     (if is_nan (p_value point) then newest_loop best found rest
      else if \<not> found \<or> p_timestamp best < p_timestamp point then newest_loop point True rest
      else newest_loop best found rest)"

definition newest :: "sample_pair list \<Rightarrow> sample_pair \<times> bool" where
  "newest vs = newest_loop zero_pair False vs"

definition labels_of :: "sample_stream \<Rightarrow> (string \<rightharpoonup> string)" where
  "labels_of series = foldl (\<lambda>m (name, value). m(name \<mapsto> value)) Map.empty (ss_metric series)"

fun samples_loop :: "sample list \<Rightarrow> sample_stream list \<Rightarrow> sample list" where
  "samples_loop samples [] = samples"
| "samples_loop samples (series # rest) =
     (case newest (ss_values series) of
        (point, ok) \<Rightarrow>
          if \<not> ok then samples_loop samples rest
          else samples_loop
                 (samples @ [\<lparr>s_labels = labels_of series, s_value = p_value point,
                              s_time = p_timestamp point\<rparr>]) rest)"

definition latest :: "metrics_response option \<Rightarrow> sample list res" where
  "latest resp =
     (case resp of
        None \<Rightarrow> Inl (Sentinel ErrNoResponse)
      | Some r \<Rightarrow>
          if mr_status r \<noteq> success_status
          then Inl (Wrap (''status '' @ mr_status r) [Sentinel ErrNotSuccess])
          else Inr (samples_loop [] (mr_result r)))"

section \<open>What newest selects\<close>

definition usable :: "sample_pair list \<Rightarrow> sample_pair list" where
  "usable vs = filter (\<lambda>p. \<not> is_nan (p_value p)) vs"

lemma usable_simps [simp]:
  "usable [] = []"
  "usable (p # ps) = (if is_nan (p_value p) then usable ps else p # usable ps)"
  by (simp_all add: usable_def)

text \<open>
  With \<open>best\<close> in hand, the loop ends on the first usable point whose timestamp is the largest
  of those seen and to come.
\<close>

lemma newest_loop_found:
  "\<exists>pt. newest_loop best True vs = (pt, True) \<and> pt \<in> insert best (set (usable vs)) \<and>
     (\<forall>q \<in> insert best (set (usable vs)). p_timestamp q \<le> p_timestamp pt)"
proof (induction vs arbitrary: best)
  case (Cons p ps)
  consider "is_nan (p_value p)" | "\<not> is_nan (p_value p)" "p_timestamp best < p_timestamp p"
    | "\<not> is_nan (p_value p)" "p_timestamp p \<le> p_timestamp best" by fastforce
  then show ?case
  proof cases
    case 1
    with Cons show ?thesis by simp
  next
    case 2
    with Cons [of p] show ?thesis by fastforce
  next
    case 3
    with Cons [of best] show ?thesis by fastforce
  qed
qed simp

lemma newest_none: "usable vs = [] \<Longrightarrow> newest_loop best found vs = (best, found)"
  by (induction vs) (auto split: if_splits)

lemma newest_loop_start:
  "usable vs \<noteq> [] \<Longrightarrow>
     \<exists>pt. newest_loop best False vs = (pt, True) \<and> pt \<in> set (usable vs) \<and>
       (\<forall>q \<in> set (usable vs). p_timestamp q \<le> p_timestamp pt)"
proof (induction vs)
  case (Cons p ps)
  then show ?case using newest_loop_found [of p ps] by (auto split: if_splits)
qed simp

lemma newest_cases:
  obtains (absent) "usable vs = []" "newest vs = (zero_pair, False)"
  | (present) pt where "newest vs = (pt, True)" "pt \<in> set (usable vs)"
      "\<forall>q \<in> set (usable vs). p_timestamp q \<le> p_timestamp pt"
  using newest_none [of vs zero_pair False] newest_loop_start [of vs zero_pair]
  unfolding newest_def by blast

lemma snd_newest: "snd (newest vs) \<longleftrightarrow> usable vs \<noteq> []"
  by (cases vs rule: newest_cases) auto

lemma samples_loop_eq:
  "samples_loop samples rs = samples @
     map (\<lambda>r. \<lparr>s_labels = labels_of r, s_value = p_value (fst (newest (ss_values r))),
               s_time = p_timestamp (fst (newest (ss_values r)))\<rparr>)
       (filter (\<lambda>r. usable (ss_values r) \<noteq> []) rs)"
proof (induction rs arbitrary: samples)
  case (Cons r rs)
  show ?case
    using Cons snd_newest [of "ss_values r"] by (cases "newest (ss_values r)") auto
qed simp

lemma newest_not_nan: "newest vs = (pt, True) \<Longrightarrow> \<not> is_nan (p_value pt)"
  by (cases vs rule: newest_cases) (auto simp: usable_def)

section \<open>Properties\<close>

text \<open>
  C31. The point taken from a series is there exactly when the series has one that is a number,
  and then it is one of these with the largest timestamp; NaN never reaches a metric.
\<close>

theorem newest_point:
  assumes "newest vs = (pt, found)"
  shows "(found \<longleftrightarrow> usable vs \<noteq> []) \<and>
    (\<not> found \<or> (pt \<in> set vs \<and> \<not> is_nan (p_value pt) \<and>
      (\<forall>q \<in> set (usable vs). p_timestamp q \<le> p_timestamp pt)))"
  using assms by (cases vs rule: newest_cases) (auto simp: usable_def filter_empty_conv)

lemma newest_point_witness:
  "newest [\<lparr>p_timestamp = 5, p_value = NaN\<rparr>, \<lparr>p_timestamp = 3, p_value = Fin 1\<rparr>] =
     (\<lparr>p_timestamp = 3, p_value = Fin 1\<rparr>, True)"
proof -
  let ?vs = "[\<lparr>p_timestamp = 5, p_value = NaN\<rparr>, \<lparr>p_timestamp = 3, p_value = Fin 1\<rparr>]"
  obtain pt found where n: "newest ?vs = (pt, found)" by fastforce
  show ?thesis using newest_point [OF n] n by auto
qed

end
