(* ===== verification/Fanout.thy ===== *)
theory Fanout
  imports Prelude
begin

text \<open>
  The fan-out the two monitoring collectors share: the rotation of the starting point from
  one refresh to the next, as an interface with its resumption and coverage lemmas, and the
  worker pool of \<open>measureAll\<close> as a step relation that refines a plain function.
\<close>

section \<open>Rotation\<close>

text \<open>
  The resources that successive refreshes get to, when they get through \<open>b1\<close>, \<open>b2\<close>, ... of an
  unchanged listing.
\<close>

fun covered ::
  "(nat \<Rightarrow> 'r list \<Rightarrow> 'r list) \<Rightarrow> (nat \<Rightarrow> nat \<Rightarrow> nat \<Rightarrow> nat) \<Rightarrow> nat \<Rightarrow> nat list \<Rightarrow> 'r list \<Rightarrow> 'r set" where
  "covered rot adv cursor [] refs = {}"
| "covered rot adv cursor (b # bs) refs =
     set (take b (rot cursor refs)) \<union>
     covered rot adv (adv cursor b (length refs)) bs refs"

text \<open>
  \<open>rot cursor refs\<close> is the order of one refresh, \<open>adv cursor by n\<close> the next cursor
  after a refresh that got through \<open>by\<close> of \<open>n\<close> resources.
\<close>

locale rotation =
  fixes rot :: "nat \<Rightarrow> 'r list \<Rightarrow> 'r list"
    and adv :: "nat \<Rightarrow> nat \<Rightarrow> nat \<Rightarrow> nat"
  assumes length_rotate: "length (rot cursor refs) = length refs"
    and nth_rotate: "i < length refs \<Longrightarrow> rot cursor refs ! i = refs ! ((cursor + i) mod length refs)"
    and advance_total: "0 < n \<Longrightarrow> adv cursor by n = (cursor + by) mod n"
    and advance_empty: "adv cursor by 0 = cursor"
begin

text \<open>The next refresh starts with the resource this one did not get to.\<close>

lemma resumes:
  assumes "i < length refs"
  shows "rot (adv cursor by (length refs)) refs ! i
       = rot cursor refs ! ((by + i) mod length refs)"
proof -
  have pos: "0 < length refs" using assms by (cases refs) auto
  then have "(by + i) mod length refs < length refs" by simp
  with pos show ?thesis
    using assms by (simp add: nth_rotate advance_total mod_simps add.assoc)
qed

text \<open>A refresh that got through the whole list leaves the order as it was.\<close>

lemma full_round: "rot (adv cursor (length refs) (length refs)) refs = rot cursor refs"
proof (cases "refs = []")
  case True
  then show ?thesis by (simp add: advance_empty)
next
  case False
  then show ?thesis
    by (intro nth_equalityI) (simp_all add: length_rotate nth_rotate advance_total mod_simps)
qed

lemma set_rotate: "set (rot cursor refs) = set refs"
proof (cases "refs = []")
  case True
  then show ?thesis using length_rotate [of cursor refs] by simp
next
  case False
  let ?n = "length refs"
  have pos: "0 < ?n" using False by simp
  have "\<exists>i < ?n. rot cursor refs ! i = refs ! j" if "j < ?n" for j
  proof -
    let ?i = "(j + ?n - cursor mod ?n) mod ?n"
    have "cursor mod ?n < ?n" using pos by simp
    then have "(cursor mod ?n + (j + ?n - cursor mod ?n)) mod ?n = j"
      using that by simp
    then have "(cursor + ?i) mod ?n = j" by (metis mod_add_eq mod_mod_trivial)
    then show ?thesis using pos by (intro exI [of _ ?i]) (simp add: nth_rotate)
  qed
  then have "set refs \<subseteq> set (rot cursor refs)"
    by (metis in_set_conv_nth length_rotate subsetI)
  moreover have "r \<in> set refs" if "r \<in> set (rot cursor refs)" for r
  proof -
    obtain i where "i < ?n" and "r = refs ! ((cursor + i) mod ?n)"
      using \<open>r \<in> set (rot cursor refs)\<close> nth_rotate length_rotate by (metis in_set_conv_nth)
    with pos show ?thesis by simp
  qed
  ultimately show ?thesis by blast
qed

text \<open>Coverage: once the counts add up to the length of the listing, nothing is left out.\<close>

lemma covered_position:
  "p < length refs \<Longrightarrow> p < sum_list bs \<Longrightarrow> rot cursor refs ! p \<in> covered rot adv cursor bs refs"
proof (induction bs arbitrary: cursor p)
  case (Cons b bs)
  show ?case
  proof (cases "p < b")
    case True
    then have "rot cursor refs ! p \<in> set (take b (rot cursor refs))"
      using Cons.prems(1) by (auto simp: in_set_conv_nth length_rotate)
    then show ?thesis by simp
  next
    case False
    then have "rot (adv cursor b (length refs)) refs ! (p - b)
        \<in> covered rot adv (adv cursor b (length refs)) bs refs"
      using Cons.prems by (intro Cons.IH) auto
    moreover have "rot (adv cursor b (length refs)) refs ! (p - b) = rot cursor refs ! p"
      using False Cons.prems(1) by (simp add: resumes)
    ultimately show ?thesis by simp
  qed
qed simp

lemma covers_all: "length refs \<le> sum_list bs \<Longrightarrow> set refs \<subseteq> covered rot adv cursor bs refs"
proof
  fix r
  assume enough: "length refs \<le> sum_list bs" and "r \<in> set refs"
  then obtain p where "p < length refs" "rot cursor refs ! p = r"
    by (metis in_set_conv_nth length_rotate set_rotate)
  with enough covered_position [of p refs bs cursor] show "r \<in> covered rot adv cursor bs refs" by simp
qed

end

section \<open>The worker pool of measureAll\<close>

text \<open>
  \<open>n\<close> indices, \<open>workers\<close> goroutines. The dispatcher hands out the next index to a worker
  that is free, or, once the context is done, may stop; both branches of its select can be
  taken when both are ready. A worker finishes an index with the result its measurement gave.
\<close>

record 'a pool =
  handed :: nat
  stopped :: bool
  busy :: "nat set"
  finished :: "nat \<rightharpoonup> 'a"
  expired :: bool

definition pool_start :: "'a pool" where
  "pool_start = \<lparr>handed = 0, stopped = False, busy = {}, finished = Map.empty, expired = False\<rparr>"

inductive pool_step :: "nat \<Rightarrow> nat \<Rightarrow> 'a pool \<Rightarrow> 'a pool \<Rightarrow> bool"
  for workers :: nat and n :: nat where
  hand_out: "\<not> stopped p \<Longrightarrow> handed p < n \<Longrightarrow> card (busy p) < workers \<Longrightarrow>
     pool_step workers n p (p\<lparr>handed := Suc (handed p), busy := insert (handed p) (busy p)\<rparr>)"
| finish: "i \<in> busy p \<Longrightarrow>
     pool_step workers n p (p\<lparr>busy := busy p - {i}, finished := (finished p)(i \<mapsto> r)\<rparr>)"
| expire: "pool_step workers n p (p\<lparr>expired := True\<rparr>)"
| stop: "expired p \<Longrightarrow> \<not> stopped p \<Longrightarrow> handed p < n \<Longrightarrow>
     pool_step workers n p (p\<lparr>stopped := True\<rparr>)"

inductive pool_reach :: "nat \<Rightarrow> nat \<Rightarrow> 'a pool \<Rightarrow> bool" for workers :: nat and n :: nat where
  pool_init: "pool_reach workers n pool_start"
| pool_next: "pool_reach workers n p \<Longrightarrow> pool_step workers n p q \<Longrightarrow>
     pool_reach workers n q"

definition pool_over :: "nat \<Rightarrow> 'a pool \<Rightarrow> bool" where
  "pool_over n p \<longleftrightarrow> (stopped p \<or> handed p = n) \<and> busy p = {}"

definition pool_inv :: "nat \<Rightarrow> nat \<Rightarrow> 'a pool \<Rightarrow> bool" where
  "pool_inv workers n p \<longleftrightarrow>
     handed p \<le> n \<and> finite (busy p) \<and> card (busy p) \<le> workers \<and>
     dom (finished p) \<inter> busy p = {} \<and> dom (finished p) \<union> busy p = {..<handed p} \<and>
     (stopped p \<longrightarrow> expired p)"

lemma pool_inv_start: "pool_inv workers n pool_start"
  by (simp add: pool_inv_def pool_start_def)

lemma pool_step_inv: "pool_step workers n p q \<Longrightarrow> pool_inv workers n p \<Longrightarrow> pool_inv workers n q"
proof (induction rule: pool_step.induct)
  case (hand_out p)
  then have "handed p \<notin> busy p" and "handed p \<notin> dom (finished p)"
    by (auto simp: pool_inv_def)
  with hand_out show ?case
    by (auto simp: pool_inv_def lessThan_Suc)
next
  case (finish i p r)
  then have "card (busy p - {i}) \<le> workers"
    by (metis card_Diff1_le le_trans pool_inv_def)
  with finish show ?case by (auto simp: pool_inv_def)
next
  case (expire p)
  then show ?case by (simp add: pool_inv_def)
next
  case (stop p)
  then show ?case by (simp add: pool_inv_def)
qed

lemma pool_reach_inv: "pool_reach workers n p \<Longrightarrow> pool_inv workers n p"
  by (induction rule: pool_reach.induct) (blast intro: pool_inv_start pool_step_inv)+

text \<open>
  The results slice of a pool that is over: what was finished, and \<open>missed\<close> for the indices
  that were never handed out.
\<close>

definition pool_results :: "nat \<Rightarrow> (nat \<Rightarrow> 'a) \<Rightarrow> 'a pool \<Rightarrow> 'a list" where
  "pool_results n missed p =
     map (\<lambda>i. if i < handed p then the (finished p i) else missed i) [0..<n]"

text \<open>The sequential reading of \<open>measureAll\<close>: the first \<open>queued\<close> are measured, in order.\<close>

definition fan_out :: "nat \<Rightarrow> (nat \<Rightarrow> 'a) \<Rightarrow> (nat \<Rightarrow> 'a) \<Rightarrow> nat \<Rightarrow> 'a list" where
  "fan_out queued outcome missed n = map outcome [0..<queued] @ map missed [queued..<n]"

lemma fan_out_length: "queued \<le> n \<Longrightarrow> length (fan_out queued outcome missed n) = n"
  by (simp add: fan_out_def)

lemma fan_out_nth:
  "queued \<le> n \<Longrightarrow> i < n \<Longrightarrow>
     fan_out queued outcome missed n ! i = (if i < queued then outcome i else missed i)"
  by (simp add: fan_out_def nth_append)

lemma pool_over_results:
  assumes "pool_reach workers n p" and "pool_over n p"
  shows "dom (finished p) = {..<handed p}"
    and "pool_results n missed p = fan_out (handed p) (\<lambda>i. the (finished p i)) missed n"
    and "handed p < n \<Longrightarrow> expired p"
proof -
  have inv: "pool_inv workers n p" using assms(1) by (rule pool_reach_inv)
  with assms(2) show "dom (finished p) = {..<handed p}"
    by (auto simp: pool_inv_def pool_over_def)
  from inv have le: "handed p \<le> n" by (simp add: pool_inv_def)
  show "pool_results n missed p = fan_out (handed p) (\<lambda>i. the (finished p i)) missed n"
    by (rule nth_equalityI)
      (simp_all add: pool_results_def fan_out_length [OF le] fan_out_nth [OF le])
  show "handed p < n \<Longrightarrow> expired p"
    using inv assms(2) by (auto simp: pool_inv_def pool_over_def)
qed

text \<open>
  Progress: while the pool is not over and has a worker, some step shortens the work that is
  left, so a pool can always be brought to its end. It cannot without a worker, which is why
  the collectors raise their concurrency to one.
\<close>

definition pool_left :: "nat \<Rightarrow> 'a pool \<Rightarrow> nat" where
  "pool_left n p = 2 * (n - handed p) + card (busy p)"

lemma pool_progress:
  assumes inv: "pool_inv workers n p" and w: "0 < workers" and going: "\<not> pool_over n p"
  shows "\<exists>q. pool_step workers n p q \<and> pool_left n q < pool_left n p"
proof (cases "busy p = {}")
  case True
  with going inv have ready: "\<not> stopped p" "handed p < n"
    by (auto simp: pool_over_def pool_inv_def)
  with True w have "pool_step workers n p
      (p\<lparr>handed := Suc (handed p), busy := insert (handed p) (busy p)\<rparr>)"
    by (intro hand_out) simp_all
  with ready True show ?thesis by (intro exI conjI) (auto simp: pool_left_def)
next
  case False
  then obtain i where i: "i \<in> busy p" by blast
  then have "card (busy p - {i}) < card (busy p)"
    using inv by (intro psubset_card_mono) (auto simp: pool_inv_def)
  with finish [OF i] show ?thesis by (intro exI conjI) (auto simp: pool_left_def)
qed

lemma pool_ends:
  assumes "pool_reach workers n p" and "0 < workers"
  shows "\<exists>q. (pool_step workers n)\<^sup>*\<^sup>* p q \<and> pool_reach workers n q \<and> pool_over n q"
  using assms(1)
proof (induction "pool_left n p" arbitrary: p rule: less_induct)
  case less
  show ?case
  proof (cases "pool_over n p")
    case True
    with less.prems show ?thesis by blast
  next
    case False
    obtain q where q: "pool_step workers n p q" "pool_left n q < pool_left n p"
      using pool_progress [OF pool_reach_inv [OF less.prems] assms(2) False] by blast
    then have "pool_reach workers n q" using less.prems by (blast intro: pool_next)
    from less.hyps [OF q(2) this] q(1) show ?thesis
      by (meson converse_rtranclp_into_rtranclp)
  qed
qed

section \<open>The pool against the clock\<close>

text \<open>
  Which droplets a refresh gets to. \<open>starved r\<close> says that the result \<open>r\<close> is the time running out
  and nothing else. From some moment on the time is out (\<open>tm_out\<close>): the context is done, or the
  limiter refuses every further request because it could not be sent in time. Only then a
  measurement starves, and one that is handed out later (\<open>tm_late\<close>) always does; one that was
  under way may end either way.
\<close>

record 'a timed =
  tm_pool :: "'a pool"
  tm_out :: bool
  tm_late :: "nat set"

inductive timed_reach :: "nat \<Rightarrow> nat \<Rightarrow> ('a \<Rightarrow> bool) \<Rightarrow> 'a timed \<Rightarrow> bool"
  for workers :: nat and n :: nat and starved :: "'a \<Rightarrow> bool" where
  timed_init: "timed_reach workers n starved \<lparr>tm_pool = pool_start, tm_out = False, tm_late = {}\<rparr>"
| timed_hand_out: "timed_reach workers n starved \<lparr>tm_pool = p, tm_out = out, tm_late = late\<rparr> \<Longrightarrow>
     \<not> stopped p \<Longrightarrow> handed p < n \<Longrightarrow> card (busy p) < workers \<Longrightarrow>
     timed_reach workers n starved
       \<lparr>tm_pool = p\<lparr>handed := Suc (handed p), busy := insert (handed p) (busy p)\<rparr>, tm_out = out,
        tm_late = (if out then insert (handed p) late else late)\<rparr>"
| timed_finish: "timed_reach workers n starved \<lparr>tm_pool = p, tm_out = out, tm_late = late\<rparr> \<Longrightarrow>
     i \<in> busy p \<Longrightarrow> (starved r \<longrightarrow> out) \<Longrightarrow> (i \<in> late \<longrightarrow> starved r) \<Longrightarrow>
     timed_reach workers n starved
       \<lparr>tm_pool = p\<lparr>busy := busy p - {i}, finished := (finished p)(i \<mapsto> r)\<rparr>, tm_out = out,
        tm_late = late\<rparr>"
| timed_out: "timed_reach workers n starved \<lparr>tm_pool = p, tm_out = out, tm_late = late\<rparr> \<Longrightarrow>
     timed_reach workers n starved \<lparr>tm_pool = p, tm_out = True, tm_late = late\<rparr>"
| timed_expire: "timed_reach workers n starved \<lparr>tm_pool = p, tm_out = True, tm_late = late\<rparr> \<Longrightarrow>
     timed_reach workers n starved
       \<lparr>tm_pool = p\<lparr>expired := True\<rparr>, tm_out = True, tm_late = late\<rparr>"
| timed_stop: "timed_reach workers n starved \<lparr>tm_pool = p, tm_out = out, tm_late = late\<rparr> \<Longrightarrow>
     expired p \<Longrightarrow> \<not> stopped p \<Longrightarrow> handed p < n \<Longrightarrow>
     timed_reach workers n starved
       \<lparr>tm_pool = p\<lparr>stopped := True\<rparr>, tm_out = out, tm_late = late\<rparr>"

text \<open>It is the pool of before, with the clock beside it.\<close>

lemma timed_reach_pool: "timed_reach workers n starved t \<Longrightarrow> pool_reach workers n (tm_pool t)"
  by (induction rule: timed_reach.induct)
    (auto intro: pool_init pool_next [OF _ hand_out] pool_next [OF _ finish]
      pool_next [OF _ expire] pool_next [OF _ stop])

text \<open>
  With one worker the order of the queue is the order of the measurements: what starves is
  followed only by what starves.
\<close>

definition one_by_one :: "('a \<Rightarrow> bool) \<Rightarrow> 'a timed \<Rightarrow> bool" where
  "one_by_one starved t \<longleftrightarrow>
     busy (tm_pool t) \<subseteq> {handed (tm_pool t) - 1} \<and>
     (\<forall>i. i \<in> busy (tm_pool t) \<longrightarrow> i < handed (tm_pool t)) \<and>
     (\<forall>i r. finished (tm_pool t) i = Some r \<longrightarrow> i \<in> tm_late t \<longrightarrow> starved r) \<and>
     (\<forall>i r. finished (tm_pool t) i = Some r \<longrightarrow> starved r \<longrightarrow>
        tm_out t \<and> (\<forall>j. i < j \<and> j < handed (tm_pool t) \<longrightarrow> j \<in> tm_late t))"

lemma timed_one_by_one:
  assumes "timed_reach workers n starved t" and "workers \<le> 1"
  shows "one_by_one starved t"
  using assms(1)
proof (induction rule: timed_reach.induct)
  case timed_init
  show ?case by (simp add: one_by_one_def pool_start_def)
next
  case (timed_hand_out p out late)
  have "finite (busy p)"
    using pool_reach_inv [OF timed_reach_pool [OF timed_hand_out.hyps(1)]] by (simp add: pool_inv_def)
  moreover have "card (busy p) = 0" using timed_hand_out.hyps(4) assms(2) by linarith
  ultimately have "busy p = {}" by simp
  moreover have "finished p (handed p) = None"
    using pool_reach_inv [OF timed_reach_pool [OF timed_hand_out.hyps(1)]]
    by (auto simp: pool_inv_def)
  ultimately show ?case
    using timed_hand_out.IH by (auto simp: one_by_one_def less_Suc_eq)
next
  case (timed_finish p out late i r)
  then have "i = handed p - 1" and "i < handed p" by (auto simp: one_by_one_def)
  then show ?case
    using timed_finish by (auto simp: one_by_one_def)
qed (auto simp: one_by_one_def)

lemma timed_one_worker:
  assumes "timed_reach workers n starved t" and "workers \<le> 1" and "pool_over n (tm_pool t)"
    and "finished (tm_pool t) i = Some r" and "starved r"
    and "i < j" and "j < handed (tm_pool t)"
  shows "\<exists>r'. finished (tm_pool t) j = Some r' \<and> starved r'"
proof -
  have "j \<in> dom (finished (tm_pool t))"
    using pool_over_results(1) [OF timed_reach_pool [OF assms(1)] assms(3)] assms(7) by simp
  then obtain r' where "finished (tm_pool t) j = Some r'" by blast
  moreover have "j \<in> tm_late t"
    using timed_one_by_one [OF assms(1,2)] assms(4-7) unfolding one_by_one_def by blast
  ultimately show ?thesis
    using timed_one_by_one [OF assms(1,2)] unfolding one_by_one_def by blast
qed

text \<open>
  With two workers a run can hold the first index up while the other worker gets through all the
  others, and starve the first at the end.
\<close>

definition held_up :: "(nat \<Rightarrow> 'a) \<Rightarrow> nat \<Rightarrow> 'a timed" where
  "held_up f k =
     \<lparr>tm_pool = \<lparr>handed = k, stopped = False, busy = {0},
        finished = (\<lambda>i. if 0 < i \<and> i < k then Some (f i) else None), expired = False\<rparr>,
      tm_out = False, tm_late = {}\<rparr>"

lemma timed_held_up:
  assumes "2 \<le> workers" and "\<And>i. 0 < i \<Longrightarrow> i < n \<Longrightarrow> \<not> starved (f i)"
  shows "0 < k \<Longrightarrow> k \<le> n \<Longrightarrow> timed_reach workers n starved (held_up f k)"
proof (induction k)
  case (Suc k)
  show ?case
  proof (cases "k = 0")
    case True
    with Suc.prems(2) assms(1) timed_hand_out [OF timed_init, of n workers starved]
    have "timed_reach workers n starved
        \<lparr>tm_pool = \<lparr>handed = Suc 0, stopped = False, busy = {0}, finished = Map.empty, expired = False\<rparr>,
         tm_out = False, tm_late = {}\<rparr>"
      by (simp add: pool_start_def)
    moreover have "(\<lambda>i. if 0 < i \<and> i < Suc 0 then Some (f i) else None) = Map.empty"
      by auto
    ultimately show ?thesis unfolding held_up_def True by simp
  next
    case False
    with Suc have "timed_reach workers n starved (held_up f k)" by simp
    from timed_hand_out [OF this [unfolded held_up_def]] Suc.prems(2) assms(1)
    have "timed_reach workers n starved
        \<lparr>tm_pool = \<lparr>handed = Suc k, stopped = False, busy = {k, 0},
           finished = (\<lambda>i. if 0 < i \<and> i < k then Some (f i) else None), expired = False\<rparr>,
         tm_out = False, tm_late = {}\<rparr>" by simp
    from timed_finish [OF this, of k "f k"] False Suc.prems(2) assms(2) [of k]
    have "timed_reach workers n starved
        \<lparr>tm_pool = \<lparr>handed = Suc k, stopped = False, busy = {k, 0} - {k},
           finished = (\<lambda>i. if 0 < i \<and> i < k then Some (f i) else None)(k \<mapsto> f k), expired = False\<rparr>,
         tm_out = False, tm_late = {}\<rparr>" by simp
    moreover have "{k, 0} - {k} = {0}" using False by auto
    moreover have "(\<lambda>i. if 0 < i \<and> i < k then Some (f i) else None)(k \<mapsto> f k) =
        (\<lambda>i. if 0 < i \<and> i < Suc k then Some (f i) else None)"
      using False by (auto simp: fun_eq_iff)
    ultimately show ?thesis by (simp add: held_up_def)
  qed
qed simp

lemma timed_skip:
  assumes "2 \<le> workers" and "0 < n" and "\<And>i. 0 < i \<Longrightarrow> i < n \<Longrightarrow> \<not> starved (f i)" and "starved (f 0)"
  shows "timed_reach workers n starved
    \<lparr>tm_pool = \<lparr>handed = n, stopped = False, busy = {},
       finished = (\<lambda>i. if i < n then Some (f i) else None), expired = True\<rparr>,
     tm_out = True, tm_late = {}\<rparr>"
proof -
  have "timed_reach workers n starved (held_up f n)"
    using assms(1,2) by (intro timed_held_up assms(3)) simp_all
  from timed_finish [OF timed_expire [OF timed_out [OF this [unfolded held_up_def]]], of 0 "f 0"]
  have "timed_reach workers n starved
    \<lparr>tm_pool = \<lparr>handed = n, stopped = False, busy = {},
       finished = (\<lambda>i. if 0 < i \<and> i < n then Some (f i) else None)(0 \<mapsto> f 0), expired = True\<rparr>,
     tm_out = True, tm_late = {}\<rparr>" by simp
  moreover have "(\<lambda>i. if 0 < i \<and> i < n then Some (f i) else None)(0 \<mapsto> f 0) =
      (\<lambda>i. if i < n then Some (f i) else None)"
    using assms(2) by (auto simp: fun_eq_iff)
  ultimately show ?thesis by simp
qed

end
