(* ===== verification/Droplets.thy ===== *)
theory Droplets
  imports Collector
begin

text \<open>
  internal/collector/droplets: the inventory of droplets. The records with the prefix \<open>gd\<close>
  hold the fields of the API client's types the code reads; a nil pointer is \<open>None\<close>.
  \<open>time.Parse\<close> with RFC 3339 is a parameter giving the Unix time of a well-formed string.
\<close>

section \<open>Data\<close>

record godo_image =
  gi_slug :: string
  gi_name :: string

record godo_size =
  gz_slug :: string
  gz_price_hourly :: float64
  gz_price_monthly :: float64

record godo_droplet =
  gd_id :: int
  gd_name :: string
  gd_status :: string
  gd_image :: "godo_image option"
  gd_vpc_uuid :: string
  gd_tags :: "string list"
  gd_vcpus :: int
  gd_memory :: int
  gd_disk :: int
  gd_features :: "string list"
  gd_created :: string
  gd_region :: "string option"
  gd_size :: "godo_size option"

record droplet =
  d_id :: string
  d_name :: string
  d_region :: string
  d_size :: string
  d_status :: string
  d_image :: string
  d_vpc_uuid :: string
  d_tags :: string
  d_up :: float64
  d_cpus :: float64
  d_memory :: float64
  d_disk :: float64
  d_price_hourly :: float64
  d_price_monthly :: float64
  d_backups :: float64
  d_monitoring_agent :: float64
  d_created :: bool
  d_created_at :: float64

section \<open>Descriptors\<close>

definition droplet_labels :: "string list" where
  "droplet_labels = [''id'', ''name'', ''region'']"

definition droplet_up_desc :: desc where
  "droplet_up_desc = Desc ''digitalocean_droplet_up'' droplet_labels"
definition droplet_cpus_desc :: desc where
  "droplet_cpus_desc = Desc ''digitalocean_droplet_cpus'' droplet_labels"
definition droplet_memory_desc :: desc where
  "droplet_memory_desc = Desc ''digitalocean_droplet_memory_bytes'' droplet_labels"
definition droplet_disk_desc :: desc where
  "droplet_disk_desc = Desc ''digitalocean_droplet_disk_bytes'' droplet_labels"
definition droplet_price_hourly_desc :: desc where
  "droplet_price_hourly_desc = Desc ''digitalocean_droplet_price_hourly'' droplet_labels"
definition droplet_price_monthly_desc :: desc where
  "droplet_price_monthly_desc = Desc ''digitalocean_droplet_price_monthly'' droplet_labels"
definition droplet_backups_desc :: desc where
  "droplet_backups_desc = Desc ''digitalocean_droplet_backups_enabled'' droplet_labels"
definition droplet_monitoring_agent_desc :: desc where
  "droplet_monitoring_agent_desc = Desc ''digitalocean_droplet_monitoring_agent'' droplet_labels"
definition droplet_created_desc :: desc where
  "droplet_created_desc =
     Desc ''digitalocean_droplet_created_timestamp_seconds'' droplet_labels"
definition droplet_info_desc :: desc where
  "droplet_info_desc = Desc ''digitalocean_droplet_info''
     [''id'', ''name'', ''region'', ''size'', ''status'', ''image'', ''vpc_uuid'', ''tags'']"

definition droplet_descriptors :: "desc list" where
  "droplet_descriptors =
     [droplet_up_desc, droplet_cpus_desc, droplet_memory_desc, droplet_disk_desc,
      droplet_price_hourly_desc, droplet_price_monthly_desc, droplet_backups_desc,
      droplet_monitoring_agent_desc, droplet_created_desc, droplet_info_desc]"

lemmas droplet_desc_defs =
  droplet_up_desc_def droplet_cpus_desc_def droplet_memory_desc_def droplet_disk_desc_def
  droplet_price_hourly_desc_def droplet_price_monthly_desc_def droplet_backups_desc_def
  droplet_monitoring_agent_desc_def droplet_created_desc_def droplet_info_desc_def
  droplet_labels_def

section \<open>Conversion\<close>

definition droplet_region_slug :: "godo_droplet \<Rightarrow> string" where
  "droplet_region_slug d = (case gd_region d of None \<Rightarrow> [] | Some slug \<Rightarrow> slug)"

definition join_tags :: "string list \<Rightarrow> string" where
  "join_tags tags = join_with '','' (sort_strings tags)"

definition image_name :: "godo_image option \<Rightarrow> string" where
  "image_name img =
     (case img of
        None \<Rightarrow> []
      | Some i \<Rightarrow> if gi_slug i \<noteq> [] then gi_slug i else gi_name i)"

text \<open>\<open>bytesPerMebibyte\<close> is \<open>2 ^ 20\<close> and \<open>bytesPerGibibyte\<close> is \<open>2 ^ 30\<close>.\<close>

definition new_droplet :: "(string \<Rightarrow> int option) \<Rightarrow> godo_droplet \<Rightarrow> droplet" where
  "new_droplet parse_rfc3339 d =
     \<lparr>d_id = itoa (gd_id d), d_name = gd_name d,
      d_region = (case gd_region d of None \<Rightarrow> [] | Some slug \<Rightarrow> slug),
      d_size = (case gd_size d of None \<Rightarrow> [] | Some z \<Rightarrow> gz_slug z),
      d_status = gd_status d, d_image = image_name (gd_image d), d_vpc_uuid = gd_vpc_uuid d,
      d_tags = join_tags (gd_tags d),
      d_up = bool_to_float (gd_status d = ''active''),
      d_cpus = of_int64 (gd_vcpus d),
      d_memory = flt_scale 20 (of_int64 (gd_memory d)),
      d_disk = flt_scale 30 (of_int64 (gd_disk d)),
      d_price_hourly = (case gd_size d of None \<Rightarrow> Fin 0 | Some z \<Rightarrow> gz_price_hourly z),
      d_price_monthly = (case gd_size d of None \<Rightarrow> Fin 0 | Some z \<Rightarrow> gz_price_monthly z),
      d_backups = bool_to_float (''backups'' \<in> set (gd_features d)),
      d_monitoring_agent = bool_to_float (''monitoring'' \<in> set (gd_features d)),
      d_created = (case parse_rfc3339 (gd_created d) of None \<Rightarrow> False | Some _ \<Rightarrow> True),
      d_created_at =
        (case parse_rfc3339 (gd_created d) of None \<Rightarrow> Fin 0 | Some t \<Rightarrow> of_int64 t)\<rparr>"

section \<open>Refresh and Collect\<close>

text \<open>What the environment answers during one refresh: the two listings of the API.\<close>

record droplet_api =
  da_ctx :: ctx
  da_list :: "godo_droplet list_func"
  da_list_by_tag :: "string \<Rightarrow> godo_droplet list_func"

definition droplet_listing :: "droplet_api \<Rightarrow> filter_conf \<Rightarrow> godo_droplet list_func" where
  "droplet_listing api f =
     (case single_tag f of None \<Rightarrow> da_list api | Some tag \<Rightarrow> da_list_by_tag api tag)"

definition droplets_refresh ::
  "(string \<Rightarrow> int option) \<Rightarrow> filter_conf \<Rightarrow> droplet_api \<Rightarrow> droplet list
     \<Rightarrow> droplet list \<times> goerr option" where
  "droplets_refresh parse_rfc3339 f api snap =
     replace_snapshot (fst (paging_all (da_ctx api) ''droplets'' gd_id (droplet_listing api f)))
       (\<lambda>droplets. map (new_droplet parse_rfc3339)
          (filter (\<lambda>d. match f (gd_tags d) (droplet_region_slug d)) droplets)) snap"

definition droplet_metrics :: "droplet \<Rightarrow> metric list" where
  "droplet_metrics d =
     (let labels = [d_id d, d_name d, d_region d] in
      [gauge droplet_up_desc (d_up d) labels,
       gauge droplet_cpus_desc (d_cpus d) labels,
       gauge droplet_memory_desc (d_memory d) labels,
       gauge droplet_disk_desc (d_disk d) labels,
       gauge droplet_price_hourly_desc (d_price_hourly d) labels,
       gauge droplet_price_monthly_desc (d_price_monthly d) labels,
       gauge droplet_backups_desc (d_backups d) labels,
       gauge droplet_monitoring_agent_desc (d_monitoring_agent d) labels]
      @ (if d_created d then [gauge droplet_created_desc (d_created_at d) labels] else [])
      @ [gauge droplet_info_desc (Fin 1)
           [d_id d, d_name d, d_region d, d_size d, d_status d, d_image d, d_vpc_uuid d,
            d_tags d]])"

definition droplets_collect :: "droplet list \<Rightarrow> metric list" where
  "droplets_collect snap = concat (map droplet_metrics snap)"

section \<open>The contract\<close>

definition droplets_ok :: "droplet list \<Rightarrow> bool" where
  "droplets_ok snap \<longleftrightarrow> distinct (map d_id snap)"

lemma d_id_new_droplet [simp]: "d_id (new_droplet p d) = itoa (gd_id d)"
  by (simp add: new_droplet_def)

lemma inj_itoa: "inj itoa"
  by (rule injI) (rule itoa_inj)

lemma droplets_refresh_ok: "droplets_ok s \<Longrightarrow> droplets_ok (fst (droplets_refresh p f api s))"
  unfolding droplets_refresh_def
  by (rule replace_snapshot_ok, assumption)
    (auto simp only: droplets_ok_def intro!: distinct_map_filter_inj [OF paging_all_distinct _ inj_itoa]
      d_id_new_droplet)

lemma droplet_metrics_described: "well_described droplet_descriptors (droplet_metrics d)"
  by (simp add: droplet_metrics_def droplet_descriptors_def droplet_desc_defs Let_def)

lemma droplet_metrics_distinct: "distinct (map series_of (droplet_metrics d))"
  by (simp add: droplet_metrics_def droplet_desc_defs Let_def)

lemma droplet_metrics_owner: "m \<in> set (droplet_metrics d) \<Longrightarrow> first_label m = d_id d"
  by (auto simp: droplet_metrics_def Let_def split: if_splits)

lemma droplets_collect_unique: "droplets_ok s \<Longrightarrow> no_duplicates (droplets_collect s)"
  unfolding droplets_collect_def droplets_ok_def
  by (rule no_duplicates_by_id [where key = d_id])
    (simp_all add: droplet_metrics_distinct droplet_metrics_owner)

interpretation droplets:
  unique_collector "droplets_refresh p f" droplets_collect droplet_descriptors "[]" droplets_ok
  for p f
  by unfold_locales
    (simp_all add: droplets_ok_def [of "[]"] droplets_collect_def [of "[]"] droplets_refresh_ok
      droplets_collect_unique, simp add: droplets_collect_def well_described_concat_map
      droplet_metrics_described)

interpretation droplets_atomic:
  atomic_collector "droplets_refresh p f" droplets_collect droplet_descriptors "[]" droplets_ok
  for p f
  by unfold_locales (simp add: droplets_refresh_def replace_snapshot_failure)

section \<open>A small account, for the witnesses\<close>

definition demo_droplet :: "int \<Rightarrow> string \<Rightarrow> string list \<Rightarrow> godo_droplet" where
  "demo_droplet n name tags =
     \<lparr>gd_id = n, gd_name = name, gd_status = ''active'', gd_image = None, gd_vpc_uuid = [],
      gd_tags = tags, gd_vcpus = 2, gd_memory = 2048, gd_disk = 50, gd_features = [],
      gd_created = [], gd_region = Some ''fra1'', gd_size = None\<rparr>"

definition demo_listing :: "godo_droplet list \<Rightarrow> droplet_api" where
  "demo_listing ds =
     \<lparr>da_ctx = \<lparr>ctx_live = 9, ctx_cause = Sentinel DeadlineExceeded\<rparr>,
      da_list = (\<lambda>k page. Inr (ds, LastPage)),
      da_list_by_tag = (\<lambda>tag k page. Inr (filter (\<lambda>d. tag \<in> set (gd_tags d)) ds, LastPage))\<rparr>"

section \<open>Properties\<close>

text \<open>
  Whatever the API answers, over any number of refreshes, the droplets collector only sends
  metrics it described, with one value per label, and no series twice.
\<close>

lemma droplets_exposition:
  "well_described droplet_descriptors
     (droplets_collect (refreshes (droplets_refresh p f) envs [])) \<and>
   no_duplicates (droplets_collect (refreshes (droplets_refresh p f) envs []))"
  using droplets.always_described droplets.always_unique by blast

text \<open>
  While the refreshes of the droplets collector fail, the exposition stays what the last
  successful one made it.
\<close>

lemma droplets_stale:
  assumes "\<And>env. env \<in> set envs \<Longrightarrow>
      snd (droplets_refresh p f env (refreshes (droplets_refresh p f) past [])) \<noteq> None"
  shows "droplets_collect (refreshes (droplets_refresh p f) (past @ envs) []) =
         droplets_collect (refreshes (droplets_refresh p f) past [])"
  using assms by (rule droplets_atomic.stale_exposition)

definition demo_outage :: droplet_api where
  "demo_outage =
     \<lparr>da_ctx = \<lparr>ctx_live = 9, ctx_cause = Sentinel DeadlineExceeded\<rparr>,
      da_list = (\<lambda>k page. Inl (Other ''503'')), da_list_by_tag = (\<lambda>tag k page. Inl (Other ''503''))\<rparr>"

lemma demo_outage_fails: "snd (droplets_refresh p zero_filter demo_outage s) \<noteq> None"
proof -
  have "fst (paging_all (da_ctx demo_outage) ''droplets'' gd_id (da_list demo_outage)) \<noteq> Inr r" for r
    unfolding paging_all_walk by (simp add: demo_outage_def walk_failed)
  then obtain e where
    "fst (paging_all (da_ctx demo_outage) ''droplets'' gd_id (da_list demo_outage)) = Inl e"
    by (metis sum.exhaust)
  then show ?thesis
    by (simp add: droplets_refresh_def droplet_listing_def single_tag_def zero_filter_def
        replace_snapshot_def)
qed

lemma droplets_stale_witness:
  "droplets_collect (refreshes (droplets_refresh (\<lambda>_. None) zero_filter)
       ([demo_listing [demo_droplet 7 ''web'' []]] @ [demo_outage]) []) =
   droplets_collect (refreshes (droplets_refresh (\<lambda>_. None) zero_filter)
       [demo_listing [demo_droplet 7 ''web'' []]] [])"
  by (rule droplets_stale) (simp add: demo_outage_fails)

text \<open>
  C30. Asking the API for the single tag of the filter loses nothing: of an account that does not
  change while it is read, the narrowed listing and the full one yield the same snapshot.
\<close>

theorem droplets_scoped:
  assumes "single_tag f = Some t"
    and "da_list api = serve pages" and "da_list_by_tag api t = serve tagged"
    and "concat tagged = filter (\<lambda>d. t \<in> set (gd_tags d)) (concat pages)"
    and "distinct (map gd_id (concat pages))"
    and "pages \<noteq> []" and "int (length pages) < 2 ^ 63" and "length pages \<le> ctx_live (da_ctx api)"
    and "tagged \<noteq> []" and "int (length tagged) < 2 ^ 63" and "length tagged \<le> ctx_live (da_ctx api)"
  shows "droplets_refresh p f api snap =
    (map (new_droplet p)
       (filter (\<lambda>d. match f (gd_tags d) (droplet_region_slug d)) (concat pages)), None)"
proof -
  have "distinct (map gd_id (concat tagged))"
    unfolding assms(4) using assms(5) by (rule distinct_map_filter)
  then have "fst (paging_all (da_ctx api) ''droplets'' gd_id (droplet_listing api f)) =
      Inr (filter (\<lambda>d. t \<in> set (gd_tags d)) (concat pages))"
    using paging_all_complete [OF assms(9-11), of "''droplets''" gd_id]
    by (simp add: droplet_listing_def assms(1,3,4) first_by_distinct)
  moreover have "filter (\<lambda>d. match f (gd_tags d) (droplet_region_slug d))
        (filter (\<lambda>d. t \<in> set (gd_tags d)) (concat pages))
      = filter (\<lambda>d. match f (gd_tags d) (droplet_region_slug d)) (concat pages)"
    by (rule conf_filter.scoped_listing_agrees(1) [OF assms(1)])
  ultimately show ?thesis by (simp add: droplets_refresh_def replace_snapshot_simps del: filter_filter)
qed

lemma droplets_scoped_witness:
  "let ds = [demo_droplet 7 ''web'' [''prod''], demo_droplet 8 ''db'' []];
       api = \<lparr>da_ctx = \<lparr>ctx_live = 9, ctx_cause = Sentinel DeadlineExceeded\<rparr>,
              da_list = serve [ds], da_list_by_tag = (\<lambda>t. serve [[hd ds]])\<rparr>
   in map d_name (fst (droplets_refresh (\<lambda>_. None) (filter_new [''prod''] []) api [])) = [''web'']"
proof -
  let ?ds = "[demo_droplet 7 ''web'' [''prod''], demo_droplet 8 ''db'' []]"
  let ?api = "\<lparr>da_ctx = \<lparr>ctx_live = 9, ctx_cause = Sentinel DeadlineExceeded\<rparr>,
              da_list = serve [?ds], da_list_by_tag = (\<lambda>t. serve [[hd ?ds]])\<rparr>"
  have "single_tag (filter_new [''prod''] []) = Some ''prod''" by (simp add: single_tag_new)
  from droplets_scoped [OF this, of ?api "[?ds]" "[[hd ?ds]]" "\<lambda>_. None" "[]"] show ?thesis
    by (simp add: demo_droplet_def new_droplet_def match_def Let_def)
qed

end
