(* ===== verification/Droplet_Metrics.thy ===== *)
theory Droplet_Metrics
  imports Collector Timeseries Fanout Droplets
begin

text \<open>
  internal/collector/dropletmetrics: the collector that measures every droplet through the
  monitoring API. Its state is the snapshot and the cursor of the rotation; the environment
  of one refresh gives the listings, the reply to every metrics request, how many droplets
  the dispatcher handed out and what the context reports after the fan-out.
\<close>

section \<open>Descriptors and specs\<close>

definition dm_identity :: "string list" where
  "dm_identity = [''id'', ''name'']"

definition filesystem_labels :: "string list" where
  "filesystem_labels = [''device'', ''mountpoint'', ''fstype'']"

definition labels_with :: "string list \<Rightarrow> string list" where
  "labels_with extra = dm_identity @ extra"

definition dm_cpu_desc :: desc where
  "dm_cpu_desc = Desc ''digitalocean_droplet_cpu_seconds_total'' (labels_with [''mode''])"
definition dm_memory_total_desc :: desc where
  "dm_memory_total_desc = Desc ''digitalocean_droplet_memory_total_bytes'' dm_identity"
definition dm_memory_available_desc :: desc where
  "dm_memory_available_desc = Desc ''digitalocean_droplet_memory_available_bytes'' dm_identity"
definition dm_memory_free_desc :: desc where
  "dm_memory_free_desc = Desc ''digitalocean_droplet_memory_free_bytes'' dm_identity"
definition dm_memory_cached_desc :: desc where
  "dm_memory_cached_desc = Desc ''digitalocean_droplet_memory_cached_bytes'' dm_identity"
definition dm_filesystem_size_desc :: desc where
  "dm_filesystem_size_desc =
     Desc ''digitalocean_droplet_filesystem_size_bytes'' (labels_with filesystem_labels)"
definition dm_filesystem_free_desc :: desc where
  "dm_filesystem_free_desc =
     Desc ''digitalocean_droplet_filesystem_free_bytes'' (labels_with filesystem_labels)"
definition dm_load1_desc :: desc where
  "dm_load1_desc = Desc ''digitalocean_droplet_load1'' dm_identity"
definition dm_load5_desc :: desc where
  "dm_load5_desc = Desc ''digitalocean_droplet_load5'' dm_identity"
definition dm_load15_desc :: desc where
  "dm_load15_desc = Desc ''digitalocean_droplet_load15'' dm_identity"
definition dm_up_desc :: desc where
  "dm_up_desc = Desc ''digitalocean_droplet_metrics_up'' dm_identity"
definition dm_sampled_desc :: desc where
  "dm_sampled_desc = Desc ''digitalocean_droplet_metrics_timestamp_seconds'' dm_identity"

definition dm_descriptors :: "desc list" where
  "dm_descriptors =
     [dm_cpu_desc, dm_memory_total_desc, dm_memory_available_desc, dm_memory_free_desc,
      dm_memory_cached_desc, dm_filesystem_size_desc, dm_filesystem_free_desc, dm_load1_desc,
      dm_load5_desc, dm_load15_desc, dm_up_desc, dm_sampled_desc]"

lemmas dm_desc_defs =
  dm_cpu_desc_def dm_memory_total_desc_def dm_memory_available_desc_def dm_memory_free_desc_def
  dm_memory_cached_desc_def dm_filesystem_size_desc_def dm_filesystem_free_desc_def
  dm_load1_desc_def dm_load5_desc_def dm_load15_desc_def dm_up_desc_def dm_sampled_desc_def
  labels_with_def dm_identity_def filesystem_labels_def

text \<open>A spec's fetch closure is the monitoring endpoint it calls, one constructor per method.\<close>

datatype droplet_endpoint =
    GetDropletCPU
  | GetDropletTotalMemory
  | GetDropletAvailableMemory
  | GetDropletFreeMemory
  | GetDropletCachedMemory
  | GetDropletFilesystemSize
  | GetDropletFilesystemFree
  | GetDropletLoad1
  | GetDropletLoad5
  | GetDropletLoad15

record dm_spec =
  sp_name :: string
  sp_desc :: desc
  sp_type :: value_type
  sp_series_labels :: "string list"
  sp_fetch :: droplet_endpoint

definition dm_specs :: "dm_spec list" where
  "dm_specs =
     [\<lparr>sp_name = ''cpu'', sp_desc = dm_cpu_desc, sp_type = CounterValue,
        sp_series_labels = [''mode''], sp_fetch = GetDropletCPU\<rparr>,
      \<lparr>sp_name = ''memory_total'', sp_desc = dm_memory_total_desc, sp_type = GaugeValue,
        sp_series_labels = [], sp_fetch = GetDropletTotalMemory\<rparr>,
      \<lparr>sp_name = ''memory_available'', sp_desc = dm_memory_available_desc, sp_type = GaugeValue,
        sp_series_labels = [], sp_fetch = GetDropletAvailableMemory\<rparr>,
      \<lparr>sp_name = ''memory_free'', sp_desc = dm_memory_free_desc, sp_type = GaugeValue,
        sp_series_labels = [], sp_fetch = GetDropletFreeMemory\<rparr>,
      \<lparr>sp_name = ''memory_cached'', sp_desc = dm_memory_cached_desc, sp_type = GaugeValue,
        sp_series_labels = [], sp_fetch = GetDropletCachedMemory\<rparr>,
      \<lparr>sp_name = ''filesystem_size'', sp_desc = dm_filesystem_size_desc, sp_type = GaugeValue,
        sp_series_labels = filesystem_labels, sp_fetch = GetDropletFilesystemSize\<rparr>,
      \<lparr>sp_name = ''filesystem_free'', sp_desc = dm_filesystem_free_desc, sp_type = GaugeValue,
        sp_series_labels = filesystem_labels, sp_fetch = GetDropletFilesystemFree\<rparr>,
      \<lparr>sp_name = ''load_1'', sp_desc = dm_load1_desc, sp_type = GaugeValue,
        sp_series_labels = [], sp_fetch = GetDropletLoad1\<rparr>,
      \<lparr>sp_name = ''load_5'', sp_desc = dm_load5_desc, sp_type = GaugeValue,
        sp_series_labels = [], sp_fetch = GetDropletLoad5\<rparr>,
      \<lparr>sp_name = ''load_15'', sp_desc = dm_load15_desc, sp_type = GaugeValue,
        sp_series_labels = [], sp_fetch = GetDropletLoad15\<rparr>]"

section \<open>State\<close>

record point =
  pt_desc :: desc
  pt_type :: value_type
  pt_labels :: "string list"
  pt_value :: float64

record dm_droplet =
  dm_id :: string
  dm_name :: string
  dm_up :: float64
  dm_sampled :: float64
  dm_points :: "point list"

record reference =
  ref_id :: string
  ref_name :: string

record dm_result =
  dmr_droplet :: dm_droplet
  dmr_ref :: reference
  dmr_err :: "goerr option"

record dm_collector =
  dm_concurrency :: int
  dm_agent_only :: bool
  dm_filter :: filter_conf
  dm_snap :: "dm_droplet list"
  dm_cursor :: nat

definition dm_new :: "int \<Rightarrow> bool \<Rightarrow> filter_conf \<Rightarrow> dm_collector" where
  "dm_new concurrency agent_only f =
     \<lparr>dm_concurrency = (if concurrency < 1 then 1 else concurrency), dm_agent_only = agent_only,
      dm_filter = f, dm_snap = [], dm_cursor = 0\<rparr>"

definition zero_dm_droplet :: dm_droplet where
  "zero_dm_droplet = \<lparr>dm_id = [], dm_name = [], dm_up = Fin 0, dm_sampled = Fin 0, dm_points = []\<rparr>"

record metrics_request =
  rq_id :: string
  rq_start :: int
  rq_end :: int

record dm_env =
  dme_listing :: droplet_api
  dme_now :: int
  dme_fetch :: "droplet_endpoint \<Rightarrow> metrics_request \<Rightarrow> metrics_response option res"
  dme_queued :: nat
  dme_after :: "goerr option"

text \<open>\<open>window\<close>: how far back a query reaches, in the nanoseconds of a duration.\<close>

definition dm_window :: int where "dm_window = 10 * minute"

section \<open>Operations\<close>

definition dm_list_droplets :: "dm_env \<Rightarrow> dm_collector \<Rightarrow> reference list res" where
  "dm_list_droplets env c =
     (let api = dme_listing env;
          listing = (case single_tag (dm_filter c) of
                       None \<Rightarrow> da_list api
                     | Some tag \<Rightarrow> da_list_by_tag api tag)
      in case fst (paging_all (da_ctx api) ''droplets'' gd_id listing) of
           Inl e \<Rightarrow> Inl e
         | Inr droplets \<Rightarrow>
             Inr (map (\<lambda>d. \<lparr>ref_id = itoa (gd_id d), ref_name = gd_name d\<rparr>)
                   (filter (\<lambda>d. match (dm_filter c) (gd_tags d) (droplet_region_slug d) \<and>
                                \<not> (dm_agent_only c \<and> ''monitoring'' \<notin> set (gd_features d)))
                     droplets)))"

definition dm_rotate :: "nat \<Rightarrow> 'r list \<Rightarrow> 'r list" where
  "dm_rotate cursor refs =
     (if length refs = 0 then refs
      else let from = cursor mod length refs in drop from refs @ take from refs)"

definition dm_advance :: "nat \<Rightarrow> nat \<Rightarrow> nat \<Rightarrow> nat" where
  "dm_advance cursor by n = (if n = 0 then cursor else (cursor + by) mod n)"

definition dm_add_sample :: "dm_spec \<Rightarrow> reference \<Rightarrow> dm_droplet \<Rightarrow> sample \<Rightarrow> dm_droplet" where
  "dm_add_sample s ref out sample =
     (let labels = [ref_id ref, ref_name ref] @ map (sample_label sample) (sp_series_labels s);
          secs = of_int64 (unix_seconds (s_time sample));
          out' = out\<lparr>dm_points := dm_points out @
                   [\<lparr>pt_desc = sp_desc s, pt_type = sp_type s, pt_labels = labels,
                     pt_value = s_value sample\<rparr>]\<rparr>
      in if flt_less (dm_sampled out') secs then out'\<lparr>dm_sampled := secs\<rparr> else out')"

fun dm_measure_specs ::
  "(droplet_endpoint \<Rightarrow> metrics_request \<Rightarrow> metrics_response option res) \<Rightarrow> reference
     \<Rightarrow> metrics_request \<Rightarrow> dm_spec list \<Rightarrow> dm_droplet \<Rightarrow> dm_droplet res" where
  "dm_measure_specs fetch ref req [] out = Inr out"
| "dm_measure_specs fetch ref req (s # specs) out =
     (case fetch (sp_fetch s) req of
        Inl e \<Rightarrow> Inl (Wrap (''fetch '' @ sp_name s) [e])
      | Inr resp \<Rightarrow>
          (case latest resp of
             Inl e \<Rightarrow> Inl (Wrap (''read '' @ sp_name s) [e])
           | Inr samples \<Rightarrow>
               dm_measure_specs fetch ref req specs (foldl (dm_add_sample s ref) out samples)))"

definition dm_measure ::
  "(droplet_endpoint \<Rightarrow> metrics_request \<Rightarrow> metrics_response option res) \<Rightarrow> reference \<Rightarrow> int \<Rightarrow> int
     \<Rightarrow> dm_droplet res" where
  "dm_measure fetch ref start end =
     dm_measure_specs fetch ref \<lparr>rq_id = ref_id ref, rq_start = start, rq_end = end\<rparr> dm_specs
       (zero_dm_droplet\<lparr>dm_id := ref_id ref, dm_name := ref_name ref, dm_up := Fin 1\<rparr>)"

definition dm_outcome :: "dm_env \<Rightarrow> reference list \<Rightarrow> nat \<Rightarrow> dm_result" where
  "dm_outcome env refs i =
     (case dm_measure (dme_fetch env) (refs ! i) (wrap64 (dme_now env - dm_window)) (dme_now env) of
        Inl e \<Rightarrow> \<lparr>dmr_droplet = zero_dm_droplet, dmr_ref = refs ! i, dmr_err = Some e\<rparr>
      | Inr d \<Rightarrow> \<lparr>dmr_droplet = d, dmr_ref = refs ! i, dmr_err = None\<rparr>)"

definition error_list :: "goerr option \<Rightarrow> goerr list" where
  "error_list e = (case e of None \<Rightarrow> [] | Some x \<Rightarrow> [x])"

definition dm_missed :: "dm_env \<Rightarrow> reference list \<Rightarrow> nat \<Rightarrow> dm_result" where
  "dm_missed env refs i =
     \<lparr>dmr_droplet = zero_dm_droplet, dmr_ref = refs ! i,
      dmr_err = Some (Wrap ''not measured'' (error_list (dme_after env)))\<rparr>"

definition dm_measure_all :: "dm_env \<Rightarrow> reference list \<Rightarrow> dm_result list" where
  "dm_measure_all env refs =
     fan_out (min (dme_queued env) (length refs)) (dm_outcome env refs) (dm_missed env refs)
       (length refs)"

definition dm_starved :: "goerr \<Rightarrow> bool" where
  "dm_starved e \<longleftrightarrow> errors_is e Canceled \<or> errors_is e DeadlineExceeded"

text \<open>\<open>merge\<close>: \<open>previous\<close> maps an id to the last snapshot entry carrying it.\<close>

definition dm_previous :: "dm_droplet list \<Rightarrow> string \<rightharpoonup> dm_droplet" where
  "dm_previous snap = foldl (\<lambda>m d. m(dm_id d \<mapsto> d)) Map.empty snap"

definition dm_merged :: "(string \<rightharpoonup> dm_droplet) \<Rightarrow> dm_result \<Rightarrow> dm_droplet" where
  "dm_merged previous r =
     (case dmr_err r of
        None \<Rightarrow> dmr_droplet r
      | Some _ \<Rightarrow>
          (let stale = (case previous (ref_id (dmr_ref r)) of None \<Rightarrow> zero_dm_droplet | Some d \<Rightarrow> d)
           in stale\<lparr>dm_id := ref_id (dmr_ref r), dm_name := ref_name (dmr_ref r), dm_up := Fin 0\<rparr>))"

definition dm_merge :: "dm_result list \<Rightarrow> dm_collector \<Rightarrow> dm_collector" where
  "dm_merge results c = c\<lparr>dm_snap := map (dm_merged (dm_previous (dm_snap c))) results\<rparr>"

fun dm_counts :: "nat \<Rightarrow> nat \<Rightarrow> dm_result list \<Rightarrow> nat \<times> nat" where
  "dm_counts measured reached [] = (measured, reached)"
| "dm_counts measured reached (r # rs) =
     (case dmr_err r of
        None \<Rightarrow> dm_counts (Suc measured) (Suc reached) rs
      | Some e \<Rightarrow> dm_counts measured (if dm_starved e then reached else Suc reached) rs)"

definition dm_report ::
  "goerr option \<Rightarrow> dm_result list \<Rightarrow> dm_collector \<Rightarrow> dm_collector \<times> goerr option" where
  "dm_report after results c =
     (case dm_counts 0 0 results of
        (measured, reached) \<Rightarrow>
          (c\<lparr>dm_cursor := dm_advance (dm_cursor c) reached (length results)\<rparr>,
           (case after of
              Some e \<Rightarrow>
                Some (Wrap (''measured '' @ itoa (int measured) @ '' of '' @
                              itoa (int (length results)) @ '' droplets'')
                       [Sentinel ErrRefreshCutShort, e])
            | None \<Rightarrow>
                if measured = 0 \<and> 0 < length results
                then Some (Wrap (itoa (int (length results)) @ '' attempted, last error'')
                       (Sentinel ErrNoDropletMeasured # error_list (dmr_err (last results))))
                else None)))"

definition dm_refresh :: "dm_env \<Rightarrow> dm_collector \<Rightarrow> dm_collector \<times> goerr option" where
  "dm_refresh env c =
     (case dm_list_droplets env c of
        Inl e \<Rightarrow> (c, Some e)
      | Inr refs \<Rightarrow>
          (let results = dm_measure_all env (dm_rotate (dm_cursor c) refs)
           in dm_report (dme_after env) results (dm_merge results c)))"

definition dm_metrics :: "dm_droplet \<Rightarrow> metric list" where
  "dm_metrics d =
     [gauge dm_up_desc (dm_up d) [dm_id d, dm_name d]]
     @ (if flt_less (Fin 0) (dm_sampled d)
        then [gauge dm_sampled_desc (dm_sampled d) [dm_id d, dm_name d]] else [])
     @ map (\<lambda>p. Metric (pt_desc p) (pt_type p) (pt_value p) (pt_labels p)) (dm_points d)"

definition dm_collect :: "dm_collector \<Rightarrow> metric list" where
  "dm_collect c = concat (map dm_metrics (dm_snap c))"

section \<open>Rotation\<close>

lemma dm_rotate_list: "dm_rotate cursor refs = List.rotate cursor refs"
  by (cases refs) (simp_all add: dm_rotate_def rotate_drop_take Let_def)

interpretation dm_rotation: rotation dm_rotate dm_advance
  by unfold_locales (simp_all add: dm_rotate_list nth_rotate dm_advance_def)

section \<open>What report concludes\<close>

definition dm_ok_result :: "dm_result \<Rightarrow> bool" where
  "dm_ok_result r \<longleftrightarrow> dmr_err r = None"

definition dm_reached :: "dm_result \<Rightarrow> bool" where
  "dm_reached r \<longleftrightarrow> (case dmr_err r of None \<Rightarrow> True | Some e \<Rightarrow> \<not> dm_starved e)"

lemma dm_counts_eq:
  "dm_counts m k results =
     (m + length (filter dm_ok_result results), k + length (filter dm_reached results))"
  by (induction results arbitrary: m k)
    (auto simp: dm_ok_result_def dm_reached_def split: option.splits)

lemma dm_report_snap [simp]: "dm_snap (fst (dm_report after results c)) = dm_snap c"
  by (simp add: dm_report_def split: prod.splits)

lemma dm_report_cursor:
  "dm_cursor (fst (dm_report after results c)) =
     dm_advance (dm_cursor c) (length (filter dm_reached results)) (length results)"
  by (simp add: dm_report_def dm_counts_eq)

lemma dm_report_error:
  "snd (dm_report after results c) = None \<longleftrightarrow>
     after = None \<and> (results = [] \<or> (\<exists>r \<in> set results. dmr_err r = None))"
  by (auto simp: dm_report_def dm_counts_eq filter_empty_conv dm_ok_result_def split: option.splits)

section \<open>What merge keeps\<close>

lemma dm_previous_snoc: "dm_previous (snap @ [d]) = (dm_previous snap)(dm_id d \<mapsto> d)"
  by (simp add: dm_previous_def)

lemma dm_previous_Some: "dm_previous snap i = Some d \<Longrightarrow> d \<in> set snap \<and> dm_id d = i"
  by (induction snap rule: rev_induct)
    (auto simp: dm_previous_snoc dm_previous_def [of "[]"] split: if_splits)

lemma dm_previous_distinct:
  "distinct (map dm_id snap) \<Longrightarrow> d \<in> set snap \<Longrightarrow> dm_previous snap (dm_id d) = Some d"
proof (induction snap rule: rev_induct)
  case (snoc x xs)
  show ?case
  proof (cases "d = x")
    case False
    with snoc.prems have "d \<in> set xs" and "dm_id d \<noteq> dm_id x"
      by (auto simp: image_iff)
    with snoc show ?thesis by (simp add: dm_previous_snoc)
  qed (simp add: dm_previous_snoc)
qed simp

text \<open>
  A result is sound when a measured droplet carries the identity it was asked for and its
  points fit their descriptors, none of them the up gauge or the sample time, and start with the
  id of the droplet. The name a point starts with may be an older one.
\<close>

definition dm_point_desc :: "desc \<Rightarrow> bool" where
  "dm_point_desc d \<longleftrightarrow>
     d \<in> set dm_descriptors \<and> fq_name d \<notin> {fq_name dm_up_desc, fq_name dm_sampled_desc}"

definition dm_point_ok :: "string \<Rightarrow> point \<Rightarrow> bool" where
  "dm_point_ok i p \<longleftrightarrow>
     dm_point_desc (pt_desc p) \<and> length (pt_labels p) = length (var_labels (pt_desc p)) \<and>
     pt_labels p ! 0 = i"

definition dm_droplet_ok :: "dm_droplet \<Rightarrow> bool" where
  "dm_droplet_ok d \<longleftrightarrow> (\<forall>p \<in> set (dm_points d). dm_point_ok (dm_id d) p)"

definition dm_spec_ok :: "dm_spec \<Rightarrow> bool" where
  "dm_spec_ok s \<longleftrightarrow>
     dm_point_desc (sp_desc s) \<and>
     var_labels (sp_desc s) = labels_with (sp_series_labels s)"

lemma dm_specs_ok: "s \<in> set dm_specs \<Longrightarrow> dm_spec_ok s"
  by (auto simp: dm_specs_def dm_spec_ok_def dm_point_desc_def dm_descriptors_def dm_desc_defs)

lemma dm_add_sample_id [simp]:
  "dm_id (dm_add_sample s ref out x) = dm_id out" "dm_name (dm_add_sample s ref out x) = dm_name out"
  "dm_up (dm_add_sample s ref out x) = dm_up out"
  by (simp_all add: dm_add_sample_def Let_def)

lemma dm_add_sample_ok:
  "dm_spec_ok s \<Longrightarrow> dm_droplet_ok out \<Longrightarrow> dm_id out = ref_id ref \<Longrightarrow>
     dm_droplet_ok (dm_add_sample s ref out x)"
  by (auto simp: dm_add_sample_def dm_droplet_ok_def dm_point_ok_def dm_spec_ok_def Let_def
      labels_with_def dm_identity_def)

lemma dm_add_samples_keep:
  "dm_id (foldl (dm_add_sample s ref) out xs) = dm_id out"
  "dm_name (foldl (dm_add_sample s ref) out xs) = dm_name out"
  "dm_up (foldl (dm_add_sample s ref) out xs) = dm_up out"
  by (induction xs arbitrary: out) simp_all

lemma dm_add_samples_ok:
  "dm_spec_ok s \<Longrightarrow> dm_droplet_ok out \<Longrightarrow> dm_id out = ref_id ref \<Longrightarrow>
     dm_droplet_ok (foldl (dm_add_sample s ref) out xs)"
  by (induction xs arbitrary: out) (simp_all add: dm_add_sample_ok)

lemma dm_measure_specs_keep:
  "dm_measure_specs fetch ref req specs out = Inr d \<Longrightarrow> (\<And>s. s \<in> set specs \<Longrightarrow> dm_spec_ok s) \<Longrightarrow>
     dm_droplet_ok out \<Longrightarrow> dm_id out = ref_id ref \<Longrightarrow>
     dm_droplet_ok d \<and> dm_id d = dm_id out \<and> dm_name d = dm_name out \<and> dm_up d = dm_up out"
proof (induction specs arbitrary: out)
  case (Cons s specs)
  then obtain resp samples where "fetch (sp_fetch s) req = Inr resp" and "latest resp = Inr samples"
    and rest: "dm_measure_specs fetch ref req specs (foldl (dm_add_sample s ref) out samples) = Inr d"
    by (auto split: sum.splits)
  from Cons.IH [OF rest] Cons.prems show ?case
    by (simp add: dm_add_samples_ok dm_add_samples_keep)
qed simp

lemma dm_measure_keep:
  "dm_measure fetch ref start end = Inr d \<Longrightarrow>
     dm_droplet_ok d \<and> dm_id d = ref_id ref \<and> dm_name d = ref_name ref \<and> dm_up d = Fin 1"
  unfolding dm_measure_def
  by (drule dm_measure_specs_keep)
    (auto simp: dm_specs_ok dm_droplet_ok_def zero_dm_droplet_def)

section \<open>The invariant of the snapshot\<close>

definition dm_ok :: "dm_collector \<Rightarrow> bool" where
  "dm_ok c \<longleftrightarrow> distinct (map dm_id (dm_snap c)) \<and> (\<forall>d \<in> set (dm_snap c). dm_droplet_ok d)"

lemma dm_outcome_ref [simp]: "dmr_ref (dm_outcome env refs i) = refs ! i"
  by (simp add: dm_outcome_def split: sum.splits)

lemma dm_missed_sel [simp]:
  "dmr_ref (dm_missed env refs i) = refs ! i" "dmr_err (dm_missed env refs i) \<noteq> None"
  by (simp_all add: dm_missed_def)

lemma dm_outcome_measured:
  "dmr_err (dm_outcome env refs i) = None \<Longrightarrow>
     dm_droplet_ok (dmr_droplet (dm_outcome env refs i)) \<and>
     dm_id (dmr_droplet (dm_outcome env refs i)) = ref_id (refs ! i) \<and>
     dm_up (dmr_droplet (dm_outcome env refs i)) = Fin 1"
  by (auto simp: dm_outcome_def dest: dm_measure_keep split: sum.splits)

lemma length_dm_measure_all [simp]: "length (dm_measure_all env refs) = length refs"
  by (simp add: dm_measure_all_def fan_out_length)

lemma nth_dm_measure_all:
  "i < length refs \<Longrightarrow> dm_measure_all env refs ! i =
     (if i < dme_queued env then dm_outcome env refs i else dm_missed env refs i)"
  by (simp add: dm_measure_all_def fan_out_nth)

lemma dm_measure_all_refs: "map dmr_ref (dm_measure_all env refs) = refs"
  by (rule nth_equalityI) (simp_all add: nth_dm_measure_all)

lemma dm_measure_all_sound:
  "r \<in> set (dm_measure_all env refs) \<Longrightarrow> dmr_err r = None \<Longrightarrow>
     dm_droplet_ok (dmr_droplet r) \<and> dm_id (dmr_droplet r) = ref_id (dmr_ref r) \<and>
     dm_up (dmr_droplet r) = Fin 1"
  using dm_outcome_measured by (fastforce simp: in_set_conv_nth nth_dm_measure_all split: if_splits)

lemma dm_merged_id:
  "(dmr_err r = None \<Longrightarrow> dm_id (dmr_droplet r) = ref_id (dmr_ref r)) \<Longrightarrow>
     dm_id (dm_merged previous r) = ref_id (dmr_ref r)"
  by (auto simp: dm_merged_def Let_def split: option.splits)

lemma dm_merged_ok:
  "(\<And>d. d \<in> set snap \<Longrightarrow> dm_droplet_ok d) \<Longrightarrow>
     (dmr_err r = None \<Longrightarrow> dm_droplet_ok (dmr_droplet r)) \<Longrightarrow>
     dm_droplet_ok (dm_merged (dm_previous snap) r)"
  using dm_previous_Some
  by (fastforce simp: dm_merged_def Let_def dm_droplet_ok_def zero_dm_droplet_def
      split: option.splits)

lemma dm_list_distinct:
  "dm_list_droplets env c = Inr refs \<Longrightarrow> distinct (map ref_id refs)"
  unfolding dm_list_droplets_def Let_def
  by (auto split: sum.splits simp del: map_map
      intro!: distinct_map_filter_inj [OF paging_all_distinct _ inj_itoa])

lemma dm_rotate_map: "map f (dm_rotate k refs) = dm_rotate k (map f refs)"
  by (simp add: dm_rotate_list rotate_map)

lemma dm_merge_ids:
  "map dm_id (dm_snap (dm_merge (dm_measure_all env refs) c)) = map ref_id refs"
proof -
  have "map dm_id (dm_snap (dm_merge (dm_measure_all env refs) c))
      = map ref_id (map dmr_ref (dm_measure_all env refs))"
    using dm_measure_all_sound by (auto simp: dm_merge_def dm_merged_id)
  then show ?thesis by (simp only: dm_measure_all_refs)
qed

lemma dm_refresh_snap:
  "dm_list_droplets env c = Inr refs \<Longrightarrow>
     dm_snap (fst (dm_refresh env c)) =
       dm_snap (dm_merge (dm_measure_all env (dm_rotate (dm_cursor c) refs)) c)"
  by (simp add: dm_refresh_def Let_def)

lemma dm_refresh_listing_failed:
  "dm_list_droplets env c = Inl e \<Longrightarrow> dm_refresh env c = (c, Some e)"
  by (simp add: dm_refresh_def)

lemma dm_refresh_ok: "dm_ok c \<Longrightarrow> dm_ok (fst (dm_refresh env c))"
proof (cases "dm_list_droplets env c")
  case (Inl e)
  then show "dm_ok c \<Longrightarrow> ?thesis" by (simp add: dm_refresh_listing_failed)
next
  case (Inr refs)
  assume ok: "dm_ok c"
  let ?refs = "dm_rotate (dm_cursor c) refs"
  have "distinct (map ref_id ?refs)"
    using dm_list_distinct [OF Inr] by (simp add: dm_rotate_map) (simp add: dm_rotate_list)
  moreover have "dm_droplet_ok d"
    if "d \<in> set (dm_snap (dm_merge (dm_measure_all env ?refs) c))" for d
    using that ok dm_measure_all_sound
    by (auto simp: dm_merge_def dm_ok_def intro!: dm_merged_ok)
  ultimately show ?thesis
    by (simp add: dm_ok_def dm_refresh_snap [OF Inr] dm_merge_ids)
qed

lemma dm_metrics_described: "dm_droplet_ok d \<Longrightarrow> well_described dm_descriptors (dm_metrics d)"
  by (auto simp: dm_metrics_def well_described_def dm_droplet_ok_def dm_point_ok_def
      dm_point_desc_def arity_ok_def dm_descriptors_def dm_up_desc_def dm_sampled_desc_def dm_identity_def split: if_splits)

lemma dm_ok_new: "dm_ok (dm_new n agent f)"
  by (simp add: dm_ok_def dm_new_def)

lemma dm_collect_new: "dm_collect (dm_new n agent f) = []"
  by (simp add: dm_collect_def dm_new_def)

lemma dm_collect_described: "dm_ok c \<Longrightarrow> well_described dm_descriptors (dm_collect c)"
  unfolding dm_collect_def dm_ok_def
  by (intro well_described_concat_map) (simp add: dm_metrics_described)

interpretation dropletmetrics:
  collector dm_refresh dm_collect dm_descriptors "dm_new n agent f" dm_ok for n agent f
  by unfold_locales (simp_all add: dm_ok_new dm_collect_new dm_refresh_ok dm_collect_described)

text \<open>Where the monitoring API names no series twice for one droplet, no series is sent twice.\<close>

definition droplet_points_apart :: "dm_droplet \<Rightarrow> bool" where
  "droplet_points_apart d \<longleftrightarrow> distinct (map (\<lambda>p. (fq_name (pt_desc p), pt_labels p)) (dm_points d))"

lemma dm_metrics_distinct:
  assumes "dm_droplet_ok d" and "droplet_points_apart d"
  shows "no_duplicates (dm_metrics d)"
proof -
  let ?points = "map (\<lambda>p. Metric (pt_desc p) (pt_type p) (pt_value p) (pt_labels p)) (dm_points d)"
  have "no_duplicates ?points"
    using assms(2) by (simp add: no_duplicates_def droplet_points_apart_def series_of_def comp_def)
  moreover have "metric_name ` set ?points \<inter> {fq_name dm_up_desc, fq_name dm_sampled_desc} = {}"
    using assms(1) by (auto simp: dm_droplet_ok_def dm_point_ok_def dm_point_desc_def metric_name_def)
  ultimately show ?thesis
    unfolding dm_metrics_def
    by (intro no_duplicates_parts) (auto simp: no_duplicates_def dm_up_desc_def dm_sampled_desc_def)
qed

lemma dm_metrics_owner: "dm_droplet_ok d \<Longrightarrow> m \<in> set (dm_metrics d) \<Longrightarrow> m_labels m ! 0 = dm_id d"
  by (auto simp: dm_metrics_def dm_droplet_ok_def dm_point_ok_def split: if_splits)

lemma dm_unique:
  "dm_ok c \<Longrightarrow> list_all droplet_points_apart (dm_snap c) \<Longrightarrow> no_duplicates (dm_collect c)"
  unfolding dm_collect_def dm_ok_def
  by (subst no_duplicates_by_label_iff [where k = 0 and key = dm_id])
    (auto simp: list_all_iff dm_metrics_distinct dm_metrics_owner)

section \<open>Properties\<close>

definition dm_stale :: "dm_collector \<Rightarrow> reference \<Rightarrow> dm_droplet" where
  "dm_stale c ref =
     (case dm_previous (dm_snap c) (ref_id ref) of None \<Rightarrow> zero_dm_droplet | Some d \<Rightarrow> d)
       \<lparr>dm_id := ref_id ref, dm_name := ref_name ref, dm_up := Fin 0\<rparr>"

lemma dm_refresh_nth:
  assumes "dm_list_droplets env c = Inr refs" and "i < length refs"
  shows "dm_snap (fst (dm_refresh env c)) ! i =
     dm_merged (dm_previous (dm_snap c)) (dm_measure_all env (dm_rotate (dm_cursor c) refs) ! i)"
  using assms by (simp add: dm_refresh_snap dm_merge_def dm_rotation.length_rotate)

lemma dm_refresh_length:
  "dm_list_droplets env c = Inr refs \<Longrightarrow> length (dm_snap (fst (dm_refresh env c))) = length refs"
  by (simp add: dm_refresh_snap dm_merge_def dm_rotation.length_rotate)

text \<open>
  C9. One refresh of the droplet metrics collector, droplet by droplet. After a listing that
  succeeded, the snapshot has one entry per admitted droplet, in rotated order. A droplet that
  was handed out and measured has exactly the measured reading. Any other keeps the points and
  the sample time it had, under its current identity, and is marked down.
\<close>

theorem dm_refresh_entry:
  assumes "dm_list_droplets env c = Inr refs" and "i < length refs"
  shows "length (dm_snap (fst (dm_refresh env c))) = length refs \<and>
    dm_snap (fst (dm_refresh env c)) ! i =
      (let ref = dm_rotate (dm_cursor c) refs ! i in
       if i < dme_queued env then
         (case dm_measure (dme_fetch env) ref (wrap64 (dme_now env - dm_window)) (dme_now env) of
            Inr d \<Rightarrow> d
          | Inl e \<Rightarrow> dm_stale c ref)
       else dm_stale c ref)"
  using assms
  by (auto simp: dm_refresh_nth dm_refresh_length nth_dm_measure_all dm_rotation.length_rotate
      dm_outcome_def dm_missed_def dm_merged_def dm_stale_def Let_def split: sum.splits option.splits)

text \<open>
  C20. When a refresh is a success: the listing succeeded, the context is not done after the
  fan-out, and some droplet was measured unless there is none.
\<close>

theorem dm_refresh_success:
  "snd (dm_refresh env c) = None \<longleftrightarrow>
     (\<exists>refs. dm_list_droplets env c = Inr refs \<and> dme_after env = None \<and>
        (refs = [] \<or> (\<exists>r \<in> set (dm_measure_all env (dm_rotate (dm_cursor c) refs)).
                         dmr_err r = None)))"
proof (cases "dm_list_droplets env c")
  case (Inr refs)
  have "dm_measure_all env (dm_rotate (dm_cursor c) refs) = [] \<longleftrightarrow> refs = []"
    by (metis dm_rotation.length_rotate length_0_conv length_dm_measure_all)
  with Inr show ?thesis by (auto simp: dm_refresh_def Let_def dm_report_error)
qed (simp add: dm_refresh_listing_failed)

text \<open>The ids a sequence of refreshes got to, whether their measurement succeeded or not.\<close>

fun dm_attempted :: "reference list \<Rightarrow> dm_env list \<Rightarrow> dm_collector \<Rightarrow> reference set" where
  "dm_attempted refs [] c = {}"
| "dm_attempted refs (env # envs) c =
     dmr_ref ` set (filter dm_reached (dm_measure_all env (dm_rotate (dm_cursor c) refs))) \<union>
     dm_attempted refs envs (fst (dm_refresh env c))"

definition dm_reaches :: "dm_env \<Rightarrow> dm_collector \<Rightarrow> reference list \<Rightarrow> nat \<Rightarrow> bool" where
  "dm_reaches env c refs k \<longleftrightarrow>
     dm_list_droplets env c = Inr refs \<and> k \<le> length refs \<and>
     (let results = dm_measure_all env (dm_rotate (dm_cursor c) refs)
      in filter dm_reached results = take k results)"

fun dm_progress :: "reference list \<Rightarrow> (dm_env \<times> nat) list \<Rightarrow> dm_collector \<Rightarrow> bool" where
  "dm_progress refs [] c \<longleftrightarrow> True"
| "dm_progress refs ((env, k) # rest) c \<longleftrightarrow>
     dm_reaches env c refs k \<and> dm_progress refs rest (fst (dm_refresh env c))"

lemma dm_reaches_cursor:
  assumes "dm_reaches env c refs k"
  shows "dm_cursor (fst (dm_refresh env c)) = dm_advance (dm_cursor c) k (length refs)"
  using assms
  by (simp add: dm_reaches_def dm_refresh_def Let_def dm_report_cursor dm_merge_def
      dm_rotation.length_rotate)

lemma dm_reaches_refs:
  assumes "dm_reaches env c refs k"
  shows "dmr_ref ` set (filter dm_reached (dm_measure_all env (dm_rotate (dm_cursor c) refs)))
       = set (take k (dm_rotate (dm_cursor c) refs))"
proof -
  let ?rs = "dm_measure_all env (dm_rotate (dm_cursor c) refs)"
  have "map dmr_ref (take k ?rs) = take k (dm_rotate (dm_cursor c) refs)"
    by (simp add: take_map [symmetric] dm_measure_all_refs)
  with assms show ?thesis
    by (simp add: dm_reaches_def Let_def) (metis list.set_map)
qed

lemma dm_attempted_covered:
  "dm_progress refs eks c \<Longrightarrow>
     dm_attempted refs (map fst eks) c = covered dm_rotate dm_advance (dm_cursor c) (map snd eks) refs"
proof (induction eks arbitrary: c)
  case (Cons ek eks)
  obtain env k where ek: "ek = (env, k)" by (cases ek)
  with Cons.prems have reaches: "dm_reaches env c refs k"
    and rest: "dm_progress refs eks (fst (dm_refresh env c))" by simp_all
  show ?case
    using Cons.IH [OF rest] dm_reaches_refs [OF reaches] dm_reaches_cursor [OF reaches]
    by (simp add: ek)
qed simp

text \<open>
  C1. The rotation covers the fleet. Take refreshes over an unchanged listing, each of which
  gets through some prefix of its order before it runs out of time. Once the prefixes add up
  to the number of droplets, every droplet has had its turn.
\<close>

theorem dm_rotation_covers:
  assumes "dm_progress refs eks c" and "length refs \<le> sum_list (map snd eks)"
  shows "set refs \<subseteq> dm_attempted refs (map fst eks) c"
  unfolding dm_attempted_covered [OF assms(1)] by (rule dm_rotation.covers_all [OF assms(2)])

text \<open>
  A refresh that got through a prefix of \<open>k\<close> droplets is continued by the next one: its
  order starts with the droplet after that prefix, and it is the old order when the whole list
  was reached.
\<close>

lemma dm_refresh_resumes:
  assumes "dm_reaches env c refs k" and "i < length refs"
  shows "dm_rotate (dm_cursor (fst (dm_refresh env c))) refs ! i =
           dm_rotate (dm_cursor c) refs ! ((k + i) mod length refs) \<and>
         (k = length refs \<longrightarrow>
           dm_rotate (dm_cursor (fst (dm_refresh env c))) refs = dm_rotate (dm_cursor c) refs)"
  unfolding dm_reaches_cursor [OF assms(1)]
  using assms(2) by (simp add: dm_rotation.resumes dm_rotation.full_round)

text \<open>
  C16. The worker pool computes what the sequential reading says: in every finished run, with
  any number of workers and any interleaving, the results are those of \<open>dm_measure_all\<close> for
  the number of droplets that was handed out, and some were held back only if the context was
  done.
\<close>

theorem dm_pool_refines:
  assumes "pool_reach workers (length refs) p" and "pool_over (length refs) p"
    and "\<forall>i r. finished p i = Some r \<longrightarrow> r = dm_outcome env refs i"
  shows "pool_results (length refs) (dm_missed env refs) p =
           dm_measure_all (env\<lparr>dme_queued := handed p\<rparr>) refs \<and>
         (handed p < length refs \<longrightarrow> expired p)"
proof -
  note over = pool_over_results [OF assms(1,2)]
  have le: "handed p \<le> length refs"
    using pool_reach_inv [OF assms(1)] by (simp add: pool_inv_def)
  have "the (finished p i) = dm_outcome env refs i" if "i < handed p" for i
    using that over(1) assms(3) by (metis domD lessThan_iff option.sel)
  then have "fan_out (handed p) (\<lambda>i. the (finished p i)) (dm_missed env refs) (length refs)
      = fan_out (handed p) (dm_outcome env refs) (dm_missed env refs) (length refs)"
    by (simp add: fan_out_def)
  moreover have "dm_outcome (env\<lparr>dme_queued := handed p\<rparr>) = dm_outcome env"
    and "dm_missed (env\<lparr>dme_queued := handed p\<rparr>) = dm_missed env"
    by (simp_all add: fun_eq_iff dm_outcome_def dm_missed_def cong: sum.case_cong)
  ultimately show ?thesis
    using over(2,3) le by (simp add: dm_measure_all_def)
qed

text \<open>
  Whatever happens in its refreshes, the collector only ever sends metrics it described,
  each with one value per declared label, so no metric construction panics during a scrape.
\<close>

lemma dm_always_described:
  "well_described dm_descriptors (dm_collect (refreshes dm_refresh envs (dm_new n agent f)))"
  by (rule dropletmetrics.always_described)

section \<open>Witnesses\<close>

definition demo_fetch :: "droplet_endpoint \<Rightarrow> metrics_request \<Rightarrow> metrics_response option res" where
  "demo_fetch ep rq =
     Inr (Some \<lparr>mr_status = ''success'', mr_result =
       (if ep = GetDropletLoad1
        then [\<lparr>ss_metric = [], ss_values = [\<lparr>p_timestamp = 120000, p_value = Fin 3\<rparr>]\<rparr>] else [])\<rparr>)"

text \<open>Two droplets, of which the dispatcher hands out one before the deadline.\<close>

definition demo_env :: dm_env where
  "demo_env =
     \<lparr>dme_listing = demo_listing [demo_droplet 1 ''a'' [], demo_droplet 2 ''b'' []], dme_now = 0,
      dme_fetch = demo_fetch, dme_queued = 1, dme_after = Some (Sentinel DeadlineExceeded)\<rparr>"

definition demo_collector :: dm_collector where
  "demo_collector = dm_new 1 False zero_filter"

definition demo_refs :: "reference list" where
  "demo_refs = [\<lparr>ref_id = ''1'', ref_name = ''a''\<rparr>, \<lparr>ref_id = ''2'', ref_name = ''b''\<rparr>]"

lemma itoa_small [simp]: "itoa 1 = ''1''" "itoa 2 = ''2''" "itoa 3 = ''3''"
  by code_simp+

lemma demo_match [simp]: "match zero_filter tags region" "single_tag zero_filter = None"
  by (simp_all add: match_def match_tags_def match_region_def zero_filter_def single_tag_def)

lemma demo_lists: "dm_filter c = zero_filter \<Longrightarrow> \<not> dm_agent_only c \<Longrightarrow> dm_list_droplets demo_env c = Inr demo_refs"
  by (simp add: dm_list_droplets_def demo_env_def demo_listing_def paging_single_page
      demo_droplet_def demo_refs_def)

lemma demo_measure:
  "dm_measure demo_fetch ref start end = Inr
     \<lparr>dm_id = ref_id ref, dm_name = ref_name ref, dm_up = Fin 1, dm_sampled = Fin 120,
      dm_points = [\<lparr>pt_desc = dm_load1_desc, pt_type = GaugeValue,
                    pt_labels = [ref_id ref, ref_name ref], pt_value = Fin 3\<rparr>]\<rparr>"
  by (simp add: dm_measure_def dm_specs_def demo_fetch_def latest_def success_status_def newest_def
      dm_add_sample_def zero_dm_droplet_def unix_seconds_def of_int64_exact Let_def)

lemma demo_reaches:
  assumes "dm_filter c = zero_filter" and "\<not> dm_agent_only c" and "dm_cursor c < 2"
  shows "dm_reaches demo_env c demo_refs 1"
proof -
  have "dm_cursor c = 0 \<or> dm_cursor c = 1" using assms(3) by linarith
  then show ?thesis
    using demo_lists [OF assms(1,2)]
    by (auto simp: dm_reaches_def dm_measure_all_def fan_out_def demo_env_def demo_refs_def
        dm_rotate_def upt_rec dm_outcome_def dm_missed_def demo_measure dm_reached_def
        dm_starved_def error_list_def Let_def)
qed

lemma demo_next [simp]:
  "dm_filter (fst (dm_refresh env c)) = dm_filter c"
  "dm_agent_only (fst (dm_refresh env c)) = dm_agent_only c"
  by (simp_all add: dm_refresh_def dm_report_def dm_merge_def Let_def split: sum.splits prod.splits)

lemma demo_collector_sel [simp]:
  "dm_filter demo_collector = zero_filter" "\<not> dm_agent_only demo_collector"
  "dm_cursor demo_collector = 0" "dm_snap demo_collector = []"
  by (simp_all add: demo_collector_def dm_new_def)

lemma dm_refresh_entry_witness:
  "dm_snap (fst (dm_refresh demo_env demo_collector)) ! 0 =
     \<lparr>dm_id = ''1'', dm_name = ''a'', dm_up = Fin 1, dm_sampled = Fin 120,
      dm_points = [\<lparr>pt_desc = dm_load1_desc, pt_type = GaugeValue,
                    pt_labels = [''1'', ''a''], pt_value = Fin 3\<rparr>]\<rparr> \<and>
   dm_up (dm_snap (fst (dm_refresh demo_env demo_collector)) ! 1) = Fin 0"
proof -
  have l: "dm_list_droplets demo_env demo_collector = Inr demo_refs" by (simp add: demo_lists)
  show ?thesis
    using dm_refresh_entry [OF l, of 0] dm_refresh_entry [OF l, of 1]
    by (simp add: demo_refs_def dm_rotate_def demo_env_def demo_measure dm_stale_def Let_def)
qed

lemma demo_reaches_first: "dm_reaches demo_env demo_collector demo_refs 1"
  by (rule demo_reaches) simp_all

lemma dm_rotation_covers_witness:
  "set demo_refs \<subseteq> dm_attempted demo_refs [demo_env, demo_env] demo_collector"
proof -
  have "dm_cursor (fst (dm_refresh demo_env demo_collector)) < 2"
    by (simp add: dm_reaches_cursor [OF demo_reaches_first] dm_advance_def demo_refs_def)
  then have "dm_reaches demo_env (fst (dm_refresh demo_env demo_collector)) demo_refs 1"
    by (intro demo_reaches) simp_all
  with demo_reaches_first
  have "dm_progress demo_refs [(demo_env, 1), (demo_env, 1)] demo_collector" by simp
  from dm_rotation_covers [OF this] show ?thesis by (simp add: demo_refs_def)
qed

lemma dm_refresh_resumes_witness:
  "dm_rotate (dm_cursor (fst (dm_refresh demo_env demo_collector))) demo_refs ! 0 = demo_refs ! 1"
  using dm_refresh_resumes [OF demo_reaches_first, of 0]
  by (simp add: demo_refs_def dm_rotate_def)

definition demo_pool :: "dm_result pool" where
  "demo_pool = \<lparr>handed = 1, stopped = True, busy = {},
     finished = [0 \<mapsto> dm_outcome demo_env demo_refs 0], expired = True\<rparr>"

lemma demo_pool_reach: "pool_reach 1 2 demo_pool"
proof -
  let ?p1 = "(pool_start :: dm_result pool)\<lparr>handed := 1, busy := {0}\<rparr>"
  let ?p2 = "?p1\<lparr>busy := {}, finished := [0 \<mapsto> dm_outcome demo_env demo_refs 0]\<rparr>"
  have "pool_step 1 2 pool_start ?p1"
    using hand_out [of pool_start 2 1] by (simp add: pool_start_def)
  moreover have "pool_step 1 2 ?p1 ?p2"
    using finish [of 0 ?p1 1 2] by (simp add: pool_start_def)
  moreover have "pool_step 1 2 ?p2 (?p2\<lparr>expired := True\<rparr>)" by (rule expire)
  moreover have "pool_step 1 2 (?p2\<lparr>expired := True\<rparr>) demo_pool"
    using stop [of "?p2\<lparr>expired := True\<rparr>" 2 1] by (simp add: pool_start_def demo_pool_def)
  ultimately show ?thesis by (meson pool_init pool_next)
qed

lemma dm_pool_refines_witness:
  "pool_results 2 (dm_missed demo_env demo_refs) demo_pool = dm_measure_all demo_env demo_refs"
proof -
  have two: "length demo_refs = 2" by (simp add: demo_refs_def)
  have "pool_reach 1 (length demo_refs) demo_pool"
    unfolding two by (rule demo_pool_reach)
  moreover have "pool_over (length demo_refs) demo_pool"
    and "\<forall>i r. finished demo_pool i = Some r \<longrightarrow> r = dm_outcome demo_env demo_refs i"
    by (simp_all add: pool_over_def demo_pool_def)
  moreover have "demo_env\<lparr>dme_queued := handed demo_pool\<rparr> = demo_env"
    by (simp add: demo_env_def demo_pool_def)
  ultimately show ?thesis
    using dm_pool_refines [of 1 demo_refs demo_pool demo_env] unfolding two by simp
qed

section \<open>Where the code and its documentation differ\<close>

text \<open>
  The interface says that a failed refresh leaves the previous snapshot untouched. This
  collector merges first and reports afterwards: a refresh that is cut short returns an error
  and has replaced the snapshot.
\<close>

lemma dm_failed_refresh_replaces:
  "snd (dm_refresh demo_env demo_collector) \<noteq> None \<and>
   dm_snap demo_collector = [] \<and>
   map dm_id (dm_snap (fst (dm_refresh demo_env demo_collector))) = [''1'', ''2'']"
proof -
  have l: "dm_list_droplets demo_env demo_collector = Inr demo_refs" by (simp add: demo_lists)
  then show ?thesis
    by (simp add: dm_refresh_success dm_refresh_snap dm_merge_ids)
      (simp add: demo_env_def demo_refs_def dm_rotate_def)
qed










text \<open>
  With two workers there is a run that leaves the first droplet behind: its requests run into the
  deadline while the other droplets are measured.
\<close>

definition skip_fetch ::
  "string \<Rightarrow> droplet_endpoint \<Rightarrow> metrics_request \<Rightarrow> metrics_response option res" where
  "skip_fetch i ep rq =
     (if rq_id rq = i then Inl (Sentinel DeadlineExceeded) else demo_fetch ep rq)"

definition skip_env :: "dm_env \<Rightarrow> dm_collector \<Rightarrow> reference list \<Rightarrow> dm_env" where
  "skip_env env c refs =
     env\<lparr>dme_fetch := skip_fetch (ref_id (dm_rotate (dm_cursor c) refs ! 0)),
         dme_queued := length refs, dme_after := Some (Sentinel DeadlineExceeded)\<rparr>"






lemma skip_env_sel [simp]:
  "dme_queued (skip_env env c refs) = length refs"
  "dme_after (skip_env env c refs) = Some (Sentinel DeadlineExceeded)"
  by (simp_all add: skip_env_def)





end
