(* ===== verification/Loadbalancer_Metrics.thy ===== *)
theory Loadbalancer_Metrics
  imports Droplet_Metrics
begin

text \<open>
  internal/collector/loadbalancermetrics: the traffic of every load balancer, through the same
  fan-out as the droplet metrics collector. What differs is the listing, the metric tables and
  the extended set, whose failures are contained unless they are the refresh running out of
  time. Every metric is a gauge.
\<close>

section \<open>Descriptors and specs\<close>

definition lb_identity :: "string list" where
  "lb_identity = [''id'', ''name'']"

definition lb_labels_with :: "string list \<Rightarrow> string list" where
  "lb_labels_with extra = lb_identity @ extra"

definition lb_connections_desc :: desc where
  "lb_connections_desc =
     Desc ''digitalocean_loadbalancer_frontend_connections_current'' lb_identity"

definition lb_connections_limit_desc :: desc where
  "lb_connections_limit_desc =
     Desc ''digitalocean_loadbalancer_frontend_connections_limit'' lb_identity"

definition lb_cpu_desc :: desc where
  "lb_cpu_desc =
     Desc ''digitalocean_loadbalancer_frontend_cpu_utilization_percent'' lb_identity"

definition lb_responses_desc :: desc where
  "lb_responses_desc =
     Desc ''digitalocean_loadbalancer_frontend_http_responses_per_second'' (lb_labels_with [''code''])"

definition lb_health_desc :: desc where
  "lb_health_desc =
     Desc ''digitalocean_loadbalancer_droplets_health_checks'' (lb_labels_with [''server''])"

definition lb_downtime_desc :: desc where
  "lb_downtime_desc =
     Desc ''digitalocean_loadbalancer_droplets_downtime'' (lb_labels_with [''server''])"

definition lb_response_time_desc :: desc where
  "lb_response_time_desc =
     Desc ''digitalocean_loadbalancer_droplets_http_response_time_p95_seconds'' lb_identity"

definition lb_up_desc :: desc where
  "lb_up_desc =
     Desc ''digitalocean_loadbalancer_metrics_up'' lb_identity"

definition lb_sampled_desc :: desc where
  "lb_sampled_desc =
     Desc ''digitalocean_loadbalancer_metrics_timestamp_seconds'' lb_identity"

definition lb_requests_desc :: desc where
  "lb_requests_desc =
     Desc ''digitalocean_loadbalancer_frontend_http_requests_per_second'' lb_identity"

definition lb_throughput_httpdesc :: desc where
  "lb_throughput_httpdesc =
     Desc ''digitalocean_loadbalancer_frontend_network_throughput_http_bytes_per_second'' lb_identity"

definition lb_throughput_udpdesc :: desc where
  "lb_throughput_udpdesc =
     Desc ''digitalocean_loadbalancer_frontend_network_throughput_udp_bytes_per_second'' lb_identity"

definition lb_throughput_tcpdesc :: desc where
  "lb_throughput_tcpdesc =
     Desc ''digitalocean_loadbalancer_frontend_network_throughput_tcp_bytes_per_second'' lb_identity"

definition lb_nlb_throughput_tcpdesc :: desc where
  "lb_nlb_throughput_tcpdesc =
     Desc ''digitalocean_loadbalancer_frontend_nlb_tcp_network_throughput_bytes_per_second'' lb_identity"

definition lb_nlb_throughput_udpdesc :: desc where
  "lb_nlb_throughput_udpdesc =
     Desc ''digitalocean_loadbalancer_frontend_nlb_udp_network_throughput_bytes_per_second'' lb_identity"

definition lb_firewall_bytes_desc :: desc where
  "lb_firewall_bytes_desc =
     Desc ''digitalocean_loadbalancer_frontend_firewall_dropped_bytes_per_second'' lb_identity"

definition lb_firewall_packets_desc :: desc where
  "lb_firewall_packets_desc =
     Desc ''digitalocean_loadbalancer_frontend_firewall_dropped_packets_per_second'' lb_identity"

definition lb_tls_connections_desc :: desc where
  "lb_tls_connections_desc =
     Desc ''digitalocean_loadbalancer_frontend_tls_connections_current'' lb_identity"

definition lb_tls_connections_limit_desc :: desc where
  "lb_tls_connections_limit_desc =
     Desc ''digitalocean_loadbalancer_frontend_tls_connections_limit'' lb_identity"

definition lb_tls_exceeding_desc :: desc where
  "lb_tls_exceeding_desc =
     Desc ''digitalocean_loadbalancer_frontend_tls_connections_exceeding_rate_limit'' lb_identity"

definition lb_backend_connections_desc :: desc where
  "lb_backend_connections_desc =
     Desc ''digitalocean_loadbalancer_droplets_connections'' (lb_labels_with [''server''])"

definition lb_queue_size_desc :: desc where
  "lb_queue_size_desc =
     Desc ''digitalocean_loadbalancer_droplets_queue_size'' lb_identity"

definition lb_backend_responses_desc :: desc where
  "lb_backend_responses_desc =
     Desc ''digitalocean_loadbalancer_droplets_http_responses_per_second'' (lb_labels_with [''code''])"

definition lb_session_avg_desc :: desc where
  "lb_session_avg_desc =
     Desc ''digitalocean_loadbalancer_droplets_http_session_duration_avg_seconds'' lb_identity"

definition lb_session_p50_desc :: desc where
  "lb_session_p50_desc =
     Desc ''digitalocean_loadbalancer_droplets_http_session_duration_p50_seconds'' lb_identity"

definition lb_session_p95_desc :: desc where
  "lb_session_p95_desc =
     Desc ''digitalocean_loadbalancer_droplets_http_session_duration_p95_seconds'' lb_identity"

definition lb_response_time_avg_desc :: desc where
  "lb_response_time_avg_desc =
     Desc ''digitalocean_loadbalancer_droplets_http_response_time_avg_seconds'' lb_identity"

definition lb_response_time_p50_desc :: desc where
  "lb_response_time_p50_desc =
     Desc ''digitalocean_loadbalancer_droplets_http_response_time_p50_seconds'' lb_identity"

definition lb_response_time_p99_desc :: desc where
  "lb_response_time_p99_desc =
     Desc ''digitalocean_loadbalancer_droplets_http_response_time_p99_seconds'' lb_identity"

definition lb_descriptors :: "desc list" where
  "lb_descriptors =
     [lb_connections_desc, lb_connections_limit_desc, lb_cpu_desc, lb_responses_desc,
      lb_health_desc, lb_downtime_desc, lb_response_time_desc, lb_up_desc, lb_sampled_desc,
      lb_requests_desc, lb_throughput_httpdesc, lb_throughput_udpdesc, lb_throughput_tcpdesc,
      lb_nlb_throughput_tcpdesc, lb_nlb_throughput_udpdesc, lb_firewall_bytes_desc,
      lb_firewall_packets_desc, lb_tls_connections_desc, lb_tls_connections_limit_desc,
      lb_tls_exceeding_desc, lb_backend_connections_desc, lb_queue_size_desc,
      lb_backend_responses_desc, lb_session_avg_desc, lb_session_p50_desc,
      lb_session_p95_desc, lb_response_time_avg_desc, lb_response_time_p50_desc,
      lb_response_time_p99_desc]"

lemmas lb_desc_defs =
  lb_connections_desc_def lb_connections_limit_desc_def lb_cpu_desc_def
  lb_responses_desc_def lb_health_desc_def lb_downtime_desc_def
  lb_response_time_desc_def lb_up_desc_def lb_sampled_desc_def lb_requests_desc_def
  lb_throughput_httpdesc_def lb_throughput_udpdesc_def lb_throughput_tcpdesc_def
  lb_nlb_throughput_tcpdesc_def lb_nlb_throughput_udpdesc_def
  lb_firewall_bytes_desc_def lb_firewall_packets_desc_def lb_tls_connections_desc_def
  lb_tls_connections_limit_desc_def lb_tls_exceeding_desc_def
  lb_backend_connections_desc_def lb_queue_size_desc_def lb_backend_responses_desc_def
  lb_session_avg_desc_def lb_session_p50_desc_def lb_session_p95_desc_def
  lb_response_time_avg_desc_def lb_response_time_p50_desc_def
  lb_response_time_p99_desc_def
  lb_labels_with_def lb_identity_def

text \<open>A spec's fetch closure is the monitoring endpoint it calls, one constructor per method.\<close>

datatype lb_endpoint =
    GetLoadBalancerFrontendConnectionsCurrent
  | GetLoadBalancerFrontendConnectionsLimit
  | GetLoadBalancerFrontendCpuUtilization
  | GetLoadBalancerFrontendHttpResponses
  | GetLoadBalancerDropletsHealthChecks
  | GetLoadBalancerDropletsDowntime
  | GetLoadBalancerDropletsHttpResponseTime95P
  | GetLoadBalancerFrontendHttpRequestsPerSecond
  | GetLoadBalancerFrontendNetworkThroughputHttp
  | GetLoadBalancerFrontendNetworkThroughputUdp
  | GetLoadBalancerFrontendNetworkThroughputTcp
  | GetLoadBalancerFrontendNlbTcpNetworkThroughput
  | GetLoadBalancerFrontendNlbUdpNetworkThroughput
  | GetLoadBalancerFrontendFirewallDroppedBytes
  | GetLoadBalancerFrontendFirewallDroppedPackets
  | GetLoadBalancerFrontendTlsConnectionsCurrent
  | GetLoadBalancerFrontendTlsConnectionsLimit
  | GetLoadBalancerFrontendTlsConnectionsExceedingRateLimit
  | GetLoadBalancerDropletsConnections
  | GetLoadBalancerDropletsQueueSize
  | GetLoadBalancerDropletsHttpResponses
  | GetLoadBalancerDropletsHttpSessionDurationAvg
  | GetLoadBalancerDropletsHttpSessionDuration50P
  | GetLoadBalancerDropletsHttpSessionDuration95P
  | GetLoadBalancerDropletsHttpResponseTimeAvg
  | GetLoadBalancerDropletsHttpResponseTime50P
  | GetLoadBalancerDropletsHttpResponseTime99P

record lb_spec =
  ls_name :: string
  ls_desc :: desc
  ls_series_labels :: "string list"
  ls_fetch :: lb_endpoint

definition lb_specs :: "lb_spec list" where
  "lb_specs =
     [\<lparr>ls_name = ''frontend_connections_current'', ls_desc = lb_connections_desc,
        ls_series_labels = [], ls_fetch = GetLoadBalancerFrontendConnectionsCurrent\<rparr>,
      \<lparr>ls_name = ''frontend_connections_limit'', ls_desc = lb_connections_limit_desc,
        ls_series_labels = [], ls_fetch = GetLoadBalancerFrontendConnectionsLimit\<rparr>,
      \<lparr>ls_name = ''frontend_cpu_utilization'', ls_desc = lb_cpu_desc,
        ls_series_labels = [], ls_fetch = GetLoadBalancerFrontendCpuUtilization\<rparr>,
      \<lparr>ls_name = ''frontend_http_responses'', ls_desc = lb_responses_desc,
        ls_series_labels = [''code''], ls_fetch = GetLoadBalancerFrontendHttpResponses\<rparr>,
      \<lparr>ls_name = ''droplets_health_checks'', ls_desc = lb_health_desc,
        ls_series_labels = [''server''], ls_fetch = GetLoadBalancerDropletsHealthChecks\<rparr>,
      \<lparr>ls_name = ''droplets_downtime'', ls_desc = lb_downtime_desc,
        ls_series_labels = [''server''], ls_fetch = GetLoadBalancerDropletsDowntime\<rparr>,
      \<lparr>ls_name = ''droplets_http_response_time_95p'', ls_desc = lb_response_time_desc,
        ls_series_labels = [], ls_fetch = GetLoadBalancerDropletsHttpResponseTime95P\<rparr>]"

definition lb_extended_specs :: "lb_spec list" where
  "lb_extended_specs =
     [\<lparr>ls_name = ''frontend_http_requests_per_second'', ls_desc = lb_requests_desc,
        ls_series_labels = [], ls_fetch = GetLoadBalancerFrontendHttpRequestsPerSecond\<rparr>,
      \<lparr>ls_name = ''frontend_network_throughput_http'', ls_desc = lb_throughput_httpdesc,
        ls_series_labels = [], ls_fetch = GetLoadBalancerFrontendNetworkThroughputHttp\<rparr>,
      \<lparr>ls_name = ''frontend_network_throughput_udp'', ls_desc = lb_throughput_udpdesc,
        ls_series_labels = [], ls_fetch = GetLoadBalancerFrontendNetworkThroughputUdp\<rparr>,
      \<lparr>ls_name = ''frontend_network_throughput_tcp'', ls_desc = lb_throughput_tcpdesc,
        ls_series_labels = [], ls_fetch = GetLoadBalancerFrontendNetworkThroughputTcp\<rparr>,
      \<lparr>ls_name = ''frontend_nlb_tcp_network_throughput'', ls_desc = lb_nlb_throughput_tcpdesc,
        ls_series_labels = [], ls_fetch = GetLoadBalancerFrontendNlbTcpNetworkThroughput\<rparr>,
      \<lparr>ls_name = ''frontend_nlb_udp_network_throughput'', ls_desc = lb_nlb_throughput_udpdesc,
        ls_series_labels = [], ls_fetch = GetLoadBalancerFrontendNlbUdpNetworkThroughput\<rparr>,
      \<lparr>ls_name = ''frontend_firewall_dropped_bytes'', ls_desc = lb_firewall_bytes_desc,
        ls_series_labels = [], ls_fetch = GetLoadBalancerFrontendFirewallDroppedBytes\<rparr>,
      \<lparr>ls_name = ''frontend_firewall_dropped_packets'', ls_desc = lb_firewall_packets_desc,
        ls_series_labels = [], ls_fetch = GetLoadBalancerFrontendFirewallDroppedPackets\<rparr>,
      \<lparr>ls_name = ''frontend_tls_connections_current'', ls_desc = lb_tls_connections_desc,
        ls_series_labels = [], ls_fetch = GetLoadBalancerFrontendTlsConnectionsCurrent\<rparr>,
      \<lparr>ls_name = ''frontend_tls_connections_limit'', ls_desc = lb_tls_connections_limit_desc,
        ls_series_labels = [], ls_fetch = GetLoadBalancerFrontendTlsConnectionsLimit\<rparr>,
      \<lparr>ls_name = ''frontend_tls_connections_exceeding_rate_limit'', ls_desc = lb_tls_exceeding_desc,
        ls_series_labels = [], ls_fetch = GetLoadBalancerFrontendTlsConnectionsExceedingRateLimit\<rparr>,
      \<lparr>ls_name = ''droplets_connections'', ls_desc = lb_backend_connections_desc,
        ls_series_labels = [''server''], ls_fetch = GetLoadBalancerDropletsConnections\<rparr>,
      \<lparr>ls_name = ''droplets_queue_size'', ls_desc = lb_queue_size_desc,
        ls_series_labels = [], ls_fetch = GetLoadBalancerDropletsQueueSize\<rparr>,
      \<lparr>ls_name = ''droplets_http_responses'', ls_desc = lb_backend_responses_desc,
        ls_series_labels = [''code''], ls_fetch = GetLoadBalancerDropletsHttpResponses\<rparr>,
      \<lparr>ls_name = ''droplets_http_session_duration_avg'', ls_desc = lb_session_avg_desc,
        ls_series_labels = [], ls_fetch = GetLoadBalancerDropletsHttpSessionDurationAvg\<rparr>,
      \<lparr>ls_name = ''droplets_http_session_duration_50p'', ls_desc = lb_session_p50_desc,
        ls_series_labels = [], ls_fetch = GetLoadBalancerDropletsHttpSessionDuration50P\<rparr>,
      \<lparr>ls_name = ''droplets_http_session_duration_95p'', ls_desc = lb_session_p95_desc,
        ls_series_labels = [], ls_fetch = GetLoadBalancerDropletsHttpSessionDuration95P\<rparr>,
      \<lparr>ls_name = ''droplets_http_response_time_avg'', ls_desc = lb_response_time_avg_desc,
        ls_series_labels = [], ls_fetch = GetLoadBalancerDropletsHttpResponseTimeAvg\<rparr>,
      \<lparr>ls_name = ''droplets_http_response_time_50p'', ls_desc = lb_response_time_p50_desc,
        ls_series_labels = [], ls_fetch = GetLoadBalancerDropletsHttpResponseTime50P\<rparr>,
      \<lparr>ls_name = ''droplets_http_response_time_99p'', ls_desc = lb_response_time_p99_desc,
        ls_series_labels = [], ls_fetch = GetLoadBalancerDropletsHttpResponseTime99P\<rparr>]"

section \<open>State\<close>

record godo_load_balancer =
  glb_id :: string
  glb_name :: string
  glb_tags :: "string list"
  glb_region :: "string option"

record lb_point =
  lbp_desc :: desc
  lbp_labels :: "string list"
  lbp_value :: float64

record load_balancer =
  lb_id :: string
  lb_name :: string
  lb_up :: float64
  lb_sampled :: float64
  lb_points :: "lb_point list"

record lb_result =
  lbr_measured :: load_balancer
  lbr_ref :: reference
  lbr_err :: "goerr option"

record lb_collector =
  lbc_concurrency :: int
  lbc_extended :: bool
  lbc_filter :: filter_conf
  lbc_snap :: "load_balancer list"
  lbc_cursor :: nat

definition lb_new :: "int \<Rightarrow> bool \<Rightarrow> filter_conf \<Rightarrow> lb_collector" where
  "lb_new concurrency extended f =
     \<lparr>lbc_concurrency = (if concurrency < 1 then 1 else concurrency), lbc_extended = extended,
      lbc_filter = f, lbc_snap = [], lbc_cursor = 0\<rparr>"

definition zero_load_balancer :: load_balancer where
  "zero_load_balancer =
     \<lparr>lb_id = [], lb_name = [], lb_up = Fin 0, lb_sampled = Fin 0, lb_points = []\<rparr>"

type_synonym lb_fetcher = "lb_endpoint \<Rightarrow> metrics_request \<Rightarrow> metrics_response option res"

record lb_env =
  lbe_ctx :: ctx
  lbe_list :: "godo_load_balancer list_func"
  lbe_now :: int
  lbe_fetch :: lb_fetcher
  lbe_queued :: nat
  lbe_after :: "goerr option"

definition lb_window :: int where "lb_window = 10 * minute"

section \<open>Operations\<close>

definition lb_region_slug :: "godo_load_balancer \<Rightarrow> string" where
  "lb_region_slug lb = (case glb_region lb of None \<Rightarrow> [] | Some slug \<Rightarrow> slug)"

definition lb_list_load_balancers :: "lb_env \<Rightarrow> lb_collector \<Rightarrow> reference list res" where
  "lb_list_load_balancers env c =
     (case fst (paging_all (lbe_ctx env) ''load balancers'' glb_id (lbe_list env)) of
        Inl e \<Rightarrow> Inl e
      | Inr balancers \<Rightarrow>
          Inr (map (\<lambda>lb. \<lparr>ref_id = glb_id lb, ref_name = glb_name lb\<rparr>)
                (filter (\<lambda>lb. match (lbc_filter c) (glb_tags lb) (lb_region_slug lb)) balancers)))"

definition lb_starved :: "goerr \<Rightarrow> bool" where
  "lb_starved e \<longleftrightarrow> errors_is e Canceled \<or> errors_is e DeadlineExceeded"

definition lb_rotate :: "nat \<Rightarrow> 'r list \<Rightarrow> 'r list" where
  "lb_rotate cursor refs =
     (if length refs = 0 then refs
      else let from = cursor mod length refs in drop from refs @ take from refs)"

definition lb_advance :: "nat \<Rightarrow> nat \<Rightarrow> nat \<Rightarrow> nat" where
  "lb_advance cursor by n = (if n = 0 then cursor else (cursor + by) mod n)"

definition lb_add_sample :: "lb_spec \<Rightarrow> load_balancer \<Rightarrow> sample \<Rightarrow> load_balancer" where
  "lb_add_sample s out sample =
     (let labels = [lb_id out, lb_name out] @ map (sample_label sample) (ls_series_labels s);
          secs = of_int64 (unix_seconds (s_time sample));
          out' = out\<lparr>lb_points := lb_points out @
                   [\<lparr>lbp_desc = ls_desc s, lbp_labels = labels, lbp_value = s_value sample\<rparr>]\<rparr>
      in if flt_less (lb_sampled out') secs then out'\<lparr>lb_sampled := secs\<rparr> else out')"

text \<open>\<open>fetch\<close> appends to \<open>out\<close> only once both the request and the reading succeeded.\<close>

definition lb_fetch_spec ::
  "lb_fetcher \<Rightarrow> metrics_request \<Rightarrow> lb_spec \<Rightarrow> load_balancer \<Rightarrow> load_balancer res" where
  "lb_fetch_spec fetch req s out =
     (case fetch (ls_fetch s) req of
        Inl e \<Rightarrow> Inl (Wrap (''fetch '' @ ls_name s) [e])
      | Inr resp \<Rightarrow>
          (case latest resp of
             Inl e \<Rightarrow> Inl (Wrap (''read '' @ ls_name s) [e])
           | Inr samples \<Rightarrow> Inr (foldl (lb_add_sample s) out samples)))"

fun lb_measure_base ::
  "lb_fetcher \<Rightarrow> metrics_request \<Rightarrow> lb_spec list \<Rightarrow> load_balancer \<Rightarrow> load_balancer res" where
  "lb_measure_base fetch req [] out = Inr out"
| "lb_measure_base fetch req (s # specs) out =
     (case lb_fetch_spec fetch req s out of
        Inl e \<Rightarrow> Inl e
      | Inr out' \<Rightarrow> lb_measure_base fetch req specs out')"

fun lb_measure_extended ::
  "lb_fetcher \<Rightarrow> metrics_request \<Rightarrow> lb_spec list \<Rightarrow> load_balancer \<Rightarrow> load_balancer res" where
  "lb_measure_extended fetch req [] out = Inr out"
| "lb_measure_extended fetch req (s # specs) out =
     (case lb_fetch_spec fetch req s out of
        Inr out' \<Rightarrow> lb_measure_extended fetch req specs out'
      | Inl e \<Rightarrow> if lb_starved e then Inl e else lb_measure_extended fetch req specs out)"

definition lb_measure ::
  "lb_fetcher \<Rightarrow> bool \<Rightarrow> reference \<Rightarrow> int \<Rightarrow> int \<Rightarrow> load_balancer res" where
  "lb_measure fetch extended ref start end =
     (let req = \<lparr>rq_id = ref_id ref, rq_start = start, rq_end = end\<rparr>;
          out = zero_load_balancer\<lparr>lb_id := ref_id ref, lb_name := ref_name ref, lb_up := Fin 1\<rparr>
      in case lb_measure_base fetch req lb_specs out of
           Inl e \<Rightarrow> Inl e
         | Inr out' \<Rightarrow>
             if \<not> extended then Inr out'
             else lb_measure_extended fetch req lb_extended_specs out')"

definition lb_outcome :: "lb_env \<Rightarrow> bool \<Rightarrow> reference list \<Rightarrow> nat \<Rightarrow> lb_result" where
  "lb_outcome env extended refs i =
     (case lb_measure (lbe_fetch env) extended (refs ! i) (wrap64 (lbe_now env - lb_window))
             (lbe_now env) of
        Inl e \<Rightarrow> \<lparr>lbr_measured = zero_load_balancer, lbr_ref = refs ! i, lbr_err = Some e\<rparr>
      | Inr lb \<Rightarrow> \<lparr>lbr_measured = lb, lbr_ref = refs ! i, lbr_err = None\<rparr>)"

definition lb_missed :: "lb_env \<Rightarrow> reference list \<Rightarrow> nat \<Rightarrow> lb_result" where
  "lb_missed env refs i =
     \<lparr>lbr_measured = zero_load_balancer, lbr_ref = refs ! i,
      lbr_err = Some (Wrap ''not measured'' (error_list (lbe_after env)))\<rparr>"

definition lb_measure_all :: "lb_env \<Rightarrow> bool \<Rightarrow> reference list \<Rightarrow> lb_result list" where
  "lb_measure_all env extended refs =
     fan_out (min (lbe_queued env) (length refs)) (lb_outcome env extended refs)
       (lb_missed env refs) (length refs)"

definition lb_previous :: "load_balancer list \<Rightarrow> string \<rightharpoonup> load_balancer" where
  "lb_previous snap = foldl (\<lambda>m lb. m(lb_id lb \<mapsto> lb)) Map.empty snap"

definition lb_merged :: "(string \<rightharpoonup> load_balancer) \<Rightarrow> lb_result \<Rightarrow> load_balancer" where
  "lb_merged previous r =
     (case lbr_err r of
        None \<Rightarrow> lbr_measured r
      | Some _ \<Rightarrow>
          (let stale = (case previous (ref_id (lbr_ref r)) of
                          None \<Rightarrow> zero_load_balancer
                        | Some lb \<Rightarrow> lb)
           in stale\<lparr>lb_id := ref_id (lbr_ref r), lb_name := ref_name (lbr_ref r), lb_up := Fin 0\<rparr>))"

definition lb_merge :: "lb_result list \<Rightarrow> lb_collector \<Rightarrow> lb_collector" where
  "lb_merge results c = c\<lparr>lbc_snap := map (lb_merged (lb_previous (lbc_snap c))) results\<rparr>"

fun lb_counts :: "nat \<Rightarrow> nat \<Rightarrow> lb_result list \<Rightarrow> nat \<times> nat" where
  "lb_counts measured reached [] = (measured, reached)"
| "lb_counts measured reached (r # rs) =
     (case lbr_err r of
        None \<Rightarrow> lb_counts (Suc measured) (Suc reached) rs
      | Some e \<Rightarrow> lb_counts measured (if lb_starved e then reached else Suc reached) rs)"

definition lb_report ::
  "goerr option \<Rightarrow> lb_result list \<Rightarrow> lb_collector \<Rightarrow> lb_collector \<times> goerr option" where
  "lb_report after results c =
     (case lb_counts 0 0 results of
        (measured, reached) \<Rightarrow>
          (c\<lparr>lbc_cursor := lb_advance (lbc_cursor c) reached (length results)\<rparr>,
           (case after of
              Some e \<Rightarrow>
                Some (Wrap (''measured '' @ itoa (int measured) @ '' of '' @
                              itoa (int (length results)) @ '' load balancers'')
                       [Sentinel ErrRefreshCutShort, e])
            | None \<Rightarrow>
                if measured = 0 \<and> 0 < length results
                then Some (Wrap (itoa (int (length results)) @ '' attempted, last error'')
                       (Sentinel ErrNoLoadBalancerMeasured # error_list (lbr_err (last results))))
                else None)))"

definition lb_refresh :: "lb_env \<Rightarrow> lb_collector \<Rightarrow> lb_collector \<times> goerr option" where
  "lb_refresh env c =
     (case lb_list_load_balancers env c of
        Inl e \<Rightarrow> (c, Some e)
      | Inr refs \<Rightarrow>
          (let results = lb_measure_all env (lbc_extended c) (lb_rotate (lbc_cursor c) refs)
           in lb_report (lbe_after env) results (lb_merge results c)))"

definition lb_metrics :: "load_balancer \<Rightarrow> metric list" where
  "lb_metrics lb =
     [gauge lb_up_desc (lb_up lb) [lb_id lb, lb_name lb]]
     @ (if flt_less (Fin 0) (lb_sampled lb)
        then [gauge lb_sampled_desc (lb_sampled lb) [lb_id lb, lb_name lb]] else [])
     @ map (\<lambda>p. gauge (lbp_desc p) (lbp_value p) (lbp_labels p)) (lb_points lb)"

definition lb_collect :: "lb_collector \<Rightarrow> metric list" where
  "lb_collect c = concat (map lb_metrics (lbc_snap c))"

section \<open>Rotation and report\<close>

lemma lb_rotate_list: "lb_rotate cursor refs = List.rotate cursor refs"
  by (cases refs) (simp_all add: lb_rotate_def rotate_drop_take Let_def)

interpretation lb_rotation: rotation lb_rotate lb_advance
  by unfold_locales (simp_all add: lb_rotate_list nth_rotate lb_advance_def)

definition lb_reached :: "lb_result \<Rightarrow> bool" where
  "lb_reached r \<longleftrightarrow> (case lbr_err r of None \<Rightarrow> True | Some e \<Rightarrow> \<not> lb_starved e)"

lemma lb_counts_eq:
  "lb_counts m k results =
     (m + length (filter (\<lambda>r. lbr_err r = None) results), k + length (filter lb_reached results))"
  by (induction results arbitrary: m k) (auto simp: lb_reached_def split: option.splits)

lemma lb_report_snap [simp]: "lbc_snap (fst (lb_report after results c)) = lbc_snap c"
  by (simp add: lb_report_def split: prod.splits)

lemma lb_report_error:
  "snd (lb_report after results c) = None \<longleftrightarrow>
     after = None \<and> (results = [] \<or> (\<exists>r \<in> set results. lbr_err r = None))"
  by (auto simp: lb_report_def lb_counts_eq filter_empty_conv split: option.splits)

section \<open>The invariant of the snapshot\<close>

definition lb_point_desc :: "desc \<Rightarrow> bool" where
  "lb_point_desc d \<longleftrightarrow>
     d \<in> set lb_descriptors \<and> fq_name d \<notin> {fq_name lb_up_desc, fq_name lb_sampled_desc}"

definition lb_point_ok :: "string \<Rightarrow> lb_point \<Rightarrow> bool" where
  "lb_point_ok i p \<longleftrightarrow>
     lb_point_desc (lbp_desc p) \<and> length (lbp_labels p) = length (var_labels (lbp_desc p)) \<and>
     lbp_labels p ! 0 = i"

definition lb_entry_ok :: "load_balancer \<Rightarrow> bool" where
  "lb_entry_ok lb \<longleftrightarrow> (\<forall>p \<in> set (lb_points lb). lb_point_ok (lb_id lb) p)"

definition lb_ok :: "lb_collector \<Rightarrow> bool" where
  "lb_ok c \<longleftrightarrow> distinct (map lb_id (lbc_snap c)) \<and> (\<forall>lb \<in> set (lbc_snap c). lb_entry_ok lb)"

definition lb_spec_ok :: "lb_spec \<Rightarrow> bool" where
  "lb_spec_ok s \<longleftrightarrow>
     lb_point_desc (ls_desc s) \<and> var_labels (ls_desc s) = lb_labels_with (ls_series_labels s)"

lemma lb_specs_described:
  "set (map ls_desc (lb_specs @ lb_extended_specs)) \<subseteq> set lb_descriptors"
  unfolding lb_specs_def lb_extended_specs_def lb_descriptors_def
    list.map append.simps lb_spec.select_convs list.set
  by (simp only: insert_subset insert_iff simp_thms empty_subsetI)

lemma lb_specs_names:
  "list_all (\<lambda>s. fq_name (ls_desc s) \<noteq> fq_name lb_up_desc \<and>
     fq_name (ls_desc s) \<noteq> fq_name lb_sampled_desc) (lb_specs @ lb_extended_specs)"
  unfolding lb_specs_def lb_extended_specs_def append.simps list.pred_inject lb_spec.select_convs
  by (simp only: list.pred_inject(1) lb_desc_defs desc.sel list.inject list.distinct char.inject simp_thms)

lemma lb_specs_labels:
  "\<forall>s \<in> set (lb_specs @ lb_extended_specs). var_labels (ls_desc s) = lb_labels_with (ls_series_labels s)"
  unfolding lb_specs_def lb_extended_specs_def append.simps list.set ball_simps
    lb_spec.select_convs lb_desc_defs desc.sel by simp

lemma lb_specs_ok: "s \<in> set lb_specs \<union> set lb_extended_specs \<Longrightarrow> lb_spec_ok s"
  using lb_specs_described lb_specs_labels lb_specs_names
  unfolding lb_spec_ok_def lb_point_desc_def set_map set_append list_all_iff by blast

lemma lb_add_sample_ok:
  "lb_spec_ok s \<Longrightarrow> lb_entry_ok out \<Longrightarrow> lb_entry_ok (lb_add_sample s out x)"
  by (auto simp: lb_add_sample_def lb_entry_ok_def lb_point_ok_def lb_spec_ok_def Let_def
      lb_labels_with_def lb_identity_def)

lemma lb_add_samples_ok:
  "lb_spec_ok s \<Longrightarrow> lb_entry_ok out \<Longrightarrow> lb_entry_ok (foldl (lb_add_sample s) out xs)"
  by (induction xs arbitrary: out) (simp_all add: lb_add_sample_ok)

lemma lb_add_samples_id: "lb_id (foldl (lb_add_sample s) out xs) = lb_id out"
  by (induction xs arbitrary: out) (simp_all add: lb_add_sample_def Let_def)

lemma lb_fetch_spec_ok:
  "lb_fetch_spec fetch req s out = Inr out' \<Longrightarrow> lb_spec_ok s \<Longrightarrow> lb_entry_ok out \<Longrightarrow>
     lb_entry_ok out' \<and> lb_id out' = lb_id out"
  by (auto simp: lb_fetch_spec_def lb_add_samples_ok lb_add_samples_id split: sum.splits)

lemma lb_measure_base_ok:
  "lb_measure_base fetch req specs out = Inr out' \<Longrightarrow> (\<forall>s \<in> set specs. lb_spec_ok s) \<Longrightarrow>
     lb_entry_ok out \<Longrightarrow> lb_entry_ok out' \<and> lb_id out' = lb_id out"
  by (induction specs arbitrary: out) (auto split: sum.splits dest: lb_fetch_spec_ok)

lemma lb_measure_extended_ok:
  "lb_measure_extended fetch req specs out = Inr out' \<Longrightarrow> (\<forall>s \<in> set specs. lb_spec_ok s) \<Longrightarrow>
     lb_entry_ok out \<Longrightarrow> lb_entry_ok out' \<and> lb_id out' = lb_id out"
  by (induction specs arbitrary: out)
    (auto split: sum.splits if_splits dest: lb_fetch_spec_ok)

lemma lb_measure_ok:
  "lb_measure fetch extended ref start end = Inr lb \<Longrightarrow> lb_entry_ok lb \<and> lb_id lb = ref_id ref"
proof -
  let ?req = "\<lparr>rq_id = ref_id ref, rq_start = start, rq_end = end\<rparr>"
  let ?out = "zero_load_balancer\<lparr>lb_id := ref_id ref, lb_name := ref_name ref, lb_up := Fin 1\<rparr>"
  assume "lb_measure fetch extended ref start end = Inr lb"
  then obtain mid where base: "lb_measure_base fetch ?req lb_specs ?out = Inr mid"
    and final: "lb = mid \<or> lb_measure_extended fetch ?req lb_extended_specs mid = Inr lb"
    by (auto simp: lb_measure_def Let_def split: sum.splits if_splits)
  have "lb_entry_ok ?out" by (simp add: lb_entry_ok_def zero_load_balancer_def)
  with lb_measure_base_ok [OF base] have "lb_entry_ok mid \<and> lb_id mid = ref_id ref" by (simp add: lb_specs_ok)
  with final show ?thesis by (auto dest: lb_measure_extended_ok simp: lb_specs_ok)
qed

lemma lb_previous_Some: "lb_previous snap i = Some lb \<Longrightarrow> lb \<in> set snap \<and> lb_id lb = i"
  by (induction snap rule: rev_induct) (auto simp: lb_previous_def split: if_splits)

lemma lb_merged_ok:
  "(\<And>lb. lb \<in> set snap \<Longrightarrow> lb_entry_ok lb) \<Longrightarrow>
     (lbr_err r = None \<Longrightarrow> lb_entry_ok (lbr_measured r)) \<Longrightarrow>
     lb_entry_ok (lb_merged (lb_previous snap) r)"
  using lb_previous_Some
  by (fastforce simp: lb_merged_def Let_def lb_entry_ok_def zero_load_balancer_def
      split: option.splits)

lemma lb_measure_all_sound:
  "r \<in> set (lb_measure_all env extended refs) \<Longrightarrow> lbr_err r = None \<Longrightarrow>
     lb_entry_ok (lbr_measured r) \<and> lb_id (lbr_measured r) = ref_id (lbr_ref r)"
  by (auto simp: lb_measure_all_def fan_out_def lb_outcome_def lb_missed_def dest: lb_measure_ok
      split: sum.splits)

lemma lb_merge_ids:
  "map lb_id (lbc_snap (lb_merge (lb_measure_all env extended refs) c)) = map ref_id refs"
proof -
  have "map lbr_ref (lb_measure_all env extended refs) = refs"
    by (rule nth_equalityI)
      (auto simp: lb_measure_all_def fan_out_length fan_out_nth lb_outcome_def lb_missed_def split: sum.splits)
  moreover have "map lb_id (lbc_snap (lb_merge (lb_measure_all env extended refs) c)) =
      map ref_id (map lbr_ref (lb_measure_all env extended refs))"
    using lb_measure_all_sound
    by (auto simp: lb_merge_def lb_merged_def Let_def split: option.splits)
  ultimately show ?thesis by (simp only:)
qed

lemma lb_list_distinct: "lb_list_load_balancers env c = Inr refs \<Longrightarrow> distinct (map ref_id refs)"
  unfolding lb_list_load_balancers_def
  by (auto split: sum.splits simp: comp_def intro!: distinct_map_filter dest: paging_all_distinct)

lemma lb_refresh_ok:
  assumes "lb_ok c"
  shows "lb_ok (fst (lb_refresh env c))"
proof (cases "lb_list_load_balancers env c")
  case (Inr refs)
  let ?refs = "lb_rotate (lbc_cursor c) refs"
  let ?next = "lb_merge (lb_measure_all env (lbc_extended c) ?refs) c"
  have "distinct (map ref_id ?refs)"
    using lb_list_distinct [OF Inr] by (simp add: lb_rotate_list flip: rotate_map)
  moreover have "lb_entry_ok lb" if "lb \<in> set (lbc_snap ?next)" for lb
    using that assms lb_measure_all_sound
    by (auto simp: lb_merge_def lb_ok_def intro!: lb_merged_ok)
  ultimately show ?thesis
    using Inr by (simp add: lb_refresh_def Let_def lb_ok_def lb_merge_ids)
qed (use assms in \<open>simp add: lb_refresh_def\<close>)

lemma lb_metrics_described: "lb_entry_ok lb \<Longrightarrow> well_described lb_descriptors (lb_metrics lb)"
  by (auto simp: lb_metrics_def well_described_def lb_entry_ok_def lb_point_ok_def lb_point_desc_def
      lb_descriptors_def lb_up_desc_def lb_sampled_desc_def lb_identity_def split: if_splits)

lemma lb_ok_new: "lb_ok (lb_new n extended f)" "lb_collect (lb_new n extended f) = []"
  by (simp_all add: lb_ok_def lb_new_def lb_collect_def)

lemma lb_collect_described: "lb_ok c \<Longrightarrow> well_described lb_descriptors (lb_collect c)"
  unfolding lb_collect_def lb_ok_def
  by (intro well_described_concat_map) (simp add: lb_metrics_described)

interpretation loadbalancermetrics:
  collector lb_refresh lb_collect lb_descriptors "lb_new n extended f" lb_ok for n extended f
  by unfold_locales (simp_all add: lb_ok_new lb_refresh_ok lb_collect_described)

text \<open>The series of a load balancer, as for a droplet.\<close>

definition balancer_points_apart :: "load_balancer \<Rightarrow> bool" where
  "balancer_points_apart lb \<longleftrightarrow>
     distinct (map (\<lambda>p. (fq_name (lbp_desc p), lbp_labels p)) (lb_points lb))"

lemma lb_metrics_distinct:
  assumes "lb_entry_ok lb" and "balancer_points_apart lb"
  shows "no_duplicates (lb_metrics lb)"
proof -
  let ?points = "map (\<lambda>p. gauge (lbp_desc p) (lbp_value p) (lbp_labels p)) (lb_points lb)"
  have "no_duplicates ?points"
    using assms(2) by (simp add: no_duplicates_def balancer_points_apart_def comp_def)
  moreover have "metric_name ` set ?points \<inter> {fq_name lb_up_desc, fq_name lb_sampled_desc} = {}"
    using assms(1) by (auto simp: lb_entry_ok_def lb_point_ok_def lb_point_desc_def)
  ultimately show ?thesis
    unfolding lb_metrics_def
    by (intro no_duplicates_parts) (auto simp: no_duplicates_def lb_up_desc_def lb_sampled_desc_def)
qed

lemma lb_metrics_owner: "lb_entry_ok lb \<Longrightarrow> m \<in> set (lb_metrics lb) \<Longrightarrow> m_labels m ! 0 = lb_id lb"
  by (auto simp: lb_metrics_def lb_entry_ok_def lb_point_ok_def split: if_splits)

lemma lb_unique:
  "lb_ok c \<Longrightarrow> list_all balancer_points_apart (lbc_snap c) \<Longrightarrow> no_duplicates (lb_collect c)"
  unfolding lb_collect_def lb_ok_def
  by (subst no_duplicates_by_label_iff [where k = 0 and key = lb_id])
    (auto simp: list_all_iff lb_metrics_distinct lb_metrics_owner)

section \<open>Properties\<close>

text \<open>What one metric request reads, before anything is appended.\<close>

definition lb_read :: "lb_fetcher \<Rightarrow> metrics_request \<Rightarrow> lb_spec \<Rightarrow> sample list res" where
  "lb_read fetch req s =
     (case fetch (ls_fetch s) req of
        Inl e \<Rightarrow> Inl (Wrap (''fetch '' @ ls_name s) [e])
      | Inr resp \<Rightarrow>
          (case latest resp of
             Inl e \<Rightarrow> Inl (Wrap (''read '' @ ls_name s) [e])
           | Inr samples \<Rightarrow> Inr samples))"

definition lb_out_of_time :: "sample list res \<Rightarrow> goerr option" where
  "lb_out_of_time r = (case r of Inl e \<Rightarrow> if lb_starved e then Some e else None | Inr _ \<Rightarrow> None)"

definition lb_append :: "lb_fetcher \<Rightarrow> metrics_request \<Rightarrow> load_balancer \<Rightarrow> lb_spec \<Rightarrow> load_balancer" where
  "lb_append fetch req out s =
     (case lb_read fetch req s of Inl e \<Rightarrow> out | Inr samples \<Rightarrow> foldl (lb_add_sample s) out samples)"

lemma lb_fetch_spec_read:
  "lb_fetch_spec fetch req s out =
     (case lb_read fetch req s of Inl e \<Rightarrow> Inl e | Inr samples \<Rightarrow> Inr (foldl (lb_add_sample s) out samples))"
  by (simp add: lb_fetch_spec_def lb_read_def split: sum.splits)

lemma lb_measure_extended_eq:
  "lb_measure_extended fetch req specs out =
     (case List.map_filter (\<lambda>s. lb_out_of_time (lb_read fetch req s)) specs of
        e # _ \<Rightarrow> Inl e
      | [] \<Rightarrow> Inr (foldl (lb_append fetch req) out specs))"
proof (induction specs arbitrary: out)
  case (Cons s specs)
  show ?case
    by (cases "lb_read fetch req s")
      (auto simp: lb_fetch_spec_read lb_out_of_time_def lb_append_def [of fetch req out s]
        map_filter_simps Cons.IH split: list.splits)
qed (simp add: map_filter_simps)

text \<open>
  C24. The extended set cannot cost a load balancer its base reading. With the extended flag
  the measurement is the base measurement, fails only where that fails or where some extended
  request ran out of time, and otherwise adds the samples of exactly those extended metrics
  that could be read.
\<close>

theorem lb_extended_contained:
  "lb_measure fetch True ref start end =
     (case lb_measure fetch False ref start end of
        Inl e \<Rightarrow> Inl e
      | Inr out \<Rightarrow>
          (let req = \<lparr>rq_id = ref_id ref, rq_start = start, rq_end = end\<rparr> in
           case List.map_filter (\<lambda>s. lb_out_of_time (lb_read fetch req s)) lb_extended_specs of
             e # _ \<Rightarrow> Inl e
           | [] \<Rightarrow> Inr (foldl (lb_append fetch req) out lb_extended_specs)))"
  by (simp add: lb_measure_def Let_def lb_measure_extended_eq split: sum.splits)

text \<open>
  The load balancer metrics collector only ever sends metrics it described, each with one
  value per declared label.
\<close>

lemma lb_always_described:
  "well_described lb_descriptors (lb_collect (refreshes lb_refresh envs (lb_new n extended f)))"
  by (rule loadbalancermetrics.always_described)

lemma length_lb_measure_all [simp]: "length (lb_measure_all env extended refs) = length refs"
  by (simp add: lb_measure_all_def fan_out_length)

text \<open>
  A refresh of the load balancer metrics collector that got through a prefix of \<open>k\<close> load
  balancers is continued by the next one where it stopped.
\<close>

lemma lb_refresh_resumes:
  assumes "lb_list_load_balancers env c = Inr refs" and "i < length refs"
    and "filter lb_reached (lb_measure_all env (lbc_extended c) (lb_rotate (lbc_cursor c) refs))
       = take k (lb_measure_all env (lbc_extended c) (lb_rotate (lbc_cursor c) refs))"
    and "k \<le> length refs"
  shows "lb_rotate (lbc_cursor (fst (lb_refresh env c))) refs ! i =
           lb_rotate (lbc_cursor c) refs ! ((k + i) mod length refs)"
proof -
  have "lbc_cursor (fst (lb_refresh env c)) = lb_advance (lbc_cursor c) k (length refs)"
    using assms(1,3,4)
    by (simp add: lb_refresh_def Let_def lb_report_def lb_counts_eq lb_merge_def
        lb_rotation.length_rotate)
  then show ?thesis using assms(2) by (simp add: lb_rotation.resumes)
qed

text \<open>Two load balancers, of which the dispatcher hands out one before the deadline.\<close>

definition demo_lb_env :: lb_env where
  "demo_lb_env =
     \<lparr>lbe_ctx = \<lparr>ctx_live = 9, ctx_cause = Sentinel DeadlineExceeded\<rparr>,
      lbe_list = (\<lambda>k page. Inr ([\<lparr>glb_id = ''x'', glb_name = ''a'', glb_tags = [], glb_region = None\<rparr>,
                               \<lparr>glb_id = ''y'', glb_name = ''b'', glb_tags = [], glb_region = None\<rparr>],
                              LastPage)),
      lbe_now = 0, lbe_fetch = (\<lambda>ep rq. Inr (Some \<lparr>mr_status = ''success'', mr_result = []\<rparr>)),
      lbe_queued = 1, lbe_after = Some (Sentinel DeadlineExceeded)\<rparr>"

lemma lb_refresh_resumes_witness:
  "ref_id (lb_rotate (lbc_cursor (fst (lb_refresh demo_lb_env (lb_new 4 False zero_filter))))
     [\<lparr>ref_id = ''x'', ref_name = ''a''\<rparr>, \<lparr>ref_id = ''y'', ref_name = ''b''\<rparr>] ! 0) = ''y''"
proof -
  let ?c = "lb_new 4 False zero_filter"
  let ?refs = "[\<lparr>ref_id = ''x'', ref_name = ''a''\<rparr>, \<lparr>ref_id = ''y'', ref_name = ''b''\<rparr>]"
  have l: "lb_list_load_balancers demo_lb_env ?c = Inr ?refs"
    by (simp add: lb_list_load_balancers_def demo_lb_env_def paging_single_page lb_new_def)
  have same: "lb_rotate (lbc_cursor ?c) ?refs = ?refs"
    by (simp add: lb_rotate_def lb_new_def)
  have "latest (Some \<lparr>mr_status = ''success'', mr_result = []\<rparr>) = Inr []"
    by (simp add: latest_def success_status_def)
  then have r: "filter lb_reached (lb_measure_all demo_lb_env (lbc_extended ?c) ?refs)
      = take 1 (lb_measure_all demo_lb_env (lbc_extended ?c) ?refs)"
    by (simp add: lb_measure_all_def fan_out_def demo_lb_env_def upt_rec lb_outcome_def lb_missed_def
        lb_measure_def lb_specs_def lb_fetch_spec_def lb_reached_def lb_starved_def error_list_def
        lb_new_def Let_def)
  show ?thesis
    using lb_refresh_resumes [OF l, of 0 1] r unfolding same by simp
qed

end
