(* ===== verification/Exporter.thy ===== *)
theory Exporter
  imports Routes Serving Doclient Config Droplet_Metrics Loadbalancer_Metrics
begin

text \<open>
  cmd/digitalocean_exporter/main.go: how a table of collectors is registered, and the order of
  a run. What the command calls outside the repository is a parameter: kingpin, reading a file,
  godo's constructor, the handler of the Prometheus library, the landing page and the HTTP
  server. The table itself is in Fleet; here it is any list of names and collectors. The routes
  are in Routes, the server in Serving; logging is not modelled.
\<close>

section \<open>Registration\<close>

text \<open>A name the configuration does not hold reads as the zero value, which is disabled.\<close>

definition collector_settings :: "config \<Rightarrow> string \<Rightarrow> collector_config" where
  "collector_settings cfg name =
     (case cf_collectors cfg name of
        None \<Rightarrow> \<lparr>cg_enabled = False, cg_interval = 0, cg_timeout = 0\<rparr>
      | Some c \<Rightarrow> c)"

type_synonym ('env, 's) table = "(string \<times> ('env, 's) collector_obj) list"

definition register_enabled ::
  "config \<Rightarrow> ('env, 's) table \<Rightarrow> ('env, 's) scheduler \<Rightarrow> ('env, 's) scheduler" where
  "register_enabled cfg table s =
     foldl (\<lambda>s (name, c).
         let settings = collector_settings cfg name
         in if cg_enabled settings then register c (cg_interval settings) (cg_timeout settings) s else s)
       s table"

section \<open>Running\<close>

definition api_client_config :: "string \<Rightarrow> config \<Rightarrow> client_config" where
  "api_client_config version cfg =
     \<lparr>cl_token = cf_token cfg, cl_base_url = cf_api_base_url cfg,
      cl_user_agent = ''digitalocean_exporter/'' @ version, cl_timeout = cf_timeout cfg,
      cl_rate_limit = cf_rate_limit cfg, cl_max_attempts = 0, cl_metrics = Some new_metrics\<rparr>"

record ('client, 'st) outside =
  os_kingpin :: "flag_decl list \<Rightarrow> string list \<Rightarrow> parsed"
  os_read_file :: "string \<Rightarrow> string res"
  os_godo_new :: "http_client \<Rightarrow> string \<Rightarrow> string option \<Rightarrow> 'client res"
  os_landing :: "landing_config \<Rightarrow> 'st handler res"
  os_metrics :: "'st handler"
  os_ready :: "'st \<Rightarrow> string list"
  os_version :: string
  os_served :: "goerr option"

definition run_command :: "('client, 'st) outside \<Rightarrow> string list \<Rightarrow> goerr option" where
  "run_command os args =
     (case parse_config (os_kingpin os) (os_read_file os) args of
        Inl e \<Rightarrow> Some e
      | Inr cfg \<Rightarrow>
          (case new_client (os_godo_new os) (api_client_config (os_version os) cfg) of
             Inl e \<Rightarrow> Some (Wrap ''build API client'' [e])
           | Inr client \<Rightarrow>
               (case new_handler (os_landing os) (os_version os) (os_metrics os) (os_ready os) of
                  Inl e \<Rightarrow> Some e
                | Inr mux \<Rightarrow> serve_http (os_served os))))"

section \<open>Lemmas\<close>

definition enabled_in :: "config \<Rightarrow> ('env, 's) table \<Rightarrow> ('env, 's) table" where
  "enabled_in cfg table = filter (\<lambda>(name, c). cg_enabled (collector_settings cfg name)) table"

definition entry_for :: "int \<Rightarrow> config \<Rightarrow> string \<times> ('env, 's) collector_obj \<Rightarrow> ('env, 's) entry" where
  "entry_for timeout cfg nc =
     (let settings = collector_settings cfg (fst nc)
      in \<lparr>en_collector = snd nc,
          en_interval = (if cg_interval settings \<le> 0 then default_interval else cg_interval settings),
          en_timeout = (if cg_timeout settings \<le> 0 then timeout else cg_timeout settings)\<rparr>)"

lemma register_fields [simp]:
  "sc_timeout (register c i t s) = sc_timeout s"
  "sc_ready (register c i t s) = sc_ready s"
  by (simp_all add: register_def Let_def)

lemma register_enabled_fields [simp]:
  "sc_timeout (register_enabled cfg table s) = sc_timeout s"
  "sc_ready (register_enabled cfg table s) = sc_ready s"
  by (induction table arbitrary: s) (auto simp: register_enabled_def Let_def)

lemma register_enabled_entries:
  "sc_entries (register_enabled cfg table s) =
     sc_entries s @ map (entry_for (sc_timeout s) cfg) (enabled_in cfg table)"
proof (induction table arbitrary: s)
  case (Cons nc table)
  then show ?case
    by (cases nc) (simp add: register_enabled_def enabled_in_def entry_for_def register_def Let_def)
qed (simp add: register_enabled_def enabled_in_def)

lemma entry_for_collector [simp]: "en_collector (entry_for timeout cfg nc) = snd nc"
  by (simp add: entry_for_def Let_def)

text \<open>What \<open>resolve_config\<close> accepts needs none of the scheduler's fallbacks.\<close>

lemma enabled_times:
  assumes "resolve_config rf f = Inr cfg" and "nc \<in> set (enabled_in cfg table)"
  shows "en_interval (entry_for (cf_timeout cfg) cfg nc) = cg_interval (collector_settings cfg (fst nc))"
    and "0 < en_interval (entry_for (cf_timeout cfg) cfg nc)"
    and "0 < en_timeout (entry_for (cf_timeout cfg) cfg nc)"
  using config_accepted [OF assms(1), of "fst nc"] assms(2)
  by (auto simp: enabled_in_def collector_settings_def entry_for_def Let_def split: option.splits)

lemma pending_after_steps:
  assumes "run_reach s r" and "run_step\<^sup>*\<^sup>* r r'"
  shows "run_reach s r' \<and> (\<exists>rest. run_log r' = run_log r @ rest)"
  using assms(2,1)
proof (induction rule: rtranclp_induct)
  case (step q q')
  from step.hyps(2) have "\<exists>rest. run_log q' = run_log q @ rest"
    by (elim run_stepE) (auto simp: run_refresh_def)
  with step show ?case by (auto intro: run_reach.step)
qed simp

lemma ready_kept:
  "sc_ready s name = Some True \<Longrightarrow> sc_ready (refresh_all calls s) name = Some True"
  by (simp add: ready_history)

section \<open>Properties\<close>

text \<open>
  C22. The probes. /healthz always answers 200. /readyz answers 200 exactly when every registered
  collector has had a successful refresh, and otherwise 503 with the names of those that have
  not, in the order of registration; once it answers 200 it does for the rest of the run,
  whatever fails afterwards. /metrics is handed to the Prometheus library.
\<close>

theorem readyz_stays:
  assumes "new_handler page version metrics (\<lambda>r. pending (run_scheduler r)) = Inr mux"
    and "run_reach s r" and "sc_ready s = Map.empty" and "run_step\<^sup>*\<^sup>* r r'"
    and "ok = Answered (write_plain 200 (''ok'' @ [CHR 0x0A]))"
    and "waiting = filter (\<lambda>name. \<forall>sh. (name, sh, None) \<notin> set (outcomes (run_log r) s)) (names s)"
  shows "mux_serve mux r ''/healthz'' = ok \<and> mux_serve mux r ''/metrics'' = Answered (metrics r ''/metrics'') \<and>
    mux_serve mux r ''/readyz'' =
      (if waiting = [] then ok
       else Answered (write_plain 503 (''waiting for the first successful refresh of:'' @ [CHR 0x0A] @
              join_with [CHR 0x0A] waiting @ [CHR 0x0A]))) \<and>
    (mux_serve mux r ''/readyz'' = ok \<longrightarrow> mux_serve mux r' ''/readyz'' = ok)"
proof -
  have still: "pending (run_scheduler q) =
      filter (\<lambda>name. \<forall>sh. (name, sh, None) \<notin> set (outcomes (run_log q) s)) (names s)"
    if "run_reach s q" for q
  proof -
    have "pending (run_scheduler q) =
        filter (\<lambda>name. sc_ready (refresh_all (run_log q) s) name \<noteq> Some True) (names s)"
      using run_refines [OF that] refresh_all_kept(1) [of "run_log q" s]
      by (simp add: pending_def flip: names_def)
    then show ?thesis using assms(3) by (simp add: ready_history)
  qed
  have ready: "mux_serve mux q ''/readyz'' = ok \<longleftrightarrow> pending (run_scheduler q) = []" for q
    by (simp add: handler_routes(3) [OF assms(1)] assms(5) handle_readyz_def write_plain_def)
  obtain rest where r': "run_reach s r'" and log: "run_log r' = run_log r @ rest"
    using pending_after_steps [OF assms(2,4)] by auto
  have "mux_serve mux r ''/readyz'' = ok \<longrightarrow> mux_serve mux r' ''/readyz'' = ok"
    unfolding ready still [OF assms(2)] still [OF r'] log outcomes_append
    by (auto simp: filter_empty_conv)
  then show ?thesis
    using still [OF assms(2)]
    by (simp add: handler_routes [OF assms(1)] handle_healthz_def handle_readyz_def assms(5,6))
qed

definition demo_landing :: "landing_config \<Rightarrow> 'st handler res" where
  "demo_landing cfg = Inr (\<lambda>st path. write_plain 200 (lc_name cfg))"

lemma readyz_stays_witness:
  "\<exists>mux :: (unit, nat) run mux. new_handler demo_landing ''dev'' (\<lambda>r path. write_plain 200 '''')
       (\<lambda>r. pending (run_scheduler r)) = Inr mux \<and>
     mux_serve mux demo_run ''/readyz'' \<noteq> mux_serve mux demo_run ''/healthz''"
proof -
  obtain mux :: "(unit, nat) run mux"
    where mux: "new_handler demo_landing ''dev'' (\<lambda>r path. write_plain 200 '''')
      (\<lambda>r. pending (run_scheduler r)) = Inr mux"
    by (simp add: new_handler_def demo_landing_def)
  have "filter (\<lambda>name. \<forall>sh. (name, sh, None) \<notin> set (outcomes (run_log demo_run) demo_scheduler))
      (names demo_scheduler) \<noteq> []"
    by (simp add: demo_names demo_outcomes)
  with readyz_stays [OF mux demo_reach demo_fresh rtranclp.rtrancl_refl refl refl] mux
  show ?thesis by (intro exI [of _ mux]) (simp add: write_plain_def)
qed

text \<open>
  C32. A rate limit that is not a number passes the validation that rejects a negative one, and
  then switches the client-side pacing off without a word.
\<close>

theorem nan_rate_limit:
  assumes "resolve_config rf f = Inr cfg"
  shows "\<exists>cfg'. resolve_config rf (f\<lparr>f_rate_limit := NaN\<rparr>) = Inr cfg' \<and>
    new_client (\<lambda>client agent url. Inr (tp_limiter (hc_transport client)))
      (api_client_config version cfg') = Inr None"
proof -
  let ?g = "f\<lparr>f_rate_limit := NaN\<rparr>"
  have kept: "f_spaces ?g = f_spaces f" "f_spaces_region ?g = f_spaces_region f"
    "f_spaces_key ?g = f_spaces_key f" "f_spaces_key_file ?g = f_spaces_key_file f"
    "f_spaces_secret ?g = f_spaces_secret f" "f_spaces_secret_file ?g = f_spaces_secret_file f"
    "f_spaces_buckets ?g = f_spaces_buckets f" "f_spaces_concurrent ?g = f_spaces_concurrent f"
    by simp_all
  have "spaces_settings rf ?g = spaces_settings rf f"
    unfolding spaces_settings_def kept ..
  moreover have "validate_durations ?g = validate_durations f" "collector_table ?g = collector_table f"
    by (simp_all add: validate_durations_def timed_collectors_def collector_table_def)
  ultimately have "resolve_config rf ?g = Inr (cfg\<lparr>cf_rate_limit := NaN\<rparr>)"
    using assms by (auto simp: resolve_config_def split: option.splits if_splits sum.splits)
  then show ?thesis by (simp add: new_client_def api_client_config_def Let_def)
qed

lemma nan_rate_limit_witness:
  "\<exists>cfg'. resolve_config (\<lambda>_. Inl (Other ''no such file'')) ((bind demo_value)\<lparr>f_rate_limit := NaN\<rparr>)
     = Inr cfg'"
proof -
  obtain cfg where "resolve_config (\<lambda>_. Inl (Other ''no such file'')) (bind demo_value) = Inr cfg"
    using demo_config by blast
  from nan_rate_limit [OF this, of "''dev''"] show ?thesis by blast
qed

text \<open>
  C21. A request the limiter refuses because it would outlive its deadline never reached the API:
  it is not counted, and the monitoring collectors, however often the error is wrapped on its
  way to them, take the resource for one they did not get to, not for one that failed.
\<close>

theorem limiter_starves:
  assumes "limiter_wait env t ctx w = (Some e, w1)" and "rc_deadline ctx \<noteq> None"
  shows "\<exists>err. attempt env t ctx req (m, w) = (Inl err, m, w1) \<and>
    dm_starved err \<and> lb_starved err \<and>
    dm_starved (foldr (\<lambda>msg e. Wrap msg [e]) msgs err) \<and>
    lb_starved (foldr (\<lambda>msg e. Wrap msg [e]) msgs err)"
proof -
  let ?err = "Wrap ''wait for the API rate limiter'' [limiter_error ctx (te_now env w1) e]"
  have "errors_is ?err Canceled \<or> errors_is ?err DeadlineExceeded"
    using assms(2) by (auto simp: limiter_error_def rc_err_def Let_def split: option.splits)
  moreover have "errors_is (foldr (\<lambda>msg e. Wrap msg [e]) msgs ?err) s = errors_is ?err s" for s
    by (induction msgs) simp_all
  ultimately show ?thesis
    by (intro exI [of _ ?err])
      (simp add: attempt_refused [OF assms(1)] dm_starved_def lb_starved_def)
qed

lemma limiter_starves_witness:
  "\<exists>err. attempt demo_api (demo_transport\<lparr>tp_limiter := Some (Fin 4)\<rparr>) demo_ctx demo_request
     (new_metrics, (0, [])) = (Inl err, new_metrics, (0, [])) \<and> dm_starved err"
proof -
  have "limiter_wait demo_api (demo_transport\<lparr>tp_limiter := Some (Fin 4)\<rparr>) demo_ctx (0, []) =
      (Some (Other ''would exceed context deadline''), (0, []))"
    by (simp add: limiter_wait_def demo_api_def)
  from limiter_starves [OF this, of demo_request new_metrics "[]"] show ?thesis
    by (auto simp: demo_ctx_def)
qed

end
