(* ===== verification/Hosting.thy ===== *)
theory Hosting
  imports Scheduler
begin

text \<open>
  Collectors of different state types under one scheduler. In the code a scheduler holds values of
  the interface \<open>Collector\<close>, each with fields of its own; here they share a state type that has a
  constructor for each, and \<open>hosted\<close> is a collector that works inside its constructor. The
  contracts of Collector carry over to the hosted object (\<open>hosted_sound\<close>, \<open>hosted_unique\<close>,
  \<open>hosted_atomic\<close>), and what holds of every object holds of every entry after any sequence of
  refreshes.
\<close>

definition hosted ::
  "string \<Rightarrow> desc list \<Rightarrow> ('e \<Rightarrow> 's \<Rightarrow> 's \<times> goerr option) \<Rightarrow> ('s \<Rightarrow> metric list) \<Rightarrow> 's \<Rightarrow>
     ('w \<Rightarrow> 'e) \<Rightarrow> ('s \<Rightarrow> 't) \<Rightarrow> ('t \<Rightarrow> 's) \<Rightarrow> ('w, 't) collector_obj" where
  "hosted name describe refresh collect start asked wrap unwrap =
     as_object name describe
       (\<lambda>world t. case refresh (asked world) (unwrap t) of (s, err) \<Rightarrow> (wrap s, err))
       (\<lambda>t. collect (unwrap t)) (wrap start)"

lemma hosted_fields [simp]:
  "co_name (hosted name ds r c s0 asked wrap unwrap) = name"
  "co_describe (hosted name ds r c s0 asked wrap unwrap) = ds"
  "co_state (hosted name ds r c s0 asked wrap unwrap) = wrap s0"
  "co_collect (hosted name ds r c s0 asked wrap unwrap) t = c (unwrap t)"
  by (simp_all add: hosted_def as_object_def)

lemma hosted_refresh:
  "guarded_refresh ((hosted name ds r c s0 asked wrap unwrap)\<lparr>co_state := t\<rparr>) world ctx =
     (wrap (fst (r (asked (world ctx)) (unwrap t))), snd (r (asked (world ctx)) (unwrap t)))"
  by (simp add: hosted_def as_object_def guarded_refresh_def split: prod.split)

section \<open>Contracts of an object\<close>

text \<open>
  The methods of an object, which no refresh changes, and the contracts over the states that
  are \<open>good\<close> for it.
\<close>

definition same_methods :: "('env, 's) collector_obj \<Rightarrow> ('env, 's) collector_obj \<Rightarrow> bool" where
  "same_methods c d \<longleftrightarrow> (\<exists>st. d = c\<lparr>co_state := st\<rparr>)"

definition sound :: "('s \<Rightarrow> bool) \<Rightarrow> ('env, 's) collector_obj \<Rightarrow> bool" where
  "sound good c \<longleftrightarrow>
     good (co_state c) \<and> co_collect c (co_state c) = [] \<and>
     (\<forall>world ctx st. good st \<longrightarrow> good (fst (guarded_refresh (c\<lparr>co_state := st\<rparr>) world ctx))) \<and>
     (\<forall>st. good st \<longrightarrow> well_described (co_describe c) (co_collect c st))"

definition unrepeating :: "('s \<Rightarrow> bool) \<Rightarrow> ('env, 's) collector_obj \<Rightarrow> bool" where
  "unrepeating good c \<longleftrightarrow> (\<forall>st. good st \<longrightarrow> no_duplicates (co_collect c st))"

definition keeps_on_failure :: "('s \<Rightarrow> bool) \<Rightarrow> ('env, 's) collector_obj \<Rightarrow> bool" where
  "keeps_on_failure good c \<longleftrightarrow>
     (\<forall>world ctx st. good st \<longrightarrow> snd (guarded_refresh (c\<lparr>co_state := st\<rparr>) world ctx) \<noteq> None \<longrightarrow>
        fst (guarded_refresh (c\<lparr>co_state := st\<rparr>) world ctx) = st)"

lemma hosted_sound:
  assumes "collector r c ds s0 ok" and "\<And>s. unwrap (wrap s) = s"
    and good: "\<And>t. good t \<longleftrightarrow> (\<exists>s. t = wrap s \<and> ok s)"
  shows "sound good (hosted name ds r c s0 asked wrap unwrap)"
  using collector.start_ok [OF assms(1)] collector.start_silent [OF assms(1)]
    collector.refresh_ok [OF assms(1)] collector.described [OF assms(1)]
  unfolding sound_def
  by (fastforce simp: hosted_refresh assms(2) good)

lemma hosted_unique:
  assumes "unique_collector r c ds s0 ok" and "\<And>s. unwrap (wrap s) = s"
    and "\<And>t. good t \<longleftrightarrow> (\<exists>s. t = wrap s \<and> ok s)"
  shows "unrepeating good (hosted name ds r c s0 asked wrap unwrap)"
  using unique_collector.unique [OF assms(1)] by (auto simp: unrepeating_def assms(2,3))

lemma hosted_atomic:
  assumes "atomic_collector r c ds s0 ok" and "\<And>s. unwrap (wrap s) = s"
    and good: "\<And>t. good t \<Longrightarrow> \<exists>s. t = wrap s"
  shows "keeps_on_failure good (hosted name ds r c s0 asked wrap unwrap)"
proof -
  have "fst (r env s) = s" if "snd (r env s) \<noteq> None" for env s
    using that atomic_collector.failure_keeps [OF assms(1)] by fastforce
  then show ?thesis
    by (auto simp: keeps_on_failure_def hosted_refresh assms(2) dest!: good)
qed

section \<open>Entries of a scheduler\<close>

text \<open>What an entry sends when Prometheus scrapes.\<close>

definition entry_metrics :: "('env, 's) entry \<Rightarrow> metric list" where
  "entry_metrics e = co_collect (en_collector e) (co_state (en_collector e))"

lemma scheduler_collect_entries:
  "scheduler_collect s = concat (map entry_metrics (sc_entries s))"
  by (simp add: scheduler_collect_def entry_metrics_def [abs_def])

lemma set_entry_state_kept:
  assumes "\<And>e st. f (e\<lparr>en_collector := (en_collector e)\<lparr>co_state := st\<rparr>\<rparr>) = f e"
  shows "map f (sc_entries (set_entry_state i st s)) = map f (sc_entries s)"
  using assms by (simp add: set_entry_state_def Let_def map_list_update_same)

lemma scheduler_describe_refresh:
  "scheduler_describe (refresh_all calls s) = scheduler_describe s"
proof (induction calls arbitrary: s)
  case (Cons call calls)
  have "scheduler_describe (scheduler_refresh i inp s) = scheduler_describe s" for i inp
    by (simp add: scheduler_describe_def scheduler_refresh_entries set_entry_state_kept)
  with Cons show ?case by (cases call) simp
qed simp

text \<open>
  An invariant of the entries: one that a refresh of its collector keeps is kept by every sequence
  of refreshes.
\<close>

definition entries_all :: "(('env, 's) collector_obj \<Rightarrow> bool) \<Rightarrow> ('env, 's) scheduler \<Rightarrow> bool" where
  "entries_all P s \<longleftrightarrow> (\<forall>e \<in> set (sc_entries s). P (en_collector e))"

lemma entries_all_refresh:
  assumes "\<And>c world ctx. P c \<Longrightarrow> P (c\<lparr>co_state := fst (guarded_refresh c world ctx)\<rparr>)"
    and "entries_all P s"
  shows "entries_all P (scheduler_refresh i inp s)"
proof (cases "i < length (sc_entries s)")
  case True
  then have "P (en_collector (sc_entries s ! i))"
    using assms(2) by (simp add: entries_all_def)
  then have "P ((en_collector (sc_entries s ! i))\<lparr>co_state := fst (refresh_result i inp s)\<rparr>)"
    by (simp add: refresh_result_def Let_def assms(1))
  then show ?thesis
    using assms(2) set_update_subset_insert [of "sc_entries s" i]
    by (fastforce simp: entries_all_def scheduler_refresh_entries set_entry_state_def Let_def)
next
  case False
  then show ?thesis
    using assms(2)
    by (simp add: entries_all_def scheduler_refresh_entries set_entry_state_def Let_def
        list_update_beyond)
qed

lemma entries_all_run:
  assumes "\<And>c world ctx. P c \<Longrightarrow> P (c\<lparr>co_state := fst (guarded_refresh c world ctx)\<rparr>)"
    and "entries_all P s" and "run_reach s r"
  shows "entries_all P (run_scheduler r)"
proof -
  have "entries_all P (refresh_all calls s)" for calls
    using assms(2)
  proof (induction calls arbitrary: s)
    case (Cons call calls)
    then show ?case by (cases call) (simp add: entries_all_refresh assms(1))
  qed simp
  then show ?thesis by (simp add: run_refines [OF assms(3)])
qed

section \<open>One exposition of many collectors\<close>

text \<open>
  When no two descriptors have the same name, two collectors can send no series both, and the
  exposition repeats one only where a single collector does.
\<close>

lemma described_names:
  "well_described ds ms \<Longrightarrow> metric_name ` set ms \<subseteq> fq_name ` set ds"
  by (auto simp: well_described_def metric_name_def)

lemma no_duplicates_described:
  assumes "distinct (map fq_name (concat (map describe xs)))"
    and "\<And>x. x \<in> set xs \<Longrightarrow> well_described (describe x) (block x)"
  shows "no_duplicates (concat (map block xs)) \<longleftrightarrow> (\<forall>x \<in> set xs. no_duplicates (block x))"
  using assms
proof (induction xs)
  case Nil
  then show ?case by (simp add: no_duplicates_def)
next
  case (Cons x xs)
  have "well_described (concat (map describe xs)) (concat (map block xs))"
    using Cons.prems(2) by (fastforce simp: well_described_def)
  then have "metric_name ` set (concat (map block xs)) \<subseteq> fq_name ` set (concat (map describe xs))"
    by (rule described_names)
  moreover have "metric_name ` set (block x) \<subseteq> fq_name ` set (describe x)"
    using Cons.prems(2) by (intro described_names) simp
  moreover have "fq_name ` set (describe x) \<inter> fq_name ` set (concat (map describe xs)) = {}"
    using Cons.prems(1) by simp
  ultimately have "metric_name ` set (block x) \<inter> metric_name ` set (concat (map block xs)) = {}"
    by blast
  then show ?case
    using Cons by (simp add: no_duplicates_parts_iff)
qed

lemma distinct_concat_filter:
  "distinct (map g (concat (map f xs))) \<Longrightarrow> distinct (map g (concat (map f (filter P xs))))"
  by (induction xs) auto

end
