(* ===== verification/Statuses.thy ===== *)
theory Statuses
  imports Metrics
begin

text \<open>
  The series of a status: one for every documented value, 1 for the current one and 0 for the
  others, and one more where the current value is not a documented one. The account, apps,
  databases, kubernetes and uptime collectors send them; all of them clone the list of known
  values before they append to it.
\<close>

definition with_unknown :: "string list \<Rightarrow> string \<Rightarrow> string list" where
  "with_unknown known s = (if s \<noteq> '''' \<and> s \<notin> set known then known @ [s] else known)"

definition status_series :: "desc \<Rightarrow> string list \<Rightarrow> string list \<Rightarrow> string \<Rightarrow> metric list" where
  "status_series d known labels s =
     map (\<lambda>x. gauge d (bool_to_float (x = s)) (labels @ [x])) (with_unknown known s)"

lemma distinct_with_unknown: "distinct known \<Longrightarrow> distinct (with_unknown known s)"
  by (simp add: with_unknown_def)

lemma one_of_distinct: "distinct xs \<Longrightarrow> s \<in> set xs \<Longrightarrow> filter (\<lambda>x. x = s) xs = [s]"
proof (induction xs)
  case (Cons x xs)
  have "filter (\<lambda>y. y = x) xs = []" if "x \<notin> set xs" using that by (auto simp: filter_empty_conv)
  with Cons show ?case by auto
qed simp

lemma with_unknown_one:
  "s \<noteq> '''' \<Longrightarrow> distinct known \<Longrightarrow> filter (\<lambda>x. x = s) (with_unknown known s) = [s]"
  by (rule one_of_distinct) (auto simp: with_unknown_def)

lemma status_series_described:
  "d \<in> set ds \<Longrightarrow> length (var_labels d) = Suc (length labels) \<Longrightarrow>
     well_described ds (status_series d known labels s)"
  by (auto simp: status_series_def well_described_def)

lemma status_series_distinct:
  "distinct known \<Longrightarrow> distinct (map series_of (status_series d known labels s))"
proof -
  have "map series_of (status_series d known labels s) =
      map (\<lambda>x. (fq_name d, labels @ [x])) (with_unknown known s)"
    by (simp add: status_series_def)
  moreover assume "distinct known"
  ultimately show ?thesis
    using distinct_with_unknown [of known s] by (simp only: distinct_map) (simp add: inj_on_def)
qed

lemma status_series_name: "m \<in> set (status_series d known labels s) \<Longrightarrow> m_desc m = d"
  by (auto simp: status_series_def)

lemma status_series_labels:
  "m \<in> set (status_series d known labels s) \<Longrightarrow> \<exists>x. m_labels m = labels @ [x]"
  by (auto simp: status_series_def)

text \<open>Exactly one of them reads 1 and every other 0, whether or not the value is documented.\<close>

lemma status_series_one:
  assumes "s \<noteq> ''''" and "distinct known"
  shows "filter (\<lambda>m. m_value m = Fin 1) (status_series d known labels s) =
      [gauge d (Fin 1) (labels @ [s])]"
    and "\<And>m. m \<in> set (status_series d known labels s) \<Longrightarrow> m_value m = Fin 1 \<or> m_value m = Fin 0"
proof -
  have "filter (\<lambda>m. m_value m = Fin 1) (status_series d known labels s) =
      map (\<lambda>x. gauge d (bool_to_float (x = s)) (labels @ [x]))
        (filter (\<lambda>x. x = s) (with_unknown known s))"
    by (simp add: status_series_def filter_map comp_def bool_to_float_def cong: filter_cong)
  then show "filter (\<lambda>m. m_value m = Fin 1) (status_series d known labels s) =
      [gauge d (Fin 1) (labels @ [s])]"
    using with_unknown_one [OF assms] by simp
  show "m \<in> set (status_series d known labels s) \<Longrightarrow> m_value m = Fin 1 \<or> m_value m = Fin 0" for m
    by (auto simp: status_series_def bool_to_float_def split: if_splits)
qed

end
