(* ===== verification/Account_Collectors.thy ===== *)
theory Account_Collectors
  imports Collector Statuses
begin

text \<open>
  internal/collector/account, balance and limits: the collectors that keep one snapshot of the
  account. The snapshot is a pointer, \<open>None\<close> before the first successful refresh, and the
  environment of a refresh is what its requests answer, in the order they are made;
  \<open>strconv.ParseFloat\<close> is a parameter.
\<close>

section \<open>account\<close>

record godo_account =
  ga_status :: string
  ga_email_verified :: bool
  ga_droplet_limit :: int
  ga_floating_ip_limit :: int
  ga_reserved_ip_limit :: int
  ga_volume_limit :: int

record account =
  ac_status :: string
  ac_active :: float64
  ac_verified :: float64
  ac_droplet_limit :: float64
  ac_floating_ip_limit :: float64
  ac_reserved_ip_limit :: float64
  ac_volume_limit :: float64

definition active_status :: string where "active_status = ''active''"

definition known_statuses :: "string list" where
  "known_statuses = [active_status, ''warning'', ''locked'']"

definition account_active_desc :: desc where
  "account_active_desc = Desc ''digitalocean_account_active'' []"
definition account_status_desc :: desc where
  "account_status_desc = Desc ''digitalocean_account_status'' [''status'']"
definition account_verified_desc :: desc where
  "account_verified_desc = Desc ''digitalocean_account_verified'' []"
definition account_droplet_limit_desc :: desc where
  "account_droplet_limit_desc = Desc ''digitalocean_account_droplet_limit'' []"
definition account_floating_ip_limit_desc :: desc where
  "account_floating_ip_limit_desc = Desc ''digitalocean_account_floating_ip_limit'' []"
definition account_reserved_ip_limit_desc :: desc where
  "account_reserved_ip_limit_desc = Desc ''digitalocean_account_reserved_ip_limit'' []"
definition account_volume_limit_desc :: desc where
  "account_volume_limit_desc = Desc ''digitalocean_account_volume_limit'' []"

definition account_descriptors :: "desc list" where
  "account_descriptors =
     [account_active_desc, account_status_desc, account_verified_desc, account_droplet_limit_desc,
      account_floating_ip_limit_desc, account_reserved_ip_limit_desc, account_volume_limit_desc]"

lemmas account_desc_defs = account_descriptors_def account_active_desc_def account_status_desc_def
  account_verified_desc_def account_droplet_limit_desc_def account_floating_ip_limit_desc_def
  account_reserved_ip_limit_desc_def account_volume_limit_desc_def

definition account_refresh ::
  "godo_account res \<Rightarrow> account option \<Rightarrow> account option \<times> goerr option" where
  "account_refresh answer snap =
     replace_snapshot
       (case answer of Inl e \<Rightarrow> Inl (Wrap ''get account'' [e]) | Inr acct \<Rightarrow> Inr acct)
       (\<lambda>acct. Some
          \<lparr>ac_status = ga_status acct, ac_active = bool_to_float (ga_status acct = active_status),
           ac_verified = bool_to_float (ga_email_verified acct),
           ac_droplet_limit = of_int64 (ga_droplet_limit acct),
           ac_floating_ip_limit = of_int64 (ga_floating_ip_limit acct),
           ac_reserved_ip_limit = of_int64 (ga_reserved_ip_limit acct),
           ac_volume_limit = of_int64 (ga_volume_limit acct)\<rparr>) snap"

definition collect_status :: "string \<Rightarrow> metric list" where
  "collect_status status = status_series account_status_desc known_statuses [] status"

definition account_collect :: "account option \<Rightarrow> metric list" where
  "account_collect snap =
     (case snap of
        None \<Rightarrow> []
      | Some a \<Rightarrow>
          collect_status (ac_status a) @
          map (\<lambda>(d, v). gauge d v [])
            [(account_active_desc, ac_active a), (account_verified_desc, ac_verified a),
             (account_droplet_limit_desc, ac_droplet_limit a),
             (account_floating_ip_limit_desc, ac_floating_ip_limit a),
             (account_reserved_ip_limit_desc, ac_reserved_ip_limit a),
             (account_volume_limit_desc, ac_volume_limit a)])"

lemma known_statuses_distinct: "distinct known_statuses"
  by (simp add: known_statuses_def active_status_def)

lemma collect_status_unique: "no_duplicates (collect_status status)"
  unfolding no_duplicates_def collect_status_def
  by (rule status_series_distinct) (rule known_statuses_distinct)

lemma collect_status_labelled: "(n, []) \<notin> series_of ` set (collect_status st)"
  by (auto simp: collect_status_def series_of_def dest: status_series_labels)

lemma account_collect_unique: "no_duplicates (account_collect s)"
proof (cases s)
  case (Some a)
  let ?rest = "map (\<lambda>(d, v). gauge d v [])
            [(account_active_desc, ac_active a), (account_verified_desc, ac_verified a),
             (account_droplet_limit_desc, ac_droplet_limit a),
             (account_floating_ip_limit_desc, ac_floating_ip_limit a),
             (account_reserved_ip_limit_desc, ac_reserved_ip_limit a),
             (account_volume_limit_desc, ac_volume_limit a)]"
  have "no_duplicates ?rest" by (simp add: no_duplicates_def account_desc_defs)
  moreover have "series_of ` set (collect_status (ac_status a)) \<inter> series_of ` set ?rest = {}"
    by (simp add: collect_status_labelled Int_insert_right)
  ultimately show ?thesis
    using Some collect_status_unique [of "ac_status a"]
    by (simp only: account_collect_def option.case no_duplicates_append simp_thms)
qed (simp add: account_collect_def no_duplicates_def)

lemma collect_status_described: "well_described account_descriptors (collect_status st)"
  unfolding collect_status_def
  by (rule status_series_described) (simp_all add: account_desc_defs)

lemma account_collect_described: "well_described account_descriptors (account_collect s)"
proof (cases s)
  case (Some a)
  then show ?thesis
    unfolding account_collect_def option.case well_described_simps
    using collect_status_described by (simp add: account_desc_defs)
qed (simp add: account_collect_def)

interpretation account:
  unique_collector account_refresh account_collect account_descriptors None "\<lambda>s. True"
  by unfold_locales
    (simp_all add: account_collect_unique account_collect_described, simp add: account_collect_def)

interpretation account_atomic:
  atomic_collector account_refresh account_collect account_descriptors None "\<lambda>s. True"
  by unfold_locales (simp add: account_refresh_def replace_snapshot_failure)

section \<open>balance\<close>

record godo_balance =
  gb_account_balance :: string
  gb_month_to_date_balance :: string
  gb_month_to_date_usage :: string
  gb_generated_at :: int

record balance =
  bl_balance :: float64
  bl_month_to_date_balance :: float64
  bl_month_to_date_usage :: float64
  bl_generated_at :: float64

definition balance_desc :: desc where
  "balance_desc = Desc ''digitalocean_account_balance'' []"
definition month_to_date_balance_desc :: desc where
  "month_to_date_balance_desc = Desc ''digitalocean_month_to_date_balance'' []"
definition month_to_date_usage_desc :: desc where
  "month_to_date_usage_desc = Desc ''digitalocean_month_to_date_usage'' []"
definition generated_at_desc :: desc where
  "generated_at_desc = Desc ''digitalocean_balance_generated_at'' []"

definition balance_descriptors :: "desc list" where
  "balance_descriptors =
     [balance_desc, month_to_date_balance_desc, month_to_date_usage_desc, generated_at_desc]"

lemmas balance_desc_defs = balance_descriptors_def balance_desc_def month_to_date_balance_desc_def
  month_to_date_usage_desc_def generated_at_desc_def

definition parse_amount :: "(string \<Rightarrow> float64 res) \<Rightarrow> string \<Rightarrow> string \<Rightarrow> float64 res" where
  "parse_amount parse_float raw field =
     (case parse_float (trim_space raw) of
        Inl e \<Rightarrow> Inl (Wrap (''parse '' @ field @ '' '' @ raw) [e])
      | Inr value \<Rightarrow> Inr value)"

definition read_balance :: "(string \<Rightarrow> float64 res) \<Rightarrow> godo_balance res \<Rightarrow> balance res" where
  "read_balance parse_float answer =
     and_then (case answer of Inl e \<Rightarrow> Inl (Wrap ''get balance'' [e]) | Inr bal \<Rightarrow> Inr bal) (\<lambda>bal.
     and_then (parse_amount parse_float (gb_account_balance bal) ''account_balance'') (\<lambda>b.
     and_then (parse_amount parse_float (gb_month_to_date_balance bal) ''month_to_date_balance'') (\<lambda>mb.
     and_then (parse_amount parse_float (gb_month_to_date_usage bal) ''month_to_date_usage'') (\<lambda>mu.
       Inr \<lparr>bl_balance = b, bl_month_to_date_balance = mb, bl_month_to_date_usage = mu,
            bl_generated_at = of_int64 (gb_generated_at bal)\<rparr>))))"

definition balance_refresh ::
  "(string \<Rightarrow> float64 res) \<Rightarrow> godo_balance res \<Rightarrow> balance option \<Rightarrow> balance option \<times> goerr option" where
  "balance_refresh parse_float answer snap =
     replace_snapshot (read_balance parse_float answer) Some snap"

definition balance_collect :: "balance option \<Rightarrow> metric list" where
  "balance_collect snap =
     (case snap of
        None \<Rightarrow> []
      | Some b \<Rightarrow>
          map (\<lambda>(d, v). gauge d v [])
            [(balance_desc, bl_balance b), (month_to_date_balance_desc, bl_month_to_date_balance b),
             (month_to_date_usage_desc, bl_month_to_date_usage b),
             (generated_at_desc, bl_generated_at b)])"

interpretation balance:
  unique_collector "balance_refresh p" balance_collect balance_descriptors None "\<lambda>s. True" for p
  by unfold_locales
    (auto simp: balance_collect_def balance_desc_defs no_duplicates_def split: option.splits)

interpretation balance_atomic:
  atomic_collector "balance_refresh p" balance_collect balance_descriptors None "\<lambda>s. True" for p
  by unfold_locales (simp add: balance_refresh_def replace_snapshot_failure)

section \<open>limits\<close>

text \<open>A list response is the total of its meta, or \<open>None\<close> where the response or its meta is nil.\<close>

record limits_api =
  lm_droplets :: "int option res"
  lm_reserved_ips :: "int option res"
  lm_volumes :: "int option res"

record limits =
  li_droplets :: float64
  li_reserved_ips :: float64
  li_volumes :: float64

definition limits_droplets_desc :: desc where
  "limits_droplets_desc = Desc ''digitalocean_account_droplets'' []"
definition limits_reserved_ips_desc :: desc where
  "limits_reserved_ips_desc = Desc ''digitalocean_account_reserved_ips'' []"
definition limits_volumes_desc :: desc where
  "limits_volumes_desc = Desc ''digitalocean_account_volumes'' []"

definition limits_descriptors :: "desc list" where
  "limits_descriptors = [limits_droplets_desc, limits_reserved_ips_desc, limits_volumes_desc]"

lemmas limits_desc_defs = limits_descriptors_def limits_droplets_desc_def limits_reserved_ips_desc_def
  limits_volumes_desc_def

definition total_of :: "int option \<Rightarrow> string \<Rightarrow> float64 res" where
  "total_of resp what =
     (case resp of
        None \<Rightarrow> Inl (Wrap (''count '' @ what) [Sentinel ErrNoTotal])
      | Some n \<Rightarrow> Inr (of_int64 n))"

definition count_droplets :: "limits_api \<Rightarrow> float64 res" where
  "count_droplets api =
     (case lm_droplets api of
        Inl e \<Rightarrow> Inl (Wrap ''list droplets'' [e]) | Inr resp \<Rightarrow> total_of resp ''droplets'')"

definition count_reserved_ips :: "limits_api \<Rightarrow> float64 res" where
  "count_reserved_ips api =
     (case lm_reserved_ips api of
        Inl e \<Rightarrow> Inl (Wrap ''list reserved IPs'' [e]) | Inr resp \<Rightarrow> total_of resp ''reserved IPs'')"

definition count_volumes :: "limits_api \<Rightarrow> float64 res" where
  "count_volumes api =
     (case lm_volumes api of
        Inl e \<Rightarrow> Inl (Wrap ''list volumes'' [e]) | Inr resp \<Rightarrow> total_of resp ''volumes'')"

definition limits_refresh :: "limits_api \<Rightarrow> limits option \<Rightarrow> limits option \<times> goerr option" where
  "limits_refresh api snap =
     replace_snapshot
       (and_then (count_droplets api) (\<lambda>d.
        and_then (count_reserved_ips api) (\<lambda>r.
        and_then (count_volumes api) (\<lambda>v.
          Inr \<lparr>li_droplets = d, li_reserved_ips = r, li_volumes = v\<rparr>)))) Some snap"

definition limits_collect :: "limits option \<Rightarrow> metric list" where
  "limits_collect snap =
     (case snap of
        None \<Rightarrow> []
      | Some l \<Rightarrow>
          map (\<lambda>(d, v). gauge d v [])
            [(limits_droplets_desc, li_droplets l), (limits_reserved_ips_desc, li_reserved_ips l),
             (limits_volumes_desc, li_volumes l)])"

interpretation limits:
  unique_collector limits_refresh limits_collect limits_descriptors None "\<lambda>s. True"
  by unfold_locales
    (auto simp: limits_collect_def limits_desc_defs no_duplicates_def split: option.splits)

interpretation limits_atomic:
  atomic_collector limits_refresh limits_collect limits_descriptors None "\<lambda>s. True"
  by unfold_locales (simp add: limits_refresh_def replace_snapshot_failure)

section \<open>Properties\<close>

text \<open>
  Of the status series of an account exactly one reads 1, the one of its status, whether or not
  that status is a documented one; every other reads 0.
\<close>

lemma account_status_one:
  assumes "status \<noteq> ''''"
  shows "filter (\<lambda>m. m_value m = Fin 1) (collect_status status) =
      [gauge account_status_desc (Fin 1) [status]] \<and>
    list_all (\<lambda>m. m_value m = Fin 1 \<or> m_value m = Fin 0) (collect_status status) \<and>
    length known_statuses \<le> length (collect_status status)"
  using status_series_one [OF assms known_statuses_distinct]
  by (auto simp: collect_status_def list_all_iff) (simp add: status_series_def with_unknown_def)

text \<open>
  The limits are replaced together or not at all: a refresh that succeeds has read all three
  counts from a meta, and one that fails keeps the snapshot.
\<close>

lemma limits_all_or_nothing:
  "(case limits_refresh api snap of
      (snap', None) \<Rightarrow> (\<exists>d r v. lm_droplets api = Inr (Some d) \<and> lm_reserved_ips api = Inr (Some r) \<and>
          lm_volumes api = Inr (Some v) \<and>
          snap' = Some \<lparr>li_droplets = of_int64 d, li_reserved_ips = of_int64 r,
                        li_volumes = of_int64 v\<rparr>)
    | (snap', Some e) \<Rightarrow> snap' = snap)"
  by (auto simp: limits_refresh_def replace_snapshot_def count_droplets_def count_reserved_ips_def
      count_volumes_def total_of_def split: sum.splits option.splits)

end
