(* ===== verification/Listing.thy ===== *)
theory Listing
  imports Collector
begin

text \<open>
  The shape of the collectors that read one paged list: Refresh walks every page, drops what the
  filter does not match, converts the rest and replaces the snapshot, and Collect sends a block
  of metrics for each entry. The locale \<open>plain_listing\<close> states what such a collector has to give
  and derives the contract of an atomic collector from it; \<open>listing\<close> adds what makes its series
  unique. The component theories interpret them.
\<close>

record 'g listing_api =
  la_ctx :: ctx
  la_list :: "'g list_func"

definition listing_refresh ::
  "('g \<Rightarrow> bool) \<Rightarrow> ('g \<Rightarrow> 'x) \<Rightarrow> ('g \<Rightarrow> 'k) \<Rightarrow> string \<Rightarrow> 'g listing_api \<Rightarrow> 'x list
     \<Rightarrow> 'x list \<times> goerr option" where
  "listing_refresh keep convert key what api snap =
     replace_snapshot (fst (paging_all (la_ctx api) what key (la_list api)))
       (\<lambda>xs. map convert (filter keep xs)) snap"

definition listing_collect :: "('x \<Rightarrow> metric list) \<Rightarrow> 'x list \<Rightarrow> metric list" where
  "listing_collect block snap = concat (map block snap)"

locale plain_listing =
  fixes keep :: "'g \<Rightarrow> bool"
    and convert :: "'g \<Rightarrow> 'x"
    and key :: "'g \<Rightarrow> string"
    and what :: string
    and ident :: "'x \<Rightarrow> string"
    and block :: "'x \<Rightarrow> metric list"
    and describe :: "desc list"
  assumes ident_convert: "ident (convert g) = key g"
    and block_described: "well_described describe (block x)"
    and block_owner: "m \<in> set (block x) \<Longrightarrow> first_label m = ident x"
begin

definition idents_ok :: "'x list \<Rightarrow> bool" where
  "idents_ok snap \<longleftrightarrow> distinct (map ident snap)"

lemma converted_idents:
  assumes "fst (paging_all c what key list) = Inr xs"
  shows "distinct (map ident (map convert (filter keep xs)))"
proof -
  have "distinct (map key xs)" using assms by (rule paging_all_distinct)
  then have "distinct (map key (filter keep xs))" by (rule distinct_map_filter)
  moreover have "map ident (map convert (filter keep xs)) = map key (filter keep xs)"
    by (simp add: ident_convert)
  ultimately show ?thesis by (simp only:)
qed

lemma refresh_idents_ok:
  "idents_ok s \<Longrightarrow> idents_ok (fst (listing_refresh keep convert key what api s))"
  unfolding listing_refresh_def
  by (rule replace_snapshot_ok, assumption) (simp only: idents_ok_def, rule converted_idents)

lemma blocks_unique:
  "idents_ok s \<Longrightarrow> (\<And>x. x \<in> set s \<Longrightarrow> distinct (map series_of (block x))) \<Longrightarrow>
     no_duplicates (listing_collect block s)"
  unfolding listing_collect_def idents_ok_def
  by (rule no_duplicates_by_id [where key = ident]) (auto simp: block_owner)

text \<open>What a successful Refresh holds: every listed entry that passes, converted.\<close>

lemma refresh_entries:
  assumes "snd (listing_refresh keep convert key what api s) = None"
  shows "\<exists>xs. fst (paging_all (la_ctx api) what key (la_list api)) = Inr xs \<and>
    fst (listing_refresh keep convert key what api s) = map convert (filter keep xs)"
  using assms by (auto simp: listing_refresh_def replace_snapshot_def split: sum.splits)

end

sublocale plain_listing \<subseteq> plain: atomic_collector "listing_refresh keep convert key what"
  "listing_collect block" describe "[]" idents_ok
  by unfold_locales
    (auto simp: idents_ok_def [of "[]"] listing_collect_def well_described_concat_map
      block_described refresh_idents_ok, simp add: listing_refresh_def replace_snapshot_failure)

locale listing = plain_listing keep convert key what ident block describe
  for keep :: "'g \<Rightarrow> bool"
    and convert :: "'g \<Rightarrow> 'x"
    and key :: "'g \<Rightarrow> string"
    and what :: string
    and ident :: "'x \<Rightarrow> string"
    and block :: "'x \<Rightarrow> metric list"
    and describe :: "desc list" +
  fixes entry_ok :: "'x \<Rightarrow> bool"
  assumes convert_ok: "entry_ok (convert g)"
    and block_distinct: "entry_ok x \<Longrightarrow> distinct (map series_of (block x))"
begin

definition snapshot_ok :: "'x list \<Rightarrow> bool" where
  "snapshot_ok snap \<longleftrightarrow> idents_ok snap \<and> (\<forall>x \<in> set snap. entry_ok x)"

lemma refresh_snapshot_ok:
  "snapshot_ok s \<Longrightarrow> snapshot_ok (fst (listing_refresh keep convert key what api s))"
  unfolding snapshot_ok_def
  by (auto simp: refresh_idents_ok)
    (auto simp: listing_refresh_def replace_snapshot_def convert_ok split: sum.splits)

lemma collect_unique: "snapshot_ok s \<Longrightarrow> no_duplicates (listing_collect block s)"
  by (rule blocks_unique) (auto simp: snapshot_ok_def block_distinct)

end

sublocale listing \<subseteq> unique_collector "listing_refresh keep convert key what"
  "listing_collect block" describe "[]" snapshot_ok
  by unfold_locales
    (auto simp: snapshot_ok_def [of "[]"] idents_ok_def [of "[]"] listing_collect_def
      well_described_concat_map block_described refresh_snapshot_ok
      collect_unique [unfolded listing_collect_def])

end
