(* ===== verification/Resource_Lists.thy ===== *)
theory Resource_Lists
  imports Listing
begin

text \<open>
  internal/collector/domains, tags, volumes and firewalls: the collectors whose refresh is one
  paged list. Each is its API record, its snapshot entry, the conversion, the filter condition
  and the block of metrics of an entry, and an interpretation of \<open>listing\<close>. A nil pointer in an
  answer is \<open>None\<close>.
\<close>

section \<open>domains\<close>

record godo_domain =
  gdm_name :: string
  gdm_ttl :: int

record domain =
  dn_name :: string
  dn_ttl :: float64

definition domain_ttl_desc :: desc where
  "domain_ttl_desc = Desc ''digitalocean_domain_ttl_seconds'' [''domain'']"

definition domain_descriptors :: "desc list" where
  "domain_descriptors = [domain_ttl_desc]"

definition new_domain :: "godo_domain \<Rightarrow> domain" where
  "new_domain z = \<lparr>dn_name = gdm_name z, dn_ttl = of_int64 (gdm_ttl z)\<rparr>"

definition domain_metrics :: "domain \<Rightarrow> metric list" where
  "domain_metrics d = [gauge domain_ttl_desc (dn_ttl d) [dn_name d]]"

definition domains_refresh ::
  "godo_domain listing_api \<Rightarrow> domain list \<Rightarrow> domain list \<times> goerr option" where
  "domains_refresh = listing_refresh (\<lambda>z. True) new_domain gdm_name ''domains''"

definition domains_collect :: "domain list \<Rightarrow> metric list" where
  "domains_collect = listing_collect domain_metrics"

interpretation domains:
  listing "\<lambda>z. True" new_domain gdm_name "''domains''" dn_name domain_metrics domain_descriptors
    "\<lambda>x. True"
  rewrites "listing_refresh (\<lambda>z. True) new_domain gdm_name ''domains'' = domains_refresh"
    and "listing_collect domain_metrics = domains_collect"
  by unfold_locales
    (auto simp: new_domain_def domain_metrics_def domain_descriptors_def domain_ttl_desc_def
      domains_refresh_def domains_collect_def)

section \<open>tags\<close>

record godo_tag_resources =
  gtr_droplets :: "int option"
  gtr_images :: "int option"
  gtr_volumes :: "int option"
  gtr_volume_snapshots :: "int option"
  gtr_databases :: "int option"

record godo_tag =
  gtg_name :: string
  gtg_resources :: "godo_tag_resources option"

record type_count =
  tc_type :: string
  tc_count :: float64

record tag =
  tag_name :: string
  tag_counts :: "type_count list"

definition tag_resources_desc :: desc where
  "tag_resources_desc = Desc ''digitalocean_tag_resources'' [''tag'', ''type'']"

definition tag_descriptors :: "desc list" where
  "tag_descriptors = [tag_resources_desc]"

definition type_count_of :: "string \<Rightarrow> int option \<Rightarrow> type_count list" where
  "type_count_of t c =
     (case c of None \<Rightarrow> [] | Some n \<Rightarrow> [\<lparr>tc_type = t, tc_count = of_int64 n\<rparr>])"

definition new_tag :: "godo_tag \<Rightarrow> tag" where
  "new_tag t =
     \<lparr>tag_name = gtg_name t,
      tag_counts =
        (case gtg_resources t of
           None \<Rightarrow> []
         | Some r \<Rightarrow>
             type_count_of ''droplet'' (gtr_droplets r) @
             type_count_of ''image'' (gtr_images r) @
             type_count_of ''volume'' (gtr_volumes r) @
             type_count_of ''volume_snapshot'' (gtr_volume_snapshots r) @
             type_count_of ''database'' (gtr_databases r))\<rparr>"

definition tag_metrics :: "tag \<Rightarrow> metric list" where
  "tag_metrics t =
     map (\<lambda>tc. gauge tag_resources_desc (tc_count tc) [tag_name t, tc_type tc]) (tag_counts t)"

definition tags_refresh :: "godo_tag listing_api \<Rightarrow> tag list \<Rightarrow> tag list \<times> goerr option" where
  "tags_refresh = listing_refresh (\<lambda>t. True) new_tag gtg_name ''tags''"

definition tags_collect :: "tag list \<Rightarrow> metric list" where
  "tags_collect = listing_collect tag_metrics"

definition tag_entry_ok :: "tag \<Rightarrow> bool" where
  "tag_entry_ok t = distinct (map tc_type (tag_counts t))"

lemma tag_series: "distinct (map series_of (tag_metrics t)) \<longleftrightarrow> tag_entry_ok t"
proof -
  have "map series_of (tag_metrics t) =
      map (\<lambda>ty. (fq_name tag_resources_desc, [tag_name t, ty])) (map tc_type (tag_counts t))"
    by (simp add: tag_metrics_def)
  then show ?thesis
    unfolding tag_entry_ok_def by (simp only: distinct_map [of _ "map tc_type _"]) (simp add: inj_on_def)
qed

interpretation tags:
  listing "\<lambda>t. True" new_tag gtg_name "''tags''" tag_name tag_metrics tag_descriptors tag_entry_ok
  rewrites "listing_refresh (\<lambda>t. True) new_tag gtg_name ''tags'' = tags_refresh"
    and "listing_collect tag_metrics = tags_collect"
proof -
  show "listing new_tag gtg_name tag_name tag_metrics tag_descriptors tag_entry_ok"
  proof
    show "tag_entry_ok (new_tag g)" for g
      by (auto simp: tag_entry_ok_def new_tag_def type_count_of_def split: option.splits)
  qed (auto simp: new_tag_def tag_series, auto simp: tag_metrics_def tag_descriptors_def
      tag_resources_desc_def well_described_def)
qed (simp_all add: tags_refresh_def tags_collect_def)

section \<open>volumes\<close>

record godo_volume =
  gv_id :: string
  gv_name :: string
  gv_region :: "string option"
  gv_tags :: "string list"
  gv_filesystem_type :: string
  gv_filesystem_label :: string
  gv_size_gigabytes :: int
  gv_droplet_ids :: "int list"

record volume =
  v_id :: string
  v_name :: string
  v_region :: string
  v_filesystem_type :: string
  v_filesystem_label :: string
  v_size :: float64
  v_droplets :: float64

definition volume_size_desc :: desc where
  "volume_size_desc = Desc ''digitalocean_volume_size_bytes'' [''id'', ''name'', ''region'']"
definition volume_droplets_desc :: desc where
  "volume_droplets_desc = Desc ''digitalocean_volume_droplets'' [''id'', ''name'', ''region'']"
definition volume_info_desc :: desc where
  "volume_info_desc = Desc ''digitalocean_volume_info''
     [''id'', ''name'', ''region'', ''filesystem_type'', ''filesystem_label'']"

definition volume_descriptors :: "desc list" where
  "volume_descriptors = [volume_size_desc, volume_droplets_desc, volume_info_desc]"

definition volume_region_slug :: "godo_volume \<Rightarrow> string" where
  "volume_region_slug v = (case gv_region v of None \<Rightarrow> '''' | Some slug \<Rightarrow> slug)"

definition new_volume :: "godo_volume \<Rightarrow> volume" where
  "new_volume v =
     \<lparr>v_id = gv_id v, v_name = gv_name v,
      v_region = (case gv_region v of None \<Rightarrow> '''' | Some slug \<Rightarrow> slug),
      v_filesystem_type = gv_filesystem_type v, v_filesystem_label = gv_filesystem_label v,
      v_size = flt_scale 30 (of_int64 (gv_size_gigabytes v)),
      v_droplets = len_float (gv_droplet_ids v)\<rparr>"

definition volume_metrics :: "volume \<Rightarrow> metric list" where
  "volume_metrics v =
     (let labels = [v_id v, v_name v, v_region v] in
      [gauge volume_size_desc (v_size v) labels,
       gauge volume_droplets_desc (v_droplets v) labels,
       gauge volume_info_desc (Fin 1)
         [v_id v, v_name v, v_region v, v_filesystem_type v, v_filesystem_label v]])"

definition volume_keep :: "filter_conf \<Rightarrow> godo_volume \<Rightarrow> bool" where
  "volume_keep f v = match f (gv_tags v) (volume_region_slug v)"

definition volumes_refresh ::
  "filter_conf \<Rightarrow> godo_volume listing_api \<Rightarrow> volume list \<Rightarrow> volume list \<times> goerr option" where
  "volumes_refresh f = listing_refresh (volume_keep f) new_volume gv_id ''volumes''"

definition volumes_collect :: "volume list \<Rightarrow> metric list" where
  "volumes_collect = listing_collect volume_metrics"

lemmas volume_desc_defs = volume_descriptors_def volume_size_desc_def volume_droplets_desc_def
  volume_info_desc_def

interpretation volumes:
  listing "volume_keep f" new_volume gv_id "''volumes''" v_id volume_metrics volume_descriptors
    "\<lambda>x. True"
  rewrites "listing_refresh (volume_keep f) new_volume gv_id ''volumes'' = volumes_refresh f"
    and "listing_collect volume_metrics = volumes_collect"
  for f
  by unfold_locales
    (auto simp: new_volume_def volume_metrics_def volume_desc_defs Let_def
      volumes_refresh_def volumes_collect_def)

section \<open>firewalls\<close>

record godo_inbound_rule =
  gir_sources :: "string list option"

record godo_firewall =
  gf_id :: string
  gf_name :: string
  gf_status :: string
  gf_tags :: "string list"
  gf_droplet_ids :: "int list"
  gf_inbound_rules :: "godo_inbound_rule list"
  gf_outbound_rules :: nat
  gf_pending_changes :: nat

record firewall =
  fw_id :: string
  fw_name :: string
  fw_status :: string
  fw_droplets :: float64
  fw_tags :: float64
  fw_inbound :: float64
  fw_outbound :: float64
  fw_open :: float64
  fw_pending :: float64

definition anywhere_v4 :: string where "anywhere_v4 = ''0.0.0.0/0''"
definition anywhere_v6 :: string where "anywhere_v6 = ''::/0''"

definition firewall_info_desc :: desc where
  "firewall_info_desc = Desc ''digitalocean_firewall_info'' [''id'', ''name'', ''status'']"
definition firewall_droplets_desc :: desc where
  "firewall_droplets_desc = Desc ''digitalocean_firewall_droplets'' [''id'', ''name'']"
definition firewall_tags_desc :: desc where
  "firewall_tags_desc = Desc ''digitalocean_firewall_tags'' [''id'', ''name'']"
definition firewall_inbound_desc :: desc where
  "firewall_inbound_desc = Desc ''digitalocean_firewall_inbound_rules'' [''id'', ''name'']"
definition firewall_outbound_desc :: desc where
  "firewall_outbound_desc = Desc ''digitalocean_firewall_outbound_rules'' [''id'', ''name'']"
definition firewall_open_desc :: desc where
  "firewall_open_desc = Desc ''digitalocean_firewall_inbound_rules_open'' [''id'', ''name'']"
definition firewall_pending_desc :: desc where
  "firewall_pending_desc = Desc ''digitalocean_firewall_pending_changes'' [''id'', ''name'']"

definition firewall_descriptors :: "desc list" where
  "firewall_descriptors =
     [firewall_info_desc, firewall_droplets_desc, firewall_tags_desc, firewall_inbound_desc,
      firewall_outbound_desc, firewall_open_desc, firewall_pending_desc]"

text \<open>
  \<open>countOpen\<close>: the inner loop stops at the first open address, so a rule counts once. The
  outbound rules and the pending changes are only counted, so they are their number here.
\<close>

fun lists_anywhere :: "string list \<Rightarrow> bool" where
  "lists_anywhere [] = False"
| "lists_anywhere (addr # addrs) =
     (if addr = anywhere_v4 \<or> addr = anywhere_v6 then True else lists_anywhere addrs)"

fun count_open :: "godo_inbound_rule list \<Rightarrow> nat" where
  "count_open [] = 0"
| "count_open (r # rules) =
     (case gir_sources r of
        None \<Rightarrow> count_open rules
      | Some addrs \<Rightarrow> (if lists_anywhere addrs then 1 else 0) + count_open rules)"

definition new_firewall :: "godo_firewall \<Rightarrow> firewall" where
  "new_firewall f =
     \<lparr>fw_id = gf_id f, fw_name = gf_name f, fw_status = gf_status f,
      fw_droplets = len_float (gf_droplet_ids f), fw_tags = len_float (gf_tags f),
      fw_inbound = len_float (gf_inbound_rules f),
      fw_outbound = of_int64 (int (gf_outbound_rules f)),
      fw_open = of_int64 (int (count_open (gf_inbound_rules f))),
      fw_pending = of_int64 (int (gf_pending_changes f))\<rparr>"

definition firewall_metrics :: "firewall \<Rightarrow> metric list" where
  "firewall_metrics f =
     [gauge firewall_info_desc (Fin 1) [fw_id f, fw_name f, fw_status f],
      gauge firewall_droplets_desc (fw_droplets f) [fw_id f, fw_name f],
      gauge firewall_tags_desc (fw_tags f) [fw_id f, fw_name f],
      gauge firewall_inbound_desc (fw_inbound f) [fw_id f, fw_name f],
      gauge firewall_outbound_desc (fw_outbound f) [fw_id f, fw_name f],
      gauge firewall_open_desc (fw_open f) [fw_id f, fw_name f],
      gauge firewall_pending_desc (fw_pending f) [fw_id f, fw_name f]]"

definition firewall_keep :: "filter_conf \<Rightarrow> godo_firewall \<Rightarrow> bool" where
  "firewall_keep f fw = match_tags f (gf_tags fw)"

definition firewalls_refresh ::
  "filter_conf \<Rightarrow> godo_firewall listing_api \<Rightarrow> firewall list \<Rightarrow> firewall list \<times> goerr option" where
  "firewalls_refresh f = listing_refresh (firewall_keep f) new_firewall gf_id ''firewalls''"

definition firewalls_collect :: "firewall list \<Rightarrow> metric list" where
  "firewalls_collect = listing_collect firewall_metrics"

lemmas firewall_desc_defs = firewall_descriptors_def firewall_info_desc_def
  firewall_droplets_desc_def firewall_tags_desc_def firewall_inbound_desc_def
  firewall_outbound_desc_def firewall_open_desc_def firewall_pending_desc_def

interpretation firewalls:
  listing "firewall_keep f" new_firewall gf_id "''firewalls''" fw_id firewall_metrics
    firewall_descriptors "\<lambda>x. True"
  rewrites "listing_refresh (firewall_keep f) new_firewall gf_id ''firewalls'' = firewalls_refresh f"
    and "listing_collect firewall_metrics = firewalls_collect"
  for f
  by unfold_locales
    (auto simp: new_firewall_def firewall_metrics_def firewall_desc_defs
      firewalls_refresh_def firewalls_collect_def)

section \<open>Properties\<close>

text \<open>
  Over any refreshes, the domains, tags, volumes and firewalls collectors never send a
  series twice.
\<close>

lemma lists_unique:
  "no_duplicates (domains_collect (refreshes domains_refresh envs1 [])) \<and>
   no_duplicates (tags_collect (refreshes tags_refresh envs2 [])) \<and>
   no_duplicates (volumes_collect (refreshes (volumes_refresh f) envs3 [])) \<and>
   no_duplicates (firewalls_collect (refreshes (firewalls_refresh f) envs4 []))"
  using domains.always_unique tags.always_unique volumes.always_unique firewalls.always_unique
  by blast

lemma lists_anywhere_iff:
  "lists_anywhere addrs \<longleftrightarrow> anywhere_v4 \<in> set addrs \<or> anywhere_v6 \<in> set addrs"
  by (induction addrs) auto

definition open_rule :: "godo_inbound_rule \<Rightarrow> bool" where
  "open_rule r =
     (case gir_sources r of
        None \<Rightarrow> False | Some addrs \<Rightarrow> anywhere_v4 \<in> set addrs \<or> anywhere_v6 \<in> set addrs)"

lemma count_open_eq: "count_open rules = length (filter open_rule rules)"
  by (induction rules) (auto simp: open_rule_def lists_anywhere_iff split: option.splits)

text \<open>
  The open-rules gauge of a firewall is the number of its inbound rules whose sources name
  the whole IPv4 or the whole IPv6 internet, each counted once, and never exceeds the number of
  inbound rules.
\<close>

lemma firewall_open_rules:
  assumes "length (gf_inbound_rules f) < 2 ^ 53"
  shows "fw_open (new_firewall f) = Fin (of_nat (length (filter open_rule (gf_inbound_rules f)))) \<and>
    flt_le (fw_open (new_firewall f)) (fw_inbound (new_firewall f))"
proof -
  have le: "length (filter open_rule (gf_inbound_rules f)) \<le> length (gf_inbound_rules f)" by simp
  from le_less_trans [OF this assms] have "fw_open (new_firewall f) = Fin (of_nat (length (filter open_rule (gf_inbound_rules f))))"
    by (simp add: new_firewall_def count_open_eq len_float_exact flip: len_float_def)
  moreover have "fw_inbound (new_firewall f) = Fin (of_nat (length (gf_inbound_rules f)))"
    using assms by (simp add: new_firewall_def len_float_exact)
  ultimately show ?thesis using le_neq_implies_less [OF le] by auto
qed

lemma firewall_open_rules_witness:
  "let f = \<lparr>gf_id = ''f'', gf_name = ''web'', gf_status = '''', gf_tags = [], gf_droplet_ids = [],
            gf_inbound_rules = [\<lparr>gir_sources = Some [''10.0.0.0/8'', ''0.0.0.0/0'', ''::/0'']\<rparr>,
                                \<lparr>gir_sources = None\<rparr>],
            gf_outbound_rules = 0, gf_pending_changes = 0\<rparr>
   in fw_open (new_firewall f) = Fin 1"
  unfolding Let_def
  by (subst firewall_open_rules [THEN conjunct1])
    (simp_all add: open_rule_def anywhere_v4_def)

end
