(* ===== verification/Edge_Lists.thy ===== *)
theory Edge_Lists
  imports Listing "HOL-Library.Word"
begin

text \<open>
  internal/collector/cdn, certificates and dropletautoscale: three more collectors of the shape of
  \<open>listing\<close>. \<open>time.Parse\<close> with RFC 3339 is a parameter giving the Unix time of a well-formed
  string. The autoscale pools are read by a request of the collector's own, whose construction
  and sending by the API client are parameters; an unsigned 64-bit field is a word.
\<close>

section \<open>cdn\<close>

record godo_cdn =
  gcd_id :: string
  gcd_origin :: string
  gcd_endpoint :: string
  gcd_custom_domain :: string
  gcd_certificate_id :: string
  gcd_ttl :: "32 word"

record endpoint =
  ep_id :: string
  ep_origin :: string
  ep_endpoint :: string
  ep_custom_domain :: string
  ep_certificate_id :: string
  ep_ttl :: float64

definition cdn_ttl_desc :: desc where
  "cdn_ttl_desc = Desc ''digitalocean_cdn_endpoint_ttl_seconds'' [''id'', ''origin'', ''endpoint'']"
definition cdn_info_desc :: desc where
  "cdn_info_desc = Desc ''digitalocean_cdn_endpoint_info''
     [''id'', ''origin'', ''endpoint'', ''custom_domain'', ''certificate_id'']"

definition cdn_descriptors :: "desc list" where
  "cdn_descriptors = [cdn_ttl_desc, cdn_info_desc]"

definition new_endpoint :: "godo_cdn \<Rightarrow> endpoint" where
  "new_endpoint e =
     \<lparr>ep_id = gcd_id e, ep_origin = gcd_origin e, ep_endpoint = gcd_endpoint e,
      ep_custom_domain = gcd_custom_domain e, ep_certificate_id = gcd_certificate_id e,
      ep_ttl = of_int64 (uint (gcd_ttl e))\<rparr>"

definition endpoint_metrics :: "endpoint \<Rightarrow> metric list" where
  "endpoint_metrics e =
     [gauge cdn_ttl_desc (ep_ttl e) [ep_id e, ep_origin e, ep_endpoint e],
      gauge cdn_info_desc (Fin 1)
        [ep_id e, ep_origin e, ep_endpoint e, ep_custom_domain e, ep_certificate_id e]]"

definition cdn_refresh ::
  "godo_cdn listing_api \<Rightarrow> endpoint list \<Rightarrow> endpoint list \<times> goerr option" where
  "cdn_refresh = listing_refresh (\<lambda>e. True) new_endpoint gcd_id ''CDN endpoints''"

definition cdn_collect :: "endpoint list \<Rightarrow> metric list" where
  "cdn_collect = listing_collect endpoint_metrics"

lemmas cdn_desc_defs = cdn_descriptors_def cdn_ttl_desc_def cdn_info_desc_def

interpretation cdn:
  listing "\<lambda>e. True" new_endpoint gcd_id "''CDN endpoints''" ep_id endpoint_metrics
    cdn_descriptors "\<lambda>x. True"
  rewrites "listing_refresh (\<lambda>e. True) new_endpoint gcd_id ''CDN endpoints'' = cdn_refresh"
    and "listing_collect endpoint_metrics = cdn_collect"
  by unfold_locales
    (auto simp: new_endpoint_def endpoint_metrics_def cdn_desc_defs cdn_refresh_def cdn_collect_def)

section \<open>certificates\<close>

record godo_certificate =
  gct_id :: string
  gct_name :: string
  gct_type :: string
  gct_state :: string
  gct_sha1_fingerprint :: string
  gct_dns_names :: "string list"
  gct_not_after :: string

record certificate =
  crt_id :: string
  crt_name :: string
  crt_kind :: string
  crt_state :: string
  crt_fingerprint :: string
  crt_dns_names :: float64
  crt_expires :: bool
  crt_not_after :: float64

definition certificate_expiry_desc :: desc where
  "certificate_expiry_desc =
     Desc ''digitalocean_certificate_expiry_timestamp_seconds'' [''id'', ''name'', ''type'']"
definition certificate_info_desc :: desc where
  "certificate_info_desc = Desc ''digitalocean_certificate_info''
     [''id'', ''name'', ''type'', ''state'', ''sha1_fingerprint'']"
definition certificate_dns_names_desc :: desc where
  "certificate_dns_names_desc = Desc ''digitalocean_certificate_dns_names'' [''id'', ''name'']"

definition certificate_descriptors :: "desc list" where
  "certificate_descriptors =
     [certificate_expiry_desc, certificate_info_desc, certificate_dns_names_desc]"

definition new_certificate :: "(string \<Rightarrow> int option) \<Rightarrow> godo_certificate \<Rightarrow> certificate" where
  "new_certificate parse_rfc3339 cert =
     \<lparr>crt_id = gct_id cert, crt_name = gct_name cert, crt_kind = gct_type cert,
      crt_state = gct_state cert, crt_fingerprint = gct_sha1_fingerprint cert,
      crt_dns_names = len_float (gct_dns_names cert),
      crt_expires = (parse_rfc3339 (gct_not_after cert) \<noteq> None),
      crt_not_after = (case parse_rfc3339 (gct_not_after cert) of
                         None \<Rightarrow> Fin 0 | Some unix \<Rightarrow> of_int64 unix)\<rparr>"

definition certificate_metrics :: "certificate \<Rightarrow> metric list" where
  "certificate_metrics cert =
     [gauge certificate_info_desc (Fin 1)
        [crt_id cert, crt_name cert, crt_kind cert, crt_state cert, crt_fingerprint cert],
      gauge certificate_dns_names_desc (crt_dns_names cert) [crt_id cert, crt_name cert]] @
     (if crt_expires cert
      then [gauge certificate_expiry_desc (crt_not_after cert)
              [crt_id cert, crt_name cert, crt_kind cert]]
      else [])"

definition certificates_refresh ::
  "(string \<Rightarrow> int option) \<Rightarrow> godo_certificate listing_api \<Rightarrow> certificate list
     \<Rightarrow> certificate list \<times> goerr option" where
  "certificates_refresh p = listing_refresh (\<lambda>c. True) (new_certificate p) gct_id ''certificates''"

definition certificates_collect :: "certificate list \<Rightarrow> metric list" where
  "certificates_collect = listing_collect certificate_metrics"

lemmas certificate_desc_defs = certificate_descriptors_def certificate_expiry_desc_def
  certificate_info_desc_def certificate_dns_names_desc_def

interpretation certificates:
  listing "\<lambda>c. True" "new_certificate p" gct_id "''certificates''" crt_id certificate_metrics
    certificate_descriptors "\<lambda>x. True"
  rewrites "listing_refresh (\<lambda>c. True) (new_certificate p) gct_id ''certificates'' =
      certificates_refresh p"
    and "listing_collect certificate_metrics = certificates_collect"
  for p
  by unfold_locales
    (auto simp: new_certificate_def certificate_metrics_def certificate_desc_defs
      certificates_refresh_def certificates_collect_def split: if_splits)

section \<open>dropletautoscale\<close>

record pool_config =
  pc_min_instances :: "64 word"
  pc_max_instances :: "64 word"
  pc_target_number :: "64 word"
  pc_target_cpu :: float64
  pc_target_memory :: float64

record api_pool =
  ap_id :: string
  ap_name :: string
  ap_status :: string
  ap_active_resources :: "64 word"
  ap_config :: pool_config
  ap_template_region :: string
  ap_template_size :: string
  ap_utilization :: "(float64 \<times> float64) option"

text \<open>The decoded body of a page: its pools, and its links unless they are nil.\<close>

record pools_root =
  pr_pools :: "api_pool list"
  pr_links :: "links option"

definition autoscale_pool_labels :: "string list" where
  "autoscale_pool_labels = [''id'', ''name'']"

definition autoscale_info_desc :: desc where
  "autoscale_info_desc = Desc ''digitalocean_droplet_autoscale_pool_info''
     [''id'', ''name'', ''region'', ''size'', ''status'']"
definition autoscale_min_desc :: desc where
  "autoscale_min_desc =
     Desc ''digitalocean_droplet_autoscale_pool_min_instances'' autoscale_pool_labels"
definition autoscale_max_desc :: desc where
  "autoscale_max_desc =
     Desc ''digitalocean_droplet_autoscale_pool_max_instances'' autoscale_pool_labels"
definition autoscale_target_desc :: desc where
  "autoscale_target_desc =
     Desc ''digitalocean_droplet_autoscale_pool_target_instances'' autoscale_pool_labels"
definition autoscale_active_desc :: desc where
  "autoscale_active_desc =
     Desc ''digitalocean_droplet_autoscale_pool_active_instances'' autoscale_pool_labels"
definition autoscale_target_cpu_desc :: desc where
  "autoscale_target_cpu_desc =
     Desc ''digitalocean_droplet_autoscale_pool_target_cpu_utilization_ratio'' autoscale_pool_labels"
definition autoscale_target_memory_desc :: desc where
  "autoscale_target_memory_desc =
     Desc ''digitalocean_droplet_autoscale_pool_target_memory_utilization_ratio'' autoscale_pool_labels"
definition autoscale_current_cpu_desc :: desc where
  "autoscale_current_cpu_desc =
     Desc ''digitalocean_droplet_autoscale_pool_current_cpu_utilization_ratio'' autoscale_pool_labels"
definition autoscale_current_memory_desc :: desc where
  "autoscale_current_memory_desc =
     Desc ''digitalocean_droplet_autoscale_pool_current_memory_utilization_ratio''
       autoscale_pool_labels"

definition autoscale_descriptors :: "desc list" where
  "autoscale_descriptors =
     [autoscale_info_desc, autoscale_min_desc, autoscale_max_desc, autoscale_target_desc,
      autoscale_active_desc, autoscale_target_cpu_desc, autoscale_target_memory_desc,
      autoscale_current_cpu_desc, autoscale_current_memory_desc]"

lemmas autoscale_desc_defs = autoscale_info_desc_def autoscale_min_desc_def autoscale_max_desc_def
  autoscale_target_desc_def autoscale_active_desc_def autoscale_target_cpu_desc_def
  autoscale_target_memory_desc_def autoscale_current_cpu_desc_def
  autoscale_current_memory_desc_def autoscale_pool_labels_def

text \<open>
  What \<open>NewRequest\<close> makes of a path, and what \<open>Do\<close> answers to the \<open>k\<close>-th request: the
  decoded body and the links of the response itself.
\<close>

record 'req autoscale_api =
  aa_ctx :: ctx
  aa_new_request :: "string \<Rightarrow> 'req res"
  aa_do :: "nat \<Rightarrow> 'req \<Rightarrow> (pools_root \<times> links) res"

text \<open>
  \<open>url.Values\<close> holds one value per key here, and \<open>Encode\<close> writes them sorted by key; numbers need
  no escaping.
\<close>

definition autoscale_query :: "int \<Rightarrow> int \<Rightarrow> (string \<times> string) list" where
  "autoscale_query page per =
     (if page > 0 then [(''page'', itoa page)] else []) @
     (if per > 0 then [(''per_page'', itoa per)] else [])"

definition encode_values :: "(string \<times> string) list \<Rightarrow> string" where
  "encode_values vs =
     join_with ''&'' (map (\<lambda>(name, v). name @ ''='' @ v) (sort_key fst vs))"

definition list_pools :: "'req autoscale_api \<Rightarrow> api_pool list_func" where
  "list_pools api k page =
     (let path = ''v2/droplets/autoscale?'' @ encode_values (autoscale_query page per_page) in
      and_then (aa_new_request api path) (\<lambda>req.
      and_then (aa_do api k req) (\<lambda>(root, resp_links).
        Inr (pr_pools root, case pr_links root of Some lnk \<Rightarrow> lnk | None \<Rightarrow> resp_links))))"

definition autoscale_refresh ::
  "'req autoscale_api \<Rightarrow> api_pool list \<Rightarrow> api_pool list \<times> goerr option" where
  "autoscale_refresh api snap =
     replace_snapshot
       (fst (paging_all (aa_ctx api) ''droplet autoscale pools'' ap_id (list_pools api)))
       (\<lambda>pools. pools) snap"

definition collect_pool :: "api_pool \<Rightarrow> metric list" where
  "collect_pool p =
     (let labels = [ap_id p, ap_name p]; c = ap_config p in
      [gauge autoscale_info_desc (Fin 1)
         [ap_id p, ap_name p, ap_template_region p, ap_template_size p, ap_status p],
       gauge autoscale_active_desc (of_int64 (uint (ap_active_resources p))) labels] @
      (if pc_max_instances c > 0
       then [gauge autoscale_min_desc (of_int64 (uint (pc_min_instances c))) labels,
             gauge autoscale_max_desc (of_int64 (uint (pc_max_instances c))) labels]
       else []) @
      (if pc_target_number c > 0
       then [gauge autoscale_target_desc (of_int64 (uint (pc_target_number c))) labels] else []) @
      (if flt_less (Fin 0) (pc_target_cpu c)
       then [gauge autoscale_target_cpu_desc (pc_target_cpu c) labels] else []) @
      (if flt_less (Fin 0) (pc_target_memory c)
       then [gauge autoscale_target_memory_desc (pc_target_memory c) labels] else []) @
      (case ap_utilization p of
         None \<Rightarrow> []
       | Some (cpu, memory) \<Rightarrow>
           [gauge autoscale_current_cpu_desc cpu labels,
            gauge autoscale_current_memory_desc memory labels]))"

definition autoscale_collect :: "api_pool list \<Rightarrow> metric list" where
  "autoscale_collect snap = concat (map collect_pool snap)"

lemma collect_pool_described: "well_described autoscale_descriptors (collect_pool p)"
  by (simp add: collect_pool_def Let_def autoscale_descriptors_def split: prod.split)
    (simp add: autoscale_desc_defs)

lemma collect_pool_distinct: "distinct (map series_of (collect_pool p))"
  unfolding collect_pool_def Let_def
  by (rule names_distinct, (rule names_within_rules)+) (simp add: autoscale_desc_defs)

interpretation autoscale_list:
  listing "\<lambda>p. True" "\<lambda>p. p" ap_id "''droplet autoscale pools''" ap_id collect_pool
    autoscale_descriptors "\<lambda>x. True"
proof
  show "m \<in> set (collect_pool p) \<Longrightarrow> first_label m = ap_id p" for m p
    by (auto simp: collect_pool_def Let_def split: option.splits if_splits)
qed (simp_all add: collect_pool_described collect_pool_distinct)

text \<open>The collector is that one, over the list its own requests make.\<close>

lemma autoscale_refresh_listing:
  "autoscale_refresh api =
     listing_refresh (\<lambda>p. True) (\<lambda>p. p) ap_id ''droplet autoscale pools''
       \<lparr>la_ctx = aa_ctx api, la_list = list_pools api\<rparr>"
  by (rule ext) (simp add: autoscale_refresh_def listing_refresh_def)

lemma autoscale_collect_listing: "autoscale_collect = listing_collect collect_pool"
  by (rule ext) (simp add: autoscale_collect_def listing_collect_def)

interpretation autoscale:
  unique_collector autoscale_refresh autoscale_collect autoscale_descriptors "[]"
    autoscale_list.snapshot_ok
  by unfold_locales
    (simp_all add: autoscale_refresh_listing autoscale_collect_listing autoscale_list.start_ok
      autoscale_list.start_silent autoscale_list.refresh_ok autoscale_list.described
      autoscale_list.unique)

interpretation autoscale_atomic:
  atomic_collector autoscale_refresh autoscale_collect autoscale_descriptors "[]"
    autoscale_list.snapshot_ok
  by unfold_locales (simp add: autoscale_refresh_def replace_snapshot_failure)

end
