(* ===== verification/Loadbalancers.thy ===== *)
theory Loadbalancers
  imports Listing
begin

text \<open>
  internal/collector/loadbalancers: the load balancers of the account with their forwarding rules,
  health check and firewall. A nil pointer is \<open>None\<close>; the rules of the firewall and the droplets
  are only counted.
\<close>

section \<open>Data\<close>

record godo_forwarding_rule =
  gfr_entry_protocol :: string
  gfr_entry_port :: int
  gfr_target_protocol :: string
  gfr_target_port :: int
  gfr_certificate_id :: string
  gfr_tls_passthrough :: bool

record godo_health_check =
  ghc_protocol :: string
  ghc_port :: int
  ghc_path :: string
  ghc_check_interval_seconds :: int
  ghc_response_timeout_seconds :: int
  ghc_healthy_threshold :: int
  ghc_unhealthy_threshold :: int

record godo_balancer =
  gbl_id :: string
  gbl_name :: string
  gbl_ip :: string
  gbl_size_slug :: string
  gbl_size_unit :: int
  gbl_type :: string
  gbl_algorithm :: string
  gbl_status :: string
  gbl_vpc_uuid :: string
  gbl_tag :: string
  gbl_tags :: "string list"
  gbl_region :: "string option"
  gbl_droplet_ids :: "int list"
  gbl_forwarding_rules :: "godo_forwarding_rule list"
  gbl_health_check :: "godo_health_check option"
  gbl_firewall :: "(string list \<times> string list) option"

record forwarding_rule =
  fr_entry_protocol :: string
  fr_entry_port :: string
  fr_target_protocol :: string
  fr_target_port :: string
  fr_certificate_id :: string
  fr_tls_passthrough :: string

record health_check =
  hk_protocol :: string
  hk_port :: string
  hk_path :: string
  hk_interval :: float64
  hk_timeout :: float64
  hk_healthy :: float64
  hk_unhealthy :: float64

record balancer =
  bal_id :: string
  bal_name :: string
  bal_ip :: string
  bal_region :: string
  bal_size :: string
  bal_type :: string
  bal_algorithm :: string
  bal_vpc_uuid :: string
  bal_tag :: string
  bal_status :: float64
  bal_droplets :: float64
  bal_size_units :: float64
  bal_forwarding_rules :: float64
  bal_rules :: "forwarding_rule list"
  bal_health :: "health_check option"
  bal_firewall_allow :: float64
  bal_firewall_deny :: float64

section \<open>Descriptors\<close>

definition balancer_labels :: "string list" where
  "balancer_labels = [''id'', ''name'', ''ip'']"

definition balancer_status_desc :: desc where
  "balancer_status_desc = Desc ''digitalocean_loadbalancer_status'' balancer_labels"
definition balancer_droplets_desc :: desc where
  "balancer_droplets_desc = Desc ''digitalocean_loadbalancer_droplets'' balancer_labels"
definition balancer_size_units_desc :: desc where
  "balancer_size_units_desc = Desc ''digitalocean_loadbalancer_size_units'' balancer_labels"
definition balancer_rules_desc :: desc where
  "balancer_rules_desc = Desc ''digitalocean_loadbalancer_forwarding_rules'' balancer_labels"
definition balancer_info_desc :: desc where
  "balancer_info_desc = Desc ''digitalocean_loadbalancer_info''
     [''id'', ''name'', ''ip'', ''region'', ''size'', ''type'', ''algorithm'', ''vpc_uuid'', ''tag'']"
definition balancer_rule_info_desc :: desc where
  "balancer_rule_info_desc = Desc ''digitalocean_loadbalancer_forwarding_rule_info''
     [''id'', ''name'', ''ip'', ''entry_protocol'', ''entry_port'', ''target_protocol'',
      ''target_port'', ''certificate_id'', ''tls_passthrough'']"
definition health_info_desc :: desc where
  "health_info_desc = Desc ''digitalocean_loadbalancer_health_check_info''
     [''id'', ''name'', ''ip'', ''protocol'', ''port'', ''path'']"
definition health_interval_desc :: desc where
  "health_interval_desc =
     Desc ''digitalocean_loadbalancer_health_check_interval_seconds'' balancer_labels"
definition health_timeout_desc :: desc where
  "health_timeout_desc =
     Desc ''digitalocean_loadbalancer_health_check_timeout_seconds'' balancer_labels"
definition health_healthy_desc :: desc where
  "health_healthy_desc =
     Desc ''digitalocean_loadbalancer_health_check_healthy_threshold'' balancer_labels"
definition health_unhealthy_desc :: desc where
  "health_unhealthy_desc =
     Desc ''digitalocean_loadbalancer_health_check_unhealthy_threshold'' balancer_labels"
definition balancer_firewall_desc :: desc where
  "balancer_firewall_desc = Desc ''digitalocean_loadbalancer_firewall_rules''
     [''id'', ''name'', ''ip'', ''kind'']"

definition balancer_descriptors :: "desc list" where
  "balancer_descriptors =
     [balancer_status_desc, balancer_droplets_desc, balancer_size_units_desc, balancer_rules_desc,
      balancer_info_desc, balancer_rule_info_desc, health_info_desc, health_interval_desc,
      health_timeout_desc, health_healthy_desc, health_unhealthy_desc, balancer_firewall_desc]"

lemmas balancer_desc_defs = balancer_status_desc_def balancer_droplets_desc_def
  balancer_size_units_desc_def balancer_rules_desc_def balancer_info_desc_def
  balancer_rule_info_desc_def health_info_desc_def health_interval_desc_def
  health_timeout_desc_def health_healthy_desc_def health_unhealthy_desc_def
  balancer_firewall_desc_def balancer_labels_def

section \<open>Conversion\<close>

definition balancer_active_status :: string where "balancer_active_status = ''active''"

definition balancer_region_slug :: "godo_balancer \<Rightarrow> string" where
  "balancer_region_slug lb = (case gbl_region lb of None \<Rightarrow> '''' | Some slug \<Rightarrow> slug)"

definition new_forwarding_rules :: "godo_forwarding_rule list \<Rightarrow> forwarding_rule list" where
  "new_forwarding_rules rules =
     map (\<lambda>rule.
       \<lparr>fr_entry_protocol = gfr_entry_protocol rule, fr_entry_port = itoa (gfr_entry_port rule),
        fr_target_protocol = gfr_target_protocol rule, fr_target_port = itoa (gfr_target_port rule),
        fr_certificate_id = gfr_certificate_id rule,
        fr_tls_passthrough = format_bool (gfr_tls_passthrough rule)\<rparr>) rules"

definition new_health_check :: "godo_health_check option \<Rightarrow> health_check option" where
  "new_health_check check =
     (case check of
        None \<Rightarrow> None
      | Some c \<Rightarrow> Some
          \<lparr>hk_protocol = ghc_protocol c, hk_port = itoa (ghc_port c), hk_path = ghc_path c,
           hk_interval = of_int64 (ghc_check_interval_seconds c),
           hk_timeout = of_int64 (ghc_response_timeout_seconds c),
           hk_healthy = of_int64 (ghc_healthy_threshold c),
           hk_unhealthy = of_int64 (ghc_unhealthy_threshold c)\<rparr>)"

definition new_load_balancer :: "godo_balancer \<Rightarrow> balancer" where
  "new_load_balancer lb =
     \<lparr>bal_id = gbl_id lb, bal_name = gbl_name lb, bal_ip = gbl_ip lb,
      bal_region = (case gbl_region lb of None \<Rightarrow> '''' | Some slug \<Rightarrow> slug),
      bal_size = gbl_size_slug lb, bal_type = gbl_type lb, bal_algorithm = gbl_algorithm lb,
      bal_vpc_uuid = gbl_vpc_uuid lb, bal_tag = gbl_tag lb,
      bal_status = bool_to_float (gbl_status lb = balancer_active_status),
      bal_droplets = len_float (gbl_droplet_ids lb), bal_size_units = of_int64 (gbl_size_unit lb),
      bal_forwarding_rules = len_float (gbl_forwarding_rules lb),
      bal_rules = new_forwarding_rules (gbl_forwarding_rules lb),
      bal_health = new_health_check (gbl_health_check lb),
      bal_firewall_allow =
        (case gbl_firewall lb of None \<Rightarrow> Fin 0 | Some (allow, deny) \<Rightarrow> len_float allow),
      bal_firewall_deny =
        (case gbl_firewall lb of None \<Rightarrow> Fin 0 | Some (allow, deny) \<Rightarrow> len_float deny)\<rparr>"

section \<open>Refresh and Collect\<close>

definition balancer_keep :: "filter_conf \<Rightarrow> godo_balancer \<Rightarrow> bool" where
  "balancer_keep f lb = match f (gbl_tags lb) (balancer_region_slug lb)"

definition balancers_refresh ::
  "filter_conf \<Rightarrow> godo_balancer listing_api \<Rightarrow> balancer list
     \<Rightarrow> balancer list \<times> goerr option" where
  "balancers_refresh f =
     listing_refresh (balancer_keep f) new_load_balancer gbl_id ''load balancers''"

definition collect_health_check :: "balancer \<Rightarrow> metric list" where
  "collect_health_check lb =
     (case bal_health lb of
        None \<Rightarrow> []
      | Some h \<Rightarrow>
          [gauge health_info_desc (Fin 1)
             [bal_id lb, bal_name lb, bal_ip lb, hk_protocol h, hk_port h, hk_path h],
           gauge health_interval_desc (hk_interval h) [bal_id lb, bal_name lb, bal_ip lb],
           gauge health_timeout_desc (hk_timeout h) [bal_id lb, bal_name lb, bal_ip lb],
           gauge health_healthy_desc (hk_healthy h) [bal_id lb, bal_name lb, bal_ip lb],
           gauge health_unhealthy_desc (hk_unhealthy h) [bal_id lb, bal_name lb, bal_ip lb]])"

definition rule_metric :: "balancer \<Rightarrow> forwarding_rule \<Rightarrow> metric" where
  "rule_metric lb rule =
     gauge balancer_rule_info_desc (Fin 1)
       [bal_id lb, bal_name lb, bal_ip lb, fr_entry_protocol rule, fr_entry_port rule,
        fr_target_protocol rule, fr_target_port rule, fr_certificate_id rule,
        fr_tls_passthrough rule]"

definition balancer_metrics :: "balancer \<Rightarrow> metric list" where
  "balancer_metrics lb =
     [gauge balancer_status_desc (bal_status lb) [bal_id lb, bal_name lb, bal_ip lb],
      gauge balancer_droplets_desc (bal_droplets lb) [bal_id lb, bal_name lb, bal_ip lb],
      gauge balancer_size_units_desc (bal_size_units lb) [bal_id lb, bal_name lb, bal_ip lb],
      gauge balancer_rules_desc (bal_forwarding_rules lb) [bal_id lb, bal_name lb, bal_ip lb],
      gauge balancer_info_desc (Fin 1)
        [bal_id lb, bal_name lb, bal_ip lb, bal_region lb, bal_size lb, bal_type lb,
         bal_algorithm lb, bal_vpc_uuid lb, bal_tag lb],
      gauge balancer_firewall_desc (bal_firewall_allow lb)
        [bal_id lb, bal_name lb, bal_ip lb, ''allow''],
      gauge balancer_firewall_desc (bal_firewall_deny lb)
        [bal_id lb, bal_name lb, bal_ip lb, ''deny'']] @
     map (rule_metric lb) (bal_rules lb) @ collect_health_check lb"

definition balancers_collect :: "balancer list \<Rightarrow> metric list" where
  "balancers_collect = listing_collect balancer_metrics"

section \<open>The contract\<close>

lemma rule_metric_sel [simp]: "m_desc (rule_metric lb r) = balancer_rule_info_desc"
  by (simp add: rule_metric_def)

lemma balancer_metrics_described: "well_described balancer_descriptors (balancer_metrics lb)"
proof -
  have "well_described balancer_descriptors (map (rule_metric lb) rs)" for rs
    by (auto simp: well_described_def balancer_descriptors_def rule_metric_def)
      (simp add: balancer_rule_info_desc_def)
  moreover have "well_described balancer_descriptors (collect_health_check lb)"
    by (simp add: collect_health_check_def balancer_descriptors_def)
      (simp add: balancer_desc_defs)
  ultimately show ?thesis
    by (simp add: balancer_metrics_def) (simp add: balancer_descriptors_def balancer_desc_defs)
qed

interpretation balancers:
  plain_listing "balancer_keep f" new_load_balancer gbl_id "''load balancers''" bal_id
    balancer_metrics balancer_descriptors
  rewrites "listing_refresh (balancer_keep f) new_load_balancer gbl_id ''load balancers'' =
      balancers_refresh f"
    and "listing_collect balancer_metrics = balancers_collect"
  for f
proof -
  have "first_label m = bal_id x" if "m \<in> set (balancer_metrics x)" for m x
    using that
    by (auto simp: balancer_metrics_def collect_health_check_def rule_metric_def split: option.splits)
  then show "plain_listing new_load_balancer gbl_id bal_id balancer_metrics balancer_descriptors"
    by unfold_locales (simp_all add: new_load_balancer_def balancer_metrics_described)
qed (simp_all add: balancers_refresh_def balancers_collect_def)

section \<open>Properties\<close>

lemma rule_series_inj: "inj (series_of \<circ> rule_metric lb)"
  by (auto simp: inj_def rule_metric_def series_of_def)

lemma distinct_middle:
  assumes "distinct (map f as)" and "distinct (map f bs)" and "f ` set as \<inter> f ` set bs = {}"
    and "f ` set rs \<inter> f ` set (as @ bs) = {}"
  shows "distinct (map f (as @ rs @ bs)) \<longleftrightarrow> distinct (map f rs)"
  using assms by (auto simp: image_Un)

text \<open>Only the forwarding rules of a load balancer can repeat a series of its own.\<close>

lemma balancer_series:
  "distinct (map series_of (balancer_metrics lb)) \<longleftrightarrow> distinct (bal_rules lb)"
proof -
  let ?a = "take 7 (balancer_metrics lb)" and ?r = "map (rule_metric lb) (bal_rules lb)"
  have split: "balancer_metrics lb = ?a @ ?r @ collect_health_check lb"
    by (simp add: balancer_metrics_def)
  have a: "distinct (map series_of ?a)"
    by (simp add: balancer_metrics_def balancer_desc_defs)
  have h: "distinct (map series_of (collect_health_check lb))"
    unfolding collect_health_check_def
    by (rule names_distinct, (rule names_within_rules)+) (simp add: balancer_desc_defs)
  have "fst ` series_of ` set ?a \<inter> fst ` series_of ` set (collect_health_check lb) = {}"
    by (auto simp: balancer_metrics_def collect_health_check_def balancer_desc_defs split: option.splits)
  then have ah: "series_of ` set ?a \<inter> series_of ` set (collect_health_check lb) = {}" by blast
  have "fq_name balancer_rule_info_desc \<notin> fst ` series_of ` set (?a @ collect_health_check lb)"
    by (auto simp: balancer_metrics_def collect_health_check_def balancer_desc_defs split: option.splits)
  then have rest: "series_of ` set ?r \<inter> series_of ` set (?a @ collect_health_check lb) = {}"
    by (force simp: rule_metric_def)
  have "distinct (map series_of ?r) \<longleftrightarrow> distinct (bal_rules lb)"
    using rule_series_inj [of lb] by (simp add: distinct_map inj_on_def inj_def comp_def)
  moreover have "distinct (map series_of (balancer_metrics lb)) \<longleftrightarrow> distinct (map series_of ?r)"
    using distinct_middle [OF a h ah rest] split by simp
  ultimately show ?thesis by simp
qed

lemma balancers_apart:
  "balancers.idents_ok snap \<Longrightarrow> list_all (\<lambda>lb. distinct (bal_rules lb)) snap \<Longrightarrow>
     no_duplicates (balancers_collect snap)"
  by (rule balancers.blocks_unique) (auto simp: list_all_iff balancer_series)

lemma new_rules_distinct: "distinct (new_forwarding_rules rules) \<longleftrightarrow> distinct rules"
proof -
  have "x = y" if "hd (new_forwarding_rules [x]) = hd (new_forwarding_rules [y])" for x y
    using that by (cases x; cases y) (auto simp: new_forwarding_rules_def dest: itoa_inj)
  then have "inj (\<lambda>x. hd (new_forwarding_rules [x]))" by (rule injI)
  moreover have "new_forwarding_rules rules = map (\<lambda>x. hd (new_forwarding_rules [x])) rules"
    by (simp add: new_forwarding_rules_def)
  ultimately show ?thesis by (metis distinct_map inj_on_subset subset_UNIV)
qed

text \<open>
  What the load balancers collector sends after a successful refresh repeats a series exactly
  when some reported load balancer has two identical forwarding rules; as long as the API keeps
  entry protocol and port unique within a load balancer, as the code relies on, none does.
\<close>

lemma balancers_unique:
  assumes "fst (paging_all (la_ctx api) ''load balancers'' gbl_id (la_list api)) = Inr lbs"
  shows "(no_duplicates (balancers_collect (fst (balancers_refresh f api snap))) \<longleftrightarrow>
      (\<forall>lb \<in> set (filter (balancer_keep f) lbs). distinct (gbl_forwarding_rules lb))) \<and>
    ((\<forall>lb \<in> set lbs. distinct (map (\<lambda>r. (gfr_entry_protocol r, gfr_entry_port r))
        (gbl_forwarding_rules lb))) \<longrightarrow>
      no_duplicates (balancers_collect (fst (balancers_refresh f api snap))))"
proof -
  let ?next = "map new_load_balancer (filter (balancer_keep f) lbs)"
  have snap: "fst (balancers_refresh f api snap) = ?next"
    using assms by (simp add: balancers_refresh_def listing_refresh_def replace_snapshot_simps)
  have block: "distinct (map series_of (balancer_metrics (new_load_balancer lb))) \<longleftrightarrow>
      distinct (gbl_forwarding_rules lb)" for lb
    by (simp add: balancer_series new_load_balancer_def new_rules_distinct)
  have "no_duplicates (balancers_collect ?next)"
    if "\<forall>lb \<in> set (filter (balancer_keep f) lbs). distinct (gbl_forwarding_rules lb)"
    by (rule balancers.blocks_unique)
      (use that block balancers.converted_idents [OF assms] in \<open>auto simp: balancers.idents_ok_def\<close>)
  moreover have "distinct (gbl_forwarding_rules lb)"
    if "no_duplicates (balancers_collect ?next)" and "lb \<in> set (filter (balancer_keep f) lbs)" for lb
  proof -
    have "balancers_collect ?next = concat (map balancer_metrics ?next)"
      by (simp add: balancers_collect_def listing_collect_def)
    moreover have "new_load_balancer lb \<in> set ?next" using that(2) by auto
    ultimately show ?thesis
      using that(1) block [of lb] no_duplicates_block [of balancer_metrics ?next] by auto
  qed
  ultimately show ?thesis
    unfolding snap using distinct_map by fastforce
qed

definition demo_balancer :: "godo_forwarding_rule list \<Rightarrow> godo_balancer" where
  "demo_balancer rules =
     \<lparr>gbl_id = ''lb'', gbl_name = ''web'', gbl_ip = ''192.0.2.1'', gbl_size_slug = ''lb-small'',
      gbl_size_unit = 1, gbl_type = ''REGIONAL'', gbl_algorithm = '''', gbl_status = ''active'',
      gbl_vpc_uuid = '''', gbl_tag = '''', gbl_tags = [], gbl_region = Some ''fra1'',
      gbl_droplet_ids = [7], gbl_forwarding_rules = rules, gbl_health_check = None,
      gbl_firewall = None\<rparr>"

definition demo_rule :: "int \<Rightarrow> godo_forwarding_rule" where
  "demo_rule port =
     \<lparr>gfr_entry_protocol = ''http'', gfr_entry_port = port, gfr_target_protocol = ''http'',
      gfr_target_port = 8080, gfr_certificate_id = '''', gfr_tls_passthrough = False\<rparr>"

lemma balancers_unique_witness:
  "let api = \<lambda>rules. \<lparr>la_ctx = \<lparr>ctx_live = 9, ctx_cause = Sentinel DeadlineExceeded\<rparr>,
                       la_list = (\<lambda>k page. Inr ([demo_balancer rules], LastPage))\<rparr>
   in no_duplicates (balancers_collect
        (fst (balancers_refresh zero_filter (api [demo_rule 80, demo_rule 443]) []))) \<and>
      \<not> no_duplicates (balancers_collect
        (fst (balancers_refresh zero_filter (api [demo_rule 80, demo_rule 80]) [])))"
proof -
  let ?api = "\<lambda>rules. \<lparr>la_ctx = \<lparr>ctx_live = 9, ctx_cause = Sentinel DeadlineExceeded\<rparr>,
                       la_list = (\<lambda>k page. Inr ([demo_balancer rules], LastPage))\<rparr>"
  have "fst (paging_all (la_ctx (?api rules)) ''load balancers'' gbl_id (la_list (?api rules))) =
      Inr [demo_balancer rules]" for rules
    by (simp add: paging_single_page)
  from balancers_unique [OF this, of zero_filter] show ?thesis
    by (simp add: Let_def balancer_keep_def match_def match_tags_def match_region_def zero_filter_def
        demo_balancer_def demo_rule_def)
qed

end
