(* ===== verification/Apps.thy ===== *)
theory Apps
  imports Listing Statuses
begin

text \<open>
  internal/collector/apps: the App Platform applications, the phase of their active deployment and
  the components of their spec. The API's list is one of pointers: \<open>None\<close> is nil. An instant is
  its Unix time, and \<open>None\<close> where it is the zero time.
\<close>

section \<open>Data\<close>

record godo_component =
  gcm_name :: string
  gcm_instance_size_slug :: string
  gcm_instance_count :: int

record godo_app_spec =
  gas_name :: string
  gas_region :: string
  gas_services :: "godo_component option list"
  gas_workers :: "godo_component option list"
  gas_jobs :: "godo_component option list"
  gas_static_sites :: "string option list"

record godo_app =
  gap_id :: string
  gap_tier_slug :: string
  gap_default_ingress :: string
  gap_region :: "string option"
  gap_active_phase :: "string option"
  gap_in_progress :: bool
  gap_last_deployment_active_at :: "int option"
  gap_created_at :: "int option"
  gap_spec :: "godo_app_spec option"

record component =
  cm_name :: string
  cm_kind :: string
  cm_size :: string
  cm_instances :: float64

record app =
  app_id :: string
  app_name :: string
  app_tier :: string
  app_region :: string
  app_default_ingress :: string
  app_phase :: string
  app_has_active :: bool
  app_in_progress :: float64
  app_last_deployment_active :: int
  app_has_last_deployment :: bool
  app_created :: int
  app_has_created :: bool
  app_components :: "component list"

definition known_phases :: "string list" where
  "known_phases =
     [''PENDING_BUILD'', ''BUILDING'', ''PENDING_DEPLOY'', ''DEPLOYING'', ''ACTIVE'',
      ''SUPERSEDED'', ''ERROR'', ''CANCELED'']"

definition kind_service :: string where "kind_service = ''service''"
definition kind_worker :: string where "kind_worker = ''worker''"
definition kind_job :: string where "kind_job = ''job''"
definition kind_static_site :: string where "kind_static_site = ''static_site''"

section \<open>Descriptors\<close>

definition app_info_desc :: desc where
  "app_info_desc = Desc ''digitalocean_app_info''
     [''id'', ''name'', ''tier'', ''region'', ''default_ingress'']"
definition app_phase_desc :: desc where
  "app_phase_desc = Desc ''digitalocean_app_deployment_phase'' [''id'', ''name'', ''phase'']"
definition app_in_progress_desc :: desc where
  "app_in_progress_desc =
     Desc ''digitalocean_app_deployment_in_progress'' [''id'', ''name'']"
definition app_last_active_desc :: desc where
  "app_last_active_desc =
     Desc ''digitalocean_app_last_deployment_active_timestamp_seconds'' [''id'', ''name'']"
definition app_created_desc :: desc where
  "app_created_desc = Desc ''digitalocean_app_created_timestamp_seconds'' [''id'', ''name'']"
definition app_instances_desc :: desc where
  "app_instances_desc = Desc ''digitalocean_app_component_instances''
     [''id'', ''name'', ''component'', ''kind'', ''instance_size'']"

definition app_descriptors :: "desc list" where
  "app_descriptors =
     [app_info_desc, app_phase_desc, app_in_progress_desc, app_last_active_desc, app_created_desc,
      app_instances_desc]"

lemmas app_desc_defs = app_info_desc_def app_phase_desc_def app_in_progress_desc_def
  app_last_active_desc_def app_created_desc_def app_instances_desc_def

section \<open>Conversion\<close>

definition components_of :: "string \<Rightarrow> godo_component option list \<Rightarrow> component list" where
  "components_of kind cs =
     List.map_filter (map_option (\<lambda>s.
       \<lparr>cm_name = gcm_name s, cm_kind = kind, cm_size = gcm_instance_size_slug s,
        cm_instances = of_int64 (gcm_instance_count s)\<rparr>)) cs"

definition new_components :: "godo_app_spec \<Rightarrow> component list" where
  "new_components spec =
     components_of kind_service (gas_services spec) @
     components_of kind_worker (gas_workers spec) @
     components_of kind_job (gas_jobs spec) @
     List.map_filter (map_option (\<lambda>name.
       \<lparr>cm_name = name, cm_kind = kind_static_site, cm_size = '''', cm_instances = Fin 0\<rparr>))
       (gas_static_sites spec)"

definition new_app :: "godo_app \<Rightarrow> app" where
  "new_app a =
     (let region = (case gap_region a of None \<Rightarrow> '''' | Some slug \<Rightarrow> slug)
      in \<lparr>app_id = gap_id a,
          app_name = (case gap_spec a of None \<Rightarrow> '''' | Some spec \<Rightarrow> gas_name spec),
          app_tier = gap_tier_slug a,
          app_region = (case gap_spec a of
                          None \<Rightarrow> region
                        | Some spec \<Rightarrow> if region = '''' then gas_region spec else region),
          app_default_ingress = gap_default_ingress a,
          app_phase = (case gap_active_phase a of None \<Rightarrow> '''' | Some phase \<Rightarrow> phase),
          app_has_active = (gap_active_phase a \<noteq> None),
          app_in_progress = bool_to_float (gap_in_progress a),
          app_last_deployment_active =
            (case gap_last_deployment_active_at a of None \<Rightarrow> 0 | Some unix \<Rightarrow> unix),
          app_has_last_deployment = (gap_last_deployment_active_at a \<noteq> None),
          app_created = (case gap_created_at a of None \<Rightarrow> 0 | Some unix \<Rightarrow> unix),
          app_has_created = (gap_created_at a \<noteq> None),
          app_components = (case gap_spec a of None \<Rightarrow> [] | Some spec \<Rightarrow> new_components spec)\<rparr>)"

section \<open>Refresh\<close>

text \<open>
  The key function reads the id of every listed app, so a nil app in a page panics while the page
  is read. The walk of Paging takes a key that is a total function; a page with a nil app is
  therefore a reply that panics, and \<open>escape_panic\<close> undoes the wrapping of errors, which a panic
  passes by.
\<close>

definition app_key :: "godo_app option \<Rightarrow> string" where
  "app_key a = (case a of None \<Rightarrow> '''' | Some a \<Rightarrow> gap_id a)"

definition nil_panics :: "'a option list_func \<Rightarrow> 'a option list_func" where
  "nil_panics list k page =
     (case list k page of
        Inl e \<Rightarrow> Inl e
      | Inr (items, lnk) \<Rightarrow>
          if None \<in> set items then Inl (Panicked ''nil pointer dereference'') else Inr (items, lnk))"

definition escape_panic :: "'a res \<Rightarrow> 'a res" where
  "escape_panic r = (case r of Inl (Wrap what [Panicked m]) \<Rightarrow> Inl (Panicked m) | _ \<Rightarrow> r)"

definition apps_refresh ::
  "godo_app option listing_api \<Rightarrow> app list \<Rightarrow> app list \<times> goerr option" where
  "apps_refresh api snap =
     replace_snapshot
       (escape_panic (fst (paging_all (la_ctx api) ''apps'' app_key (nil_panics (la_list api)))))
       (\<lambda>listed. map new_app (List.map_filter (\<lambda>a. a) listed)) snap"

section \<open>Collect\<close>

definition collect_phases :: "app \<Rightarrow> metric list" where
  "collect_phases a =
     (if \<not> app_has_active a then []
      else status_series app_phase_desc known_phases [app_id a, app_name a] (app_phase a))"

definition component_metric :: "app \<Rightarrow> component \<Rightarrow> metric" where
  "component_metric a c =
     gauge app_instances_desc (cm_instances c)
       [app_id a, app_name a, cm_name c, cm_kind c, cm_size c]"

definition app_metrics :: "app \<Rightarrow> metric list" where
  "app_metrics a =
     [gauge app_info_desc (Fin 1)
        [app_id a, app_name a, app_tier a, app_region a, app_default_ingress a],
      gauge app_in_progress_desc (app_in_progress a) [app_id a, app_name a]] @
     (if app_has_last_deployment a
      then [gauge app_last_active_desc (of_int64 (app_last_deployment_active a))
              [app_id a, app_name a]] else []) @
     (if app_has_created a
      then [gauge app_created_desc (of_int64 (app_created a)) [app_id a, app_name a]] else []) @
     collect_phases a @ map (component_metric a) (app_components a)"

definition apps_collect :: "app list \<Rightarrow> metric list" where
  "apps_collect snap = concat (map app_metrics snap)"

section \<open>The contract\<close>

lemma app_metrics_described: "well_described app_descriptors (app_metrics a)"
proof -
  have "well_described app_descriptors (collect_phases a)"
    by (simp add: collect_phases_def app_descriptors_def status_series_described app_desc_defs)
  moreover have "well_described app_descriptors (map (component_metric a) cs)" for cs
    by (auto simp: component_metric_def well_described_def app_descriptors_def)
      (simp add: app_desc_defs)
  ultimately show ?thesis
    by (simp add: app_metrics_def) (simp add: app_descriptors_def app_desc_defs)
qed

definition apps_ok :: "app list \<Rightarrow> bool" where
  "apps_ok snap \<longleftrightarrow> distinct (map app_id snap)"

lemma escape_panic_Inr: "escape_panic r = Inr x \<longleftrightarrow> r = Inr x"
  by (auto simp: escape_panic_def split: sum.splits goerr.splits list.splits)

lemma distinct_map_filter_some:
  "distinct (map app_key xs) \<Longrightarrow> distinct (map app_id (map new_app (List.map_filter (\<lambda>a. a) xs)))"
proof (induction xs)
  case (Cons x xs)
  then show ?case
    by (cases x) (auto simp: app_key_def new_app_def Let_def map_filter_simps map_filter_def rev_image_eqI)
qed (simp add: map_filter_simps)

interpretation apps: collector apps_refresh apps_collect app_descriptors "[]" apps_ok
proof
  show "apps_ok (fst (apps_refresh env s))" if "apps_ok s" for env s
    unfolding apps_refresh_def
    by (rule replace_snapshot_ok, rule that)
      (unfold apps_ok_def, rule distinct_map_filter_some, simp only: escape_panic_Inr,
        rule paging_all_distinct)
  show "well_described app_descriptors (apps_collect s)" for s
    by (simp add: apps_collect_def well_described_concat_map app_metrics_described)
qed (simp_all add: apps_ok_def apps_collect_def)

interpretation apps_atomic: atomic_collector apps_refresh apps_collect app_descriptors "[]" apps_ok
  by unfold_locales (simp add: apps_refresh_def replace_snapshot_failure)

section \<open>Series\<close>

text \<open>Only two components of one app with the same name, kind and size can repeat a series.\<close>

definition components_apart :: "app \<Rightarrow> bool" where
  "components_apart a \<longleftrightarrow> distinct (map (\<lambda>c. [cm_name c, cm_kind c, cm_size c]) (app_components a))"

lemma collect_phases_name: "m \<in> set (collect_phases a) \<Longrightarrow> metric_name m = fq_name app_phase_desc"
  by (auto simp: collect_phases_def metric_name_def dest: status_series_name split: if_splits)

lemma phases_distinct: "no_duplicates (collect_phases a)"
  by (simp add: collect_phases_def no_duplicates_def status_series_distinct known_phases_def)

lemma component_series:
  "no_duplicates (map (component_metric a) cs) \<longleftrightarrow>
     distinct (map (\<lambda>c. [cm_name c, cm_kind c, cm_size c]) cs)"
  unfolding no_duplicates_def by (induction cs) (auto simp: component_metric_def)

lemma app_metrics_distinct: "components_apart a \<Longrightarrow> no_duplicates (app_metrics a)"
  unfolding app_metrics_def
  by (intro no_duplicates_parts)
    (auto simp: component_series components_apart_def phases_distinct component_metric_def
      app_desc_defs dest!: collect_phases_name split: if_splits, simp_all add: no_duplicates_def)

lemma app_metrics_owner: "m \<in> set (app_metrics a) \<Longrightarrow> m_labels m ! 0 = app_id a"
  by (auto simp: app_metrics_def collect_phases_def component_metric_def
      dest!: status_series_labels split: if_splits)

lemma apps_unique:
  "apps_ok snap \<Longrightarrow> list_all components_apart snap \<Longrightarrow> no_duplicates (apps_collect snap)"
  unfolding apps_collect_def apps_ok_def
  by (subst no_duplicates_by_label_iff [where k = 0 and key = app_id])
    (auto simp: list_all_iff app_metrics_distinct app_metrics_owner)

section \<open>Properties\<close>

lemma nil_panics_Inr: "nil_panics list k page = Inr (xs, lnk) \<Longrightarrow> None \<notin> set xs"
  by (auto simp: nil_panics_def split: sum.splits if_splits)

lemma nil_panics_walk:
  "walk c (nil_panics list) k page ps \<Longrightarrow> None \<notin> set (concat ps)"
  by (induction rule: walk.induct) (auto dest: nil_panics_Inr)

lemma no_nil: "None \<notin> set xs \<Longrightarrow> \<exists>ys. xs = map Some ys"
  by (metis ex_map_conv option.exhaust)

text \<open>
  C40. A nil app in the first page makes the refresh of the apps collector panic, which the
  scheduler turns into a failed refresh that keeps the snapshot: the key function reads the app
  before the nil check of Refresh can skip it. A refresh that succeeds has listed no nil app, so
  that check never drops anything.
\<close>

theorem apps_nil:
  assumes "ctx_err (la_ctx api) 0 = None" and "la_list api 0 0 = Inr (items, lnk)"
    and "None \<in> set items"
  shows "\<exists>m. apps_refresh api snap = (snap, Some (Panicked m)) \<and>
    (\<forall>api' fresh. apps_refresh api' snap = (fresh, None) \<longrightarrow>
      (\<exists>listed. fst (paging_all (la_ctx api') ''apps'' app_key (nil_panics (la_list api'))) =
          Inr (map Some listed) \<and> fresh = map new_app listed))"
proof -
  have "nil_panics (la_list api) 0 0 = Inl (Panicked ''nil pointer dereference'')"
    using assms(2,3) by (simp add: nil_panics_def)
  then have "fst (paging_all (la_ctx api) ''apps'' app_key (nil_panics (la_list api))) =
      Inl (Wrap (''list '' @ ''apps'') [Panicked ''nil pointer dereference''])"
    by (simp add: paging_all_def all_loop_failed [OF assms(1)])
  then have "apps_refresh api snap = (snap, Some (Panicked ''nil pointer dereference''))"
    by (simp add: apps_refresh_def escape_panic_def replace_snapshot_simps)
  moreover have "\<exists>listed. fst (paging_all (la_ctx api') ''apps'' app_key (nil_panics (la_list api'))) =
          Inr (map Some listed) \<and> next' = map new_app listed"
    if ok: "apps_refresh api' snap = (next', None)" for api' next'
  proof -
    obtain xs where xs: "fst (paging_all (la_ctx api') ''apps'' app_key (nil_panics (la_list api'))) = Inr xs"
      and next': "next' = map new_app (List.map_filter (\<lambda>a. a) xs)"
      using replace_snapshot_None [OF ok [unfolded apps_refresh_def]] by (auto simp: escape_panic_Inr)
    obtain ps where "walk (la_ctx api') (nil_panics (la_list api')) 0 0 ps"
      and "xs = first_by app_key (concat ps)"
      using xs unfolding paging_all_walk by auto
    then have "None \<notin> set xs"
      using nil_panics_walk set_first_by_subset by (metis subsetD)
    then obtain listed where "xs = map Some listed" using no_nil by blast
    with xs next' show ?thesis by (auto simp: map_filter_def comp_def)
  qed
  ultimately show ?thesis by blast
qed

definition demo_app :: godo_app where
  "demo_app =
     \<lparr>gap_id = ''a'', gap_tier_slug = ''basic'', gap_default_ingress = '''', gap_region = None,
      gap_active_phase = Some ''ACTIVE'', gap_in_progress = False,
      gap_last_deployment_active_at = None, gap_created_at = None, gap_spec = None\<rparr>"

lemma apps_nil_witness:
  "\<exists>m. apps_refresh \<lparr>la_ctx = \<lparr>ctx_live = 9, ctx_cause = Sentinel DeadlineExceeded\<rparr>,
      la_list = (\<lambda>k page. Inr ([Some demo_app, None], LastPage))\<rparr> [new_app demo_app] =
    ([new_app demo_app], Some (Panicked m))"
  using apps_nil [of "\<lparr>la_ctx = \<lparr>ctx_live = 9, ctx_cause = Sentinel DeadlineExceeded\<rparr>,
      la_list = (\<lambda>k page. Inr ([Some demo_app, None], LastPage))\<rparr>"]
  by (fastforce simp: ctx_err_def)

end
