(* ===== verification/Counting.thy ===== *)
theory Counting
  imports Metrics "HOL-Library.AList"
begin

text \<open>
  Counting into a map of floats, \<open>counts[key]++\<close>, as the images, reservedips and projects
  collectors do. The map is an association list with distinct keys, whose order stands for the
  order it happens to be iterated in; a missing key reads as zero.
\<close>

lemma update_fresh: "k \<notin> fst ` set m \<Longrightarrow> AList.update k v m = m @ [(k, v)]"
  by (induction m) auto

definition bump :: "'k \<Rightarrow> ('k \<times> float64) list \<Rightarrow> ('k \<times> float64) list" where
  "bump k m = AList.update k (flt_inc (case map_of m k of None \<Rightarrow> Fin 0 | Some v \<Rightarrow> v)) m"

definition tally :: "('x \<Rightarrow> 'k) \<Rightarrow> ('k \<times> float64) list \<Rightarrow> 'x list \<Rightarrow> ('k \<times> float64) list" where
  "tally key m xs = foldl (\<lambda>m x. bump (key x) m) m xs"

lemma tally_simps [simp]:
  "tally key m [] = m"
  "tally key m (xs @ [x]) = bump (key x) (tally key m xs)"
  by (simp_all add: tally_def)

lemma tally_distinct: "distinct (map fst m) \<Longrightarrow> distinct (map fst (tally key m xs))"
  by (induction xs rule: rev_induct) (simp_all add: bump_def distinct_update)

lemma tally_keys: "fst ` set (tally key m xs) = fst ` set m \<union> key ` set xs"
  by (induction xs rule: rev_induct) (auto simp: bump_def dom_update simp flip: dom_map_of_conv_image_fst simp: update_conv')

text \<open>Below \<open>2 ^ 53\<close> items every count is exact.\<close>

lemma tally_lookup:
  assumes "length xs < 2 ^ 53" and "\<forall>(k, v) \<in> set m. v = Fin 0"
  shows "map_of (tally key m xs) k =
    (if k \<in> fst ` set m \<union> key ` set xs then Some (Fin (of_nat (count_list (map key xs) k))) else None)"
  using assms(1)
proof (induction xs arbitrary: k rule: rev_induct)
  case Nil
  have "v = Fin 0" if "map_of m k = Some v" for v
    using map_of_SomeD [OF that] assms(2) by auto
  moreover have "map_of m k = None \<longleftrightarrow> k \<notin> fst ` set m" by (rule map_of_eq_None_iff)
  ultimately show ?case by (cases "map_of m k") auto
next
  case (snoc x xs)
  have small: "count_list (map key xs) (key x) + 1 < 2 ^ 53"
    using snoc.prems count_le_length [of "map key xs" "key x"] by simp
  have old: "(case map_of (tally key m xs) (key x) of None \<Rightarrow> Fin 0 | Some v \<Rightarrow> v) =
      Fin (of_nat (count_list (map key xs) (key x)))"
    using snoc by (auto simp: count_list_0_iff)
  show ?case
    using snoc flt_inc_exact [OF small]
    by (auto simp: bump_def update_conv' old)
qed

text \<open>The counts add up to the number of items.\<close>

fun counted :: "float64 \<Rightarrow> rat" where
  "counted (Fin a) = a"
| "counted x = 0"

lemma tally_sum:
  assumes "length xs < 2 ^ 53" and "\<forall>(k, v) \<in> set m. v = Fin 0" and "distinct (map fst m)"
  shows "sum_list (map (\<lambda>(k, v). counted v) (tally key m xs)) = of_nat (length xs)"
proof -
  let ?t = "tally key m xs" and ?n = "\<lambda>k. of_nat (count_list (map key xs) k) :: rat"
  have dist: "distinct (map fst ?t)" using assms(3) by (rule tally_distinct)
  have "counted v = ?n k" if "(k, v) \<in> set ?t" for k v
    using tally_lookup [OF assms(1,2), of key k] map_of_is_SomeI [OF dist that]
    by (simp split: if_splits)
  then have "map (\<lambda>(k, v). counted v) ?t = map ?n (map fst ?t)" by auto
  then have "sum_list (map (\<lambda>(k, v). counted v) ?t) = (\<Sum>k \<in> fst ` set ?t. ?n k)"
    using dist by (simp add: sum_list_distinct_conv_sum_set del: map_map)
  also have "\<dots> = of_nat (\<Sum>k \<in> fst ` set m \<union> key ` set xs. count_list (map key xs) k)"
    by (simp add: tally_keys)
  also have "(\<Sum>k \<in> fst ` set m \<union> key ` set xs. count_list (map key xs) k) = length xs"
    using sum_count_set [of "map key xs" "fst ` set m \<union> key ` set xs"] by simp
  finally show ?thesis .
qed

end
