(* ===== verification/Counted_Lists.thy ===== *)
theory Counted_Lists
  imports Collector Counting
begin

text \<open>
  internal/collector/images and reservedips: the collectors that replace a list together with the
  counts made from it. The snapshot is a pointer, \<open>None\<close> before the first successful refresh.
  \<open>time.Parse\<close> with RFC 3339 is a parameter.
\<close>

section \<open>images\<close>

record godo_stored_image =
  gim_id :: int
  gim_name :: string
  gim_type :: string
  gim_distribution :: string
  gim_status :: string
  gim_regions :: "string list"
  gim_size_gigabytes :: float64
  gim_min_disk_size :: int
  gim_created :: string

record stored_image =
  im_id :: string
  im_name :: string
  im_kind :: string
  im_distribution :: string
  im_status :: string
  im_regions :: string
  im_size :: float64
  im_min_disk :: float64
  im_created :: bool
  im_created_at :: float64

record image_snapshot =
  is_images :: "stored_image list"
  is_counts :: "(string \<times> float64) list"

definition known_image_types :: "string list" where
  "known_image_types = [''snapshot'', ''backup'', ''custom'']"

definition image_labels :: "string list" where
  "image_labels = [''id'', ''name'', ''type'']"

definition image_size_desc :: desc where
  "image_size_desc = Desc ''digitalocean_image_size_bytes'' image_labels"
definition image_min_disk_desc :: desc where
  "image_min_disk_desc = Desc ''digitalocean_image_min_disk_size_bytes'' image_labels"
definition image_created_desc :: desc where
  "image_created_desc = Desc ''digitalocean_image_created_timestamp_seconds'' image_labels"
definition image_info_desc :: desc where
  "image_info_desc = Desc ''digitalocean_image_info''
     [''id'', ''name'', ''type'', ''distribution'', ''status'', ''regions'']"
definition image_count_desc :: desc where
  "image_count_desc = Desc ''digitalocean_images'' [''type'']"

definition image_descriptors :: "desc list" where
  "image_descriptors =
     [image_size_desc, image_min_disk_desc, image_created_desc, image_info_desc, image_count_desc]"

lemmas image_desc_defs = image_size_desc_def image_min_disk_desc_def image_created_desc_def
  image_info_desc_def image_count_desc_def image_labels_def

definition join_regions :: "string list \<Rightarrow> string" where
  "join_regions regions = join_with '','' (sort_strings regions)"

definition new_image :: "(string \<Rightarrow> int option) \<Rightarrow> godo_stored_image \<Rightarrow> stored_image" where
  "new_image parse_rfc3339 i =
     \<lparr>im_id = itoa (gim_id i), im_name = gim_name i, im_kind = gim_type i,
      im_distribution = gim_distribution i, im_status = gim_status i,
      im_regions = join_regions (gim_regions i), im_size = flt_scale 30 (gim_size_gigabytes i),
      im_min_disk = flt_scale 30 (of_int64 (gim_min_disk_size i)),
      im_created = (parse_rfc3339 (gim_created i) \<noteq> None),
      im_created_at = (case parse_rfc3339 (gim_created i) of
                         None \<Rightarrow> Fin 0 | Some unix \<Rightarrow> of_int64 unix)\<rparr>"

record images_api =
  ia_ctx :: ctx
  ia_list :: "godo_stored_image list_func"

definition image_snapshot_of :: "stored_image list \<Rightarrow> image_snapshot" where
  "image_snapshot_of imgs =
     \<lparr>is_images = imgs,
      is_counts = tally im_kind (map (\<lambda>kind. (kind, Fin 0)) known_image_types) imgs\<rparr>"

definition images_refresh ::
  "(string \<Rightarrow> int option) \<Rightarrow> images_api \<Rightarrow> image_snapshot option
     \<Rightarrow> image_snapshot option \<times> goerr option" where
  "images_refresh p api snap =
     replace_snapshot (fst (paging_all (ia_ctx api) ''images'' gim_id (ia_list api)))
       (\<lambda>listed. Some (image_snapshot_of (map (new_image p) listed))) snap"

definition image_metrics :: "stored_image \<Rightarrow> metric list" where
  "image_metrics i =
     (let labels = [im_id i, im_name i, im_kind i] in
      [gauge image_size_desc (im_size i) labels, gauge image_min_disk_desc (im_min_disk i) labels] @
      (if im_created i then [gauge image_created_desc (im_created_at i) labels] else []) @
      [gauge image_info_desc (Fin 1)
         [im_id i, im_name i, im_kind i, im_distribution i, im_status i, im_regions i]])"

definition image_count_metrics :: "(string \<times> float64) list \<Rightarrow> metric list" where
  "image_count_metrics counts = map (\<lambda>(kind, n). gauge image_count_desc n [kind]) counts"

definition images_collect :: "image_snapshot option \<Rightarrow> metric list" where
  "images_collect snap =
     (case snap of
        None \<Rightarrow> []
      | Some s \<Rightarrow> concat (map image_metrics (is_images s)) @ image_count_metrics (is_counts s))"

text \<open>The counts are always those of the images they were replaced with.\<close>

definition images_ok :: "image_snapshot option \<Rightarrow> bool" where
  "images_ok snap =
     (case snap of
        None \<Rightarrow> True
      | Some s \<Rightarrow> distinct (map im_id (is_images s)) \<and> s = image_snapshot_of (is_images s))"

lemma image_metrics_described: "well_described image_descriptors (image_metrics i)"
  by (simp add: image_metrics_def Let_def image_descriptors_def) (simp add: image_desc_defs)

lemma images_collect_described: "well_described image_descriptors (images_collect s)"
proof -
  have "well_described image_descriptors (image_count_metrics counts)" for counts
    by (auto simp: image_count_metrics_def well_described_def image_descriptors_def)
      (simp add: image_desc_defs)
  then show ?thesis
    by (simp add: images_collect_def well_described_concat_map image_metrics_described)
qed

lemma image_metrics_distinct: "distinct (map series_of (image_metrics i))"
  unfolding image_metrics_def Let_def
  by (rule names_distinct, (rule names_within_rules)+) (simp add: image_desc_defs)

lemma image_metrics_owner: "m \<in> set (image_metrics i) \<Longrightarrow> first_label m = im_id i"
  by (auto simp: image_metrics_def Let_def split: if_splits)

lemma image_metrics_names: "m \<in> set (image_metrics i) \<Longrightarrow> metric_name m \<noteq> fq_name image_count_desc"
  by (auto simp: image_metrics_def Let_def image_desc_defs split: if_splits)

lemma image_counts_distinct: "distinct (map fst (is_counts (image_snapshot_of imgs)))"
  unfolding image_snapshot_of_def by (simp, rule tally_distinct) (simp add: known_image_types_def comp_def)

lemma images_collect_unique: "images_ok s \<Longrightarrow> no_duplicates (images_collect s)"
proof (cases s)
  case (Some r)
  assume ok: "images_ok s"
  have "no_duplicates (concat (map image_metrics (is_images r)))"
    using ok Some
    by (intro no_duplicates_by_id [where key = im_id])
      (auto simp: images_ok_def image_metrics_distinct image_metrics_owner)
  moreover have "distinct (map fst (is_counts r))"
    using ok Some image_counts_distinct [of "is_images r"] by (simp add: images_ok_def)
  then have "no_duplicates (image_count_metrics (is_counts r))"
    unfolding image_count_metrics_def by (rule no_duplicates_keyed) (simp add: inj_def)
  ultimately have "no_duplicates (concat (map image_metrics (is_images r)) @ image_count_metrics (is_counts r))"
    by (rule no_duplicates_parts)
      (auto simp: image_count_metrics_def dest: image_metrics_names)
  with Some show ?thesis by (simp add: images_collect_def)
qed (simp add: images_collect_def no_duplicates_def)

lemma images_refresh_ok: "images_ok s \<Longrightarrow> images_ok (fst (images_refresh p env s))"
  unfolding images_refresh_def
proof (rule replace_snapshot_ok, assumption)
  fix xs
  assume "fst (paging_all (ia_ctx env) ''images'' gim_id (ia_list env)) = Inr xs"
  then have "distinct (map gim_id xs)" by (rule paging_all_distinct)
  then have "distinct (map (im_id \<circ> new_image p) xs)"
    by (auto simp: distinct_map inj_on_def new_image_def dest: itoa_inj)
  then show "images_ok (Some (image_snapshot_of (map (new_image p) xs)))"
    by (simp add: images_ok_def image_snapshot_of_def)
qed

interpretation images: unique_collector "images_refresh p" images_collect image_descriptors None images_ok
  for p
proof
  show "images_ok None" "images_collect None = []" by (simp_all add: images_ok_def images_collect_def)
qed (simp_all add: images_collect_described images_refresh_ok images_collect_unique)

interpretation images_atomic:
  atomic_collector "images_refresh p" images_collect image_descriptors None images_ok for p
  by unfold_locales (simp add: images_refresh_def replace_snapshot_failure)

section \<open>reservedips\<close>

record godo_reserved_ip =
  grv_ip :: string
  grv_region :: "string option"
  grv_droplet :: "(int \<times> string) option"
  grv_project_id :: string

record godo_reserved_ipv6 =
  grv6_ip :: string
  grv6_region_slug :: string
  grv6_droplet :: "(int \<times> string) option"

record reserved_ip =
  ri_ip :: string
  ri_region :: string
  ri_version :: string
  ri_droplet_id :: string
  ri_droplet_name :: string
  ri_project_id :: string
  ri_assigned :: float64

type_synonym ip_group = "string \<times> string"

record ip_snapshot =
  ps_ips :: "reserved_ip list"
  ps_counts :: "(ip_group \<times> float64) list"

definition version_ipv4 :: string where "version_ipv4 = ''4''"
definition version_ipv6 :: string where "version_ipv6 = ''6''"

definition ip_assigned_desc :: desc where
  "ip_assigned_desc = Desc ''digitalocean_reserved_ip_assigned'' [''ip'', ''region'', ''version'']"
definition ip_info_desc :: desc where
  "ip_info_desc = Desc ''digitalocean_reserved_ip_info''
     [''ip'', ''region'', ''version'', ''droplet_id'', ''droplet_name'', ''project_id'']"
definition ip_count_desc :: desc where
  "ip_count_desc = Desc ''digitalocean_reserved_ips'' [''region'', ''version'']"

definition ip_descriptors :: "desc list" where
  "ip_descriptors = [ip_assigned_desc, ip_info_desc, ip_count_desc]"

lemmas ip_desc_defs = ip_descriptors_def ip_assigned_desc_def ip_info_desc_def ip_count_desc_def

definition assign_droplet :: "reserved_ip \<Rightarrow> (int \<times> string) option \<Rightarrow> reserved_ip" where
  "assign_droplet out droplet =
     (case droplet of
        None \<Rightarrow> out
      | Some (i, name) \<Rightarrow>
          out\<lparr>ri_assigned := Fin 1, ri_droplet_id := itoa i, ri_droplet_name := name\<rparr>)"

definition new_ipv4 :: "godo_reserved_ip \<Rightarrow> reserved_ip" where
  "new_ipv4 ip =
     assign_droplet
       \<lparr>ri_ip = grv_ip ip, ri_region = (case grv_region ip of None \<Rightarrow> '''' | Some slug \<Rightarrow> slug),
        ri_version = version_ipv4, ri_droplet_id = '''', ri_droplet_name = '''',
        ri_project_id = grv_project_id ip, ri_assigned = Fin 0\<rparr> (grv_droplet ip)"

definition new_ipv6 :: "godo_reserved_ipv6 \<Rightarrow> reserved_ip" where
  "new_ipv6 ip =
     assign_droplet
       \<lparr>ri_ip = grv6_ip ip, ri_region = grv6_region_slug ip, ri_version = version_ipv6,
        ri_droplet_id = '''', ri_droplet_name = '''', ri_project_id = '''',
        ri_assigned = Fin 0\<rparr> (grv6_droplet ip)"

text \<open>\<open>snapshot.add\<close>: the address and its count.\<close>

definition ip_group_of :: "reserved_ip \<Rightarrow> ip_group" where
  "ip_group_of ip = (ri_region ip, ri_version ip)"

definition add_ip :: "reserved_ip \<Rightarrow> ip_snapshot \<Rightarrow> ip_snapshot" where
  "add_ip ip s =
     \<lparr>ps_ips = ps_ips s @ [ip], ps_counts = bump (ip_group_of ip) (ps_counts s)\<rparr>"

record ips_api =
  pa_ctx4 :: ctx
  pa_list4 :: "godo_reserved_ip list_func"
  pa_ctx6 :: ctx
  pa_list6 :: "godo_reserved_ipv6 list_func"

definition ip_snapshot_of :: "godo_reserved_ip list \<Rightarrow> godo_reserved_ipv6 list \<Rightarrow> ip_snapshot" where
  "ip_snapshot_of v4 v6 =
     foldl (\<lambda>s ip. add_ip (new_ipv6 ip) s)
       (foldl (\<lambda>s ip. add_ip (new_ipv4 ip) s) \<lparr>ps_ips = [], ps_counts = []\<rparr> v4) v6"

definition reserved_ips_refresh ::
  "ips_api \<Rightarrow> ip_snapshot option \<Rightarrow> ip_snapshot option \<times> goerr option" where
  "reserved_ips_refresh api snap =
     replace_snapshot
       (and_then (fst (paging_all (pa_ctx4 api) ''reserved IPs'' grv_ip (pa_list4 api))) (\<lambda>v4.
        and_then (fst (paging_all (pa_ctx6 api) ''reserved IPv6 addresses'' grv6_ip (pa_list6 api)))
          (\<lambda>v6. Inr (v4, v6))))
       (\<lambda>(v4, v6). Some (ip_snapshot_of v4 v6)) snap"

definition ip_metrics :: "reserved_ip \<Rightarrow> metric list" where
  "ip_metrics ip =
     [gauge ip_assigned_desc (ri_assigned ip) [ri_ip ip, ri_region ip, ri_version ip],
      gauge ip_info_desc (Fin 1)
        [ri_ip ip, ri_region ip, ri_version ip, ri_droplet_id ip, ri_droplet_name ip,
         ri_project_id ip]]"

definition ip_count_metrics :: "(ip_group \<times> float64) list \<Rightarrow> metric list" where
  "ip_count_metrics counts = map (\<lambda>(g, n). gauge ip_count_desc n [fst g, snd g]) counts"

definition reserved_ips_collect :: "ip_snapshot option \<Rightarrow> metric list" where
  "reserved_ips_collect snap =
     (case snap of
        None \<Rightarrow> []
      | Some s \<Rightarrow> concat (map ip_metrics (ps_ips s)) @ ip_count_metrics (ps_counts s))"

text \<open>The counts are those of the addresses, and an address appears once per version.\<close>

definition ip_identity :: "reserved_ip \<Rightarrow> string \<times> string" where
  "ip_identity ip = (ri_ip ip, ri_version ip)"

definition ips_ok :: "ip_snapshot option \<Rightarrow> bool" where
  "ips_ok snap =
     (case snap of
        None \<Rightarrow> True
      | Some s \<Rightarrow> distinct (map ip_identity (ps_ips s)) \<and> ps_counts s = tally ip_group_of [] (ps_ips s))"

lemma add_ips:
  "ps_ips (foldl (\<lambda>s ip. add_ip (f ip) s) s xs) = ps_ips s @ map f xs"
  "ps_counts s = tally ip_group_of [] (ps_ips s) \<Longrightarrow>
     ps_counts (foldl (\<lambda>s ip. add_ip (f ip) s) s xs) = tally ip_group_of [] (ps_ips s @ map f xs)"
proof (induction xs arbitrary: s)
  case (Cons x xs)
  { case 1 show ?case by (simp add: Cons.IH(1)) (simp add: add_ip_def) }
  { case 2
    then have "ps_counts (add_ip (f x) s) = tally ip_group_of [] (ps_ips (add_ip (f x) s))"
      by (simp add: add_ip_def)
    from Cons.IH(2) [OF this] show ?case by (simp add: add_ip_def) }
qed simp_all

lemma ip_snapshot_of_parts:
  "ps_ips (ip_snapshot_of v4 v6) = map new_ipv4 v4 @ map new_ipv6 v6"
  "ps_counts (ip_snapshot_of v4 v6) = tally ip_group_of [] (map new_ipv4 v4 @ map new_ipv6 v6)"
  by (simp_all add: ip_snapshot_of_def add_ips)

lemma new_ip_identity:
  "ip_identity (new_ipv4 x) = (grv_ip x, version_ipv4)"
  "ip_identity (new_ipv6 y) = (grv6_ip y, version_ipv6)"
  by (simp_all add: ip_identity_def new_ipv4_def new_ipv6_def assign_droplet_def split: option.split)

lemma ip_snapshot_ok:
  assumes "distinct (map grv_ip v4)" and "distinct (map grv6_ip v6)"
  shows "ips_ok (Some (ip_snapshot_of v4 v6))"
proof -
  have "distinct (map (ip_identity \<circ> new_ipv4) v4)" "distinct (map (ip_identity \<circ> new_ipv6) v6)"
    using assms by (auto simp: distinct_map inj_on_def new_ip_identity)
  then show ?thesis
    by (auto simp: ips_ok_def ip_snapshot_of_parts new_ip_identity version_ipv4_def version_ipv6_def)
qed

lemma reserved_ips_refresh_ok: "ips_ok s \<Longrightarrow> ips_ok (fst (reserved_ips_refresh env s))"
  unfolding reserved_ips_refresh_def
  by (rule replace_snapshot_ok, assumption)
    (auto simp: and_then_Inr intro: ip_snapshot_ok paging_all_distinct)

lemma reserved_ips_unique: "ips_ok s \<Longrightarrow> no_duplicates (reserved_ips_collect s)"
proof (cases s)
  case (Some r)
  assume ok: "ips_ok s"
  have "no_duplicates (concat (map ip_metrics (ps_ips r)))"
  proof (rule no_duplicates_blocks
      [where key = ip_identity and owner = "\<lambda>m. (m_labels m ! 0, m_labels m ! 2)"])
    show "distinct (map ip_identity (ps_ips r))" using ok Some by (simp add: ips_ok_def)
    show "distinct (map series_of (ip_metrics x))" for x by (simp add: ip_metrics_def)
    show "(m_labels m ! 0, m_labels m ! 2) = ip_identity x" if "m \<in> set (ip_metrics x)" for m x
      using that by (auto simp: ip_metrics_def ip_identity_def)
  qed (simp add: series_of_def)
  moreover have "distinct (map fst (ps_counts r))"
    using ok Some tally_distinct [of "[]" ip_group_of] by (simp add: ips_ok_def)
  then have "no_duplicates (ip_count_metrics (ps_counts r))"
    unfolding ip_count_metrics_def by (rule no_duplicates_keyed) (simp add: inj_def prod_eq_iff)
  ultimately have "no_duplicates (concat (map ip_metrics (ps_ips r)) @ ip_count_metrics (ps_counts r))"
    by (rule no_duplicates_parts) (auto simp: ip_count_metrics_def ip_metrics_def ip_desc_defs)
  with Some show ?thesis by (simp add: reserved_ips_collect_def)
qed (simp add: reserved_ips_collect_def no_duplicates_def)

lemma reserved_ips_described: "well_described ip_descriptors (reserved_ips_collect s)"
proof -
  have "well_described ip_descriptors (ip_count_metrics counts)" for counts
    by (auto simp: ip_count_metrics_def well_described_def ip_desc_defs)
  moreover have "well_described ip_descriptors (ip_metrics ip)" for ip
    by (simp add: ip_metrics_def ip_desc_defs)
  ultimately show ?thesis by (simp add: reserved_ips_collect_def well_described_concat_map)
qed

interpretation reserved_ips:
  unique_collector reserved_ips_refresh reserved_ips_collect ip_descriptors None ips_ok
proof
  show "ips_ok None" "reserved_ips_collect None = []"
    by (simp_all add: ips_ok_def reserved_ips_collect_def)
qed (simp_all add: reserved_ips_described reserved_ips_refresh_ok reserved_ips_unique)

interpretation reserved_ips_atomic:
  atomic_collector reserved_ips_refresh reserved_ips_collect ip_descriptors None ips_ok
  by unfold_locales (simp add: reserved_ips_refresh_def replace_snapshot_failure)

section \<open>Properties\<close>

text \<open>
  C37. After any refreshes the image counts are those of the images they are sent with: every
  documented type and every type that occurs has a count, which is the number of images of it,
  and there is no other count.
\<close>

theorem images_counted:
  assumes "refreshes (images_refresh p) envs None = Some s" and "length (is_images s) < 2 ^ 53"
  shows "map_of (is_counts s) kind =
    (if kind \<in> set known_image_types \<union> im_kind ` set (is_images s)
     then Some (Fin (of_nat (count_list (map im_kind (is_images s)) kind))) else None)"
proof -
  have "images_ok (refreshes (images_refresh p) envs None)"
    by (rule images.refreshes_ok) (rule images.start_ok)
  then have "is_counts s = tally im_kind (map (\<lambda>kind. (kind, Fin 0)) known_image_types) (is_images s)"
    unfolding assms(1) by (simp add: images_ok_def image_snapshot_of_def) (metis image_snapshot.select_convs(2))
  then show ?thesis
    using tally_lookup [OF assms(2), of "map (\<lambda>kind. (kind, Fin 0)) known_image_types" im_kind kind]
    by (auto simp: image_image)
qed

definition demo_images :: images_api where
  "demo_images =
     \<lparr>ia_ctx = \<lparr>ctx_live = 9, ctx_cause = Sentinel DeadlineExceeded\<rparr>,
      ia_list = (\<lambda>k page. Inr (map (\<lambda>n. \<lparr>gim_id = n, gim_name = ''old'', gim_type = ''snapshot'',
        gim_distribution = ''Debian'', gim_status = ''available'', gim_regions = [],
        gim_size_gigabytes = Fin 2, gim_min_disk_size = 25, gim_created = ''''\<rparr>) [1, 2], LastPage))\<rparr>"

lemma images_counted_witness:
  "\<exists>s. refreshes (images_refresh (\<lambda>_. None)) [demo_images] None = Some s \<and>
     map_of (is_counts s) ''snapshot'' = Some (Fin 2) \<and> map_of (is_counts s) ''backup'' = Some (Fin 0)"
proof -
  obtain s where s: "refreshes (images_refresh (\<lambda>_. None)) [demo_images] None = Some s"
    and "map im_kind (is_images s) = [''snapshot'', ''snapshot'']"
    by (simp add: images_refresh_def demo_images_def paging_single_page replace_snapshot_simps
        image_snapshot_of_def new_image_def)
  moreover from this(2) have "length (is_images s) = 2" by (metis length_map length_Cons list.size(3) numeral_2_eq_2)
  moreover from calculation(2) have "''snapshot'' \<in> im_kind ` set (is_images s)"
    by (metis list.set_intros(1) list.set_map)
  ultimately show ?thesis
    using images_counted [OF s, of "''snapshot''"] images_counted [OF s, of "''backup''"]
    by (simp add: known_image_types_def)
qed

text \<open>
  After any refreshes the reserved IP counts cover exactly the regions and versions that hold
  an address, each with the number of its addresses, and they add up to all of them.
\<close>

lemma reserved_ips_counted:
  assumes "refreshes reserved_ips_refresh envs None = Some s" and "length (ps_ips s) < 2 ^ 53"
  shows "map_of (ps_counts s) g =
      (if g \<in> ip_group_of ` set (ps_ips s)
       then Some (Fin (of_nat (count_list (map ip_group_of (ps_ips s)) g))) else None) \<and>
    sum_list (map (\<lambda>(g, n). counted n) (ps_counts s)) = of_nat (length (ps_ips s))"
proof -
  have "ips_ok (refreshes reserved_ips_refresh envs None)"
    by (rule reserved_ips.refreshes_ok) (rule reserved_ips.start_ok)
  then have "ps_counts s = tally ip_group_of [] (ps_ips s)"
    unfolding assms(1) by (simp add: ips_ok_def)
  then show ?thesis
    using tally_lookup [OF assms(2), of "[]" ip_group_of g] tally_sum [OF assms(2), of "[]" ip_group_of]
    by simp
qed

definition demo_ips :: ips_api where
  "demo_ips =
     (let c = \<lparr>ctx_live = 9, ctx_cause = Sentinel DeadlineExceeded\<rparr>
      in \<lparr>pa_ctx4 = c,
          pa_list4 = (\<lambda>k page. Inr ([\<lparr>grv_ip = ''192.0.2.1'', grv_region = Some ''fra1'',
            grv_droplet = None, grv_project_id = ''''\<rparr>], LastPage)),
          pa_ctx6 = c,
          pa_list6 = (\<lambda>k page. Inr ([\<lparr>grv6_ip = ''2001:db8::1'', grv6_region_slug = ''fra1'',
            grv6_droplet = Some (7, ''web'')\<rparr>], LastPage))\<rparr>)"

lemma reserved_ips_counted_witness:
  "\<exists>s. refreshes reserved_ips_refresh [demo_ips] None = Some s \<and>
     map_of (ps_counts s) (''fra1'', ''6'') = Some (Fin 1) \<and> map_of (ps_counts s) (''nyc1'', ''4'') = None"
proof -
  obtain s where s: "refreshes reserved_ips_refresh [demo_ips] None = Some s"
    and g: "map ip_group_of (ps_ips s) = [(''fra1'', ''4''), (''fra1'', ''6'')]"
    by (simp add: reserved_ips_refresh_def demo_ips_def Let_def paging_single_page
        replace_snapshot_simps ip_snapshot_of_parts new_ipv4_def new_ipv6_def assign_droplet_def
        version_ipv4_def version_ipv6_def ip_group_of_def)
  from g have "length (ps_ips s) = 2" by (metis length_map length_Cons list.size(3) numeral_2_eq_2)
  moreover have "ip_group_of ` set (ps_ips s) = {(''fra1'', ''4''), (''fra1'', ''6'')}"
    using arg_cong [OF g, of set] by simp
  ultimately show ?thesis
    using reserved_ips_counted [OF s, of "(''fra1'', ''6'')"]
      reserved_ips_counted [OF s, of "(''nyc1'', ''4'')"] s
    by (simp add: g)
qed

end
