(* ===== verification/Remembering.thy ===== *)
theory Remembering
  imports Collector
begin

text \<open>
  Collectors that look something up for every listed resource and, where one lookup fails, keep
  what the previous snapshot had for that resource. The locale \<open>remembering\<close> states what the
  code promises of one such step and derives what a whole refresh makes of the list.
\<close>

text \<open>The map a collector builds from its snapshot before it goes through the new list.\<close>

definition previous_by :: "('x \<Rightarrow> string) \<Rightarrow> ('x \<Rightarrow> 'v) \<Rightarrow> 'x list \<Rightarrow> (string \<rightharpoonup> 'v)" where
  "previous_by ident found snap = foldl (\<lambda>m x. m(ident x \<mapsto> found x)) Map.empty snap"

text \<open>A loop whose body may return the error of the whole function.\<close>

fun map_res :: "('x \<Rightarrow> 'y res) \<Rightarrow> 'x list \<Rightarrow> 'y list res" where
  "map_res f [] = Inr []"
| "map_res f (x # xs) = and_then (f x) (\<lambda>y. and_then (map_res f xs) (\<lambda>ys. Inr (y # ys)))"

lemma previous_by_lookup:
  "distinct (map ident snap) \<Longrightarrow> old \<in> set snap \<Longrightarrow>
     previous_by ident found snap (ident old) = Some (found old)"
  unfolding previous_by_def
proof (induction snap rule: rev_induct)
  case (snoc c snap)
  then show ?case by (cases "old = c") (auto simp: rev_image_eqI)
qed simp

lemma previous_by_absent: "i \<notin> ident ` set snap \<Longrightarrow> previous_by ident found snap i = None"
  unfolding previous_by_def by (induction snap rule: rev_induct) auto

lemma map_res_Inr: "map_res f xs = Inr ys \<longleftrightarrow> list_all2 (\<lambda>x y. f x = Inr y) xs ys"
proof (induction xs arbitrary: ys)
  case (Cons x xs)
  then show ?case by (cases ys) (auto simp: and_then_Inr)
qed auto

lemma map_res_ids:
  "map_res f xs = Inr ys \<Longrightarrow> (\<And>x y. f x = Inr y \<Longrightarrow> ident y = ident' x) \<Longrightarrow> map ident ys = map ident' xs"
  unfolding map_res_Inr by (induction rule: list_all2_induct) auto

locale remembering =
  fixes ident :: "'x \<Rightarrow> string"
    and found :: "'x \<Rightarrow> 'v"
    and nothing :: 'v
    and lookup :: "'api \<Rightarrow> string \<Rightarrow> 'v res"
    and gone :: "'api \<Rightarrow> string \<Rightarrow> bool"
    and renew :: "'api \<Rightarrow> (string \<rightharpoonup> 'v) \<Rightarrow> 'x \<Rightarrow> 'x res"
  assumes answered: "lookup api (ident x) = Inr v \<Longrightarrow>
      \<exists>y. renew api prev x = Inr y \<and> ident y = ident x \<and> found y = v"
    and kept: "lookup api (ident x) = Inl e \<Longrightarrow> \<not> gone api (ident x) \<Longrightarrow>
      \<exists>y. renew api prev x = Inr y \<and> ident y = ident x \<and>
        found y = (case prev (ident x) of None \<Rightarrow> nothing | Some v \<Rightarrow> v)"
    and stops: "lookup api (ident x) = Inl e \<Longrightarrow> gone api (ident x) \<Longrightarrow> renew api prev x = Inl e"
begin

text \<open>What an entry holds after the refresh: the answer, or what the snapshot had, or nothing.\<close>

definition renewed :: "'api \<Rightarrow> (string \<rightharpoonup> 'v) \<Rightarrow> string \<Rightarrow> 'v" where
  "renewed api prev i =
     (case lookup api i of
        Inr v \<Rightarrow> v | Inl e \<Rightarrow> (case prev i of None \<Rightarrow> nothing | Some v \<Rightarrow> v))"

lemma renew_entry:
  assumes "renew api prev x = Inr y"
  shows "ident y = ident x" and "found y = renewed api prev (ident y)"
    and "lookup api (ident y) = Inl e \<Longrightarrow> \<not> gone api (ident y)"
  using assms answered [of api x _ prev] kept [of api x _ prev] stops [of api x _ prev]
  by (cases "lookup api (ident x)"; cases "gone api (ident x)"; fastforce simp: renewed_def)+

lemma renew_list:
  assumes "map_res (renew api prev) xs = Inr ys"
  shows "map ident ys = map ident xs"
    and "\<And>y. y \<in> set ys \<Longrightarrow> found y = renewed api prev (ident y)"
    and "\<And>y e. y \<in> set ys \<Longrightarrow> lookup api (ident y) = Inl e \<Longrightarrow> \<not> gone api (ident y)"
  using assms unfolding map_res_Inr
  by (induction rule: list_all2_induct) (auto simp: renew_entry dest: renew_entry(3))

lemma renew_list_succeeds:
  assumes "\<And>x. x \<in> set xs \<Longrightarrow> \<not> gone api (ident x)"
  shows "\<exists>ys. map_res (renew api prev) xs = Inr ys"
  using assms
proof (induction xs)
  case (Cons x xs)
  then obtain ys where "map_res (renew api prev) xs = Inr ys" by auto
  moreover have "\<exists>y. renew api prev x = Inr y"
    using answered [of api x _ prev] kept [of api x _ prev] Cons.prems [of x]
    by (cases "lookup api (ident x)") auto
  ultimately show ?case by auto
qed simp

lemma renewed_from:
  assumes "distinct (map ident snap)" and "old \<in> set snap" and "ident old = i"
  shows "renewed api (previous_by ident found snap) i =
    (case lookup api i of Inr v \<Rightarrow> v | Inl e \<Rightarrow> found old)"
  using previous_by_lookup [OF assms(1,2), of found] assms(3) by (auto simp: renewed_def split: sum.splits)

lemma renewed_new:
  "i \<notin> ident ` set snap \<Longrightarrow> renewed api (previous_by ident found snap) i =
    (case lookup api i of Inr v \<Rightarrow> v | Inl e \<Rightarrow> nothing)"
  by (simp add: renewed_def previous_by_absent split: sum.splits)

end

end
