(* ===== verification/Kubernetes.thy ===== *)
theory Kubernetes
  imports Statuses Remembering
begin

text \<open>
  internal/collector/kubernetes: clusters, their node pools and nodes, and the versions a
  cluster can be upgraded to. A nil pointer is \<open>None\<close>; reading through a nil node pool panics,
  which is the error \<open>Panicked\<close> here as in the contract of a collector. The list holds no nil
  cluster, and the maintenance day is the string its method gives. The pool's running count is
  the number of its running nodes, which is what adding ones comes to below \<open>2 ^ 53\<close>.
\<close>

section \<open>Data\<close>

record godo_node =
  gn_id :: string
  gn_name :: string
  gn_droplet_id :: string
  gn_status :: "string option"

record godo_pool =
  gp_id :: string
  gp_name :: string
  gp_size :: string
  gp_count :: int
  gp_auto_scale :: bool
  gp_min_nodes :: int
  gp_max_nodes :: int
  gp_nodes :: "godo_node option list"

record godo_cluster =
  gc_id :: string
  gc_name :: string
  gc_region_slug :: string
  gc_version_slug :: string
  gc_auto_upgrade :: bool
  gc_surge_upgrade :: bool
  gc_ha :: bool
  gc_registry_enabled :: bool
  gc_tags :: "string list"
  gc_status :: "string option"
  gc_maintenance :: "(string \<times> string) option"
  gc_node_pools :: "godo_pool option list"

record node =
  kn_id :: string
  kn_name :: string
  kn_droplet_id :: string
  kn_state :: string

record node_pool =
  kp_id :: string
  kp_name :: string
  kp_size :: string
  kp_nodes :: float64
  kp_running :: float64
  kp_auto_scale :: float64
  kp_min_nodes :: float64
  kp_max_nodes :: float64
  kp_members :: "node list"

record upgrades =
  ku_known :: bool
  ku_versions :: "string list"

record cluster =
  kc_id :: string
  kc_name :: string
  kc_region :: string
  kc_version :: string
  kc_maintenance_day :: string
  kc_maintenance_start_time :: string
  kc_up :: float64
  kc_auto_upgrade :: float64
  kc_surge_upgrade :: float64
  kc_ha :: float64
  kc_registry :: float64
  kc_pools :: "node_pool list"
  kc_upgrades :: upgrades

definition running_state :: string where "running_state = ''running''"

definition known_node_states :: "string list" where
  "known_node_states = [''provisioning'', running_state, ''draining'', ''deleting'']"

section \<open>Descriptors\<close>

definition cluster_labels :: "string list" where
  "cluster_labels = [''id'', ''name'', ''region'']"
definition pool_labels :: "string list" where
  "pool_labels = [''cluster_id'', ''cluster'', ''pool_id'', ''pool'', ''size'']"

definition k8s_up_desc :: desc where
  "k8s_up_desc = Desc ''digitalocean_kubernetes_cluster_up'' [''id'', ''name'', ''region'', ''version'']"
definition k8s_auto_upgrade_desc :: desc where
  "k8s_auto_upgrade_desc = Desc ''digitalocean_kubernetes_cluster_auto_upgrade'' cluster_labels"
definition k8s_surge_upgrade_desc :: desc where
  "k8s_surge_upgrade_desc = Desc ''digitalocean_kubernetes_cluster_surge_upgrade'' cluster_labels"
definition k8s_ha_desc :: desc where
  "k8s_ha_desc = Desc ''digitalocean_kubernetes_cluster_ha'' cluster_labels"
definition k8s_registry_desc :: desc where
  "k8s_registry_desc = Desc ''digitalocean_kubernetes_cluster_registry_enabled'' cluster_labels"
definition k8s_cluster_info_desc :: desc where
  "k8s_cluster_info_desc = Desc ''digitalocean_kubernetes_cluster_info''
     [''id'', ''name'', ''region'', ''version'', ''maintenance_day'', ''maintenance_start_time'']"
definition k8s_upgrade_available_desc :: desc where
  "k8s_upgrade_available_desc = Desc ''digitalocean_kubernetes_cluster_upgrade_available''
     [''cluster_id'', ''cluster'']"
definition k8s_available_version_desc :: desc where
  "k8s_available_version_desc = Desc ''digitalocean_kubernetes_cluster_available_version_info''
     [''cluster_id'', ''cluster'', ''version'']"
definition k8s_pool_nodes_desc :: desc where
  "k8s_pool_nodes_desc = Desc ''digitalocean_kubernetes_node_pool_nodes'' pool_labels"
definition k8s_pool_running_desc :: desc where
  "k8s_pool_running_desc = Desc ''digitalocean_kubernetes_node_pool_nodes_running'' pool_labels"
definition k8s_pool_auto_scale_desc :: desc where
  "k8s_pool_auto_scale_desc = Desc ''digitalocean_kubernetes_node_pool_auto_scale'' pool_labels"
definition k8s_pool_min_desc :: desc where
  "k8s_pool_min_desc = Desc ''digitalocean_kubernetes_node_pool_min_nodes'' pool_labels"
definition k8s_pool_max_desc :: desc where
  "k8s_pool_max_desc = Desc ''digitalocean_kubernetes_node_pool_max_nodes'' pool_labels"
definition k8s_node_state_desc :: desc where
  "k8s_node_state_desc = Desc ''digitalocean_kubernetes_node_state''
     [''cluster_id'', ''cluster'', ''pool_id'', ''pool'', ''node_id'', ''node'', ''state'']"
definition k8s_node_info_desc :: desc where
  "k8s_node_info_desc = Desc ''digitalocean_kubernetes_node_info''
     [''cluster_id'', ''cluster'', ''pool_id'', ''pool'', ''node_id'', ''node'', ''droplet_id'']"

definition k8s_descriptors :: "desc list" where
  "k8s_descriptors =
     [k8s_up_desc, k8s_auto_upgrade_desc, k8s_surge_upgrade_desc, k8s_ha_desc, k8s_registry_desc,
      k8s_cluster_info_desc, k8s_upgrade_available_desc, k8s_available_version_desc,
      k8s_pool_nodes_desc, k8s_pool_running_desc, k8s_pool_auto_scale_desc, k8s_pool_min_desc,
      k8s_pool_max_desc, k8s_node_state_desc, k8s_node_info_desc]"

lemmas k8s_desc_defs = k8s_up_desc_def k8s_auto_upgrade_desc_def k8s_surge_upgrade_desc_def
  k8s_ha_desc_def k8s_registry_desc_def k8s_cluster_info_desc_def k8s_upgrade_available_desc_def
  k8s_available_version_desc_def k8s_pool_nodes_desc_def k8s_pool_running_desc_def
  k8s_pool_auto_scale_desc_def k8s_pool_min_desc_def k8s_pool_max_desc_def
  k8s_node_state_desc_def k8s_node_info_desc_def cluster_labels_def pool_labels_def

section \<open>Conversion\<close>

definition new_node :: "godo_node \<Rightarrow> node" where
  "new_node n =
     \<lparr>kn_id = gn_id n, kn_name = gn_name n, kn_droplet_id = gn_droplet_id n,
      kn_state = (case gn_status n of None \<Rightarrow> '''' | Some state \<Rightarrow> state)\<rparr>"

definition new_pool :: "godo_pool \<Rightarrow> node_pool" where
  "new_pool np =
     (let members = map new_node (List.map_filter (\<lambda>n. n) (gp_nodes np))
      in \<lparr>kp_id = gp_id np, kp_name = gp_name np, kp_size = gp_size np,
          kp_nodes = of_int64 (gp_count np),
          kp_running = len_float (filter (\<lambda>m. kn_state m = running_state) members),
          kp_auto_scale = bool_to_float (gp_auto_scale np),
          kp_min_nodes = of_int64 (gp_min_nodes np), kp_max_nodes = of_int64 (gp_max_nodes np),
          kp_members = members\<rparr>)"

fun new_pools :: "godo_pool option list \<Rightarrow> node_pool list res" where
  "new_pools [] = Inr []"
| "new_pools (None # nps) = Inl (Panicked ''nil pointer dereference'')"
| "new_pools (Some np # nps) = and_then (new_pools nps) (\<lambda>ps. Inr (new_pool np # ps))"

definition no_upgrades :: upgrades where
  "no_upgrades = \<lparr>ku_known = False, ku_versions = []\<rparr>"

definition new_cluster :: "godo_cluster \<Rightarrow> cluster res" where
  "new_cluster kc =
     and_then (new_pools (gc_node_pools kc)) (\<lambda>pools. Inr
       \<lparr>kc_id = gc_id kc, kc_name = gc_name kc, kc_region = gc_region_slug kc,
        kc_version = gc_version_slug kc,
        kc_maintenance_day = (case gc_maintenance kc of None \<Rightarrow> '''' | Some (day, start) \<Rightarrow> day),
        kc_maintenance_start_time =
          (case gc_maintenance kc of None \<Rightarrow> '''' | Some (day, start) \<Rightarrow> start),
        kc_up = (case gc_status kc of
                   None \<Rightarrow> Fin 0 | Some state \<Rightarrow> bool_to_float (state = running_state)),
        kc_auto_upgrade = bool_to_float (gc_auto_upgrade kc),
        kc_surge_upgrade = bool_to_float (gc_surge_upgrade kc),
        kc_ha = bool_to_float (gc_ha kc), kc_registry = bool_to_float (gc_registry_enabled kc),
        kc_pools = pools, kc_upgrades = no_upgrades\<rparr>)"

section \<open>Refresh\<close>

text \<open>
  What the environment answers: the list, per cluster id the upgrades lookup, and whether the
  context of the refresh is done when that lookup has failed.
\<close>

record k8s_api =
  ka_ctx :: ctx
  ka_list :: "godo_cluster list_func"
  ka_upgrades :: "string \<Rightarrow> string option list res"
  ka_done :: "string \<Rightarrow> bool"

definition previous_upgrades :: "cluster list \<Rightarrow> string \<rightharpoonup> upgrades" where
  "previous_upgrades snap = previous_by kc_id kc_upgrades snap"

definition version_slugs :: "string option list \<Rightarrow> string list" where
  "version_slugs versions =
     List.map_filter (\<lambda>v. case v of None \<Rightarrow> None | Some slug \<Rightarrow> if slug \<noteq> '''' then Some slug else None)
       versions"

definition refresh_upgrades ::
  "bool \<Rightarrow> k8s_api \<Rightarrow> (string \<rightharpoonup> upgrades) \<Rightarrow> cluster \<Rightarrow> cluster res" where
  "refresh_upgrades ask api previous cl =
     (if \<not> ask then Inr cl
      else case ka_upgrades api (kc_id cl) of
             Inl e \<Rightarrow>
               if ka_done api (kc_id cl) then Inl e
               else Inr (cl\<lparr>kc_upgrades :=
                      (case previous (kc_id cl) of None \<Rightarrow> no_upgrades | Some u \<Rightarrow> u)\<rparr>)
           | Inr versions \<Rightarrow>
               Inr (cl\<lparr>kc_upgrades := \<lparr>ku_known = True, ku_versions = version_slugs versions\<rparr>\<rparr>))"

fun convert_clusters ::
  "bool \<Rightarrow> k8s_api \<Rightarrow> (string \<rightharpoonup> upgrades) \<Rightarrow> godo_cluster list \<Rightarrow> cluster list res" where
  "convert_clusters ask api previous [] = Inr []"
| "convert_clusters ask api previous (kc # kcs) =
     and_then (new_cluster kc) (\<lambda>cl.
     and_then (refresh_upgrades ask api previous cl) (\<lambda>cl'.
     and_then (convert_clusters ask api previous kcs) (\<lambda>cls. Inr (cl' # cls))))"

definition k8s_refresh ::
  "bool \<Rightarrow> filter_conf \<Rightarrow> k8s_api \<Rightarrow> cluster list \<Rightarrow> cluster list \<times> goerr option" where
  "k8s_refresh ask f api snap =
     replace_snapshot
       (and_then (fst (paging_all (ka_ctx api) ''kubernetes clusters'' gc_id (ka_list api)))
         (\<lambda>clusters. convert_clusters ask api (previous_upgrades snap)
            (filter (\<lambda>kc. match f (gc_tags kc) (gc_region_slug kc)) clusters)))
       (\<lambda>next. next) snap"

section \<open>Collect\<close>

definition node_metrics :: "cluster \<Rightarrow> node_pool \<Rightarrow> node \<Rightarrow> metric list" where
  "node_metrics cl p n =
     (let labels = [kc_id cl, kc_name cl, kp_id p, kp_name p, kn_id n, kn_name n]
      in status_series k8s_node_state_desc known_node_states labels (kn_state n) @
         [gauge k8s_node_info_desc (Fin 1) (labels @ [kn_droplet_id n])])"

definition pool_metrics :: "cluster \<Rightarrow> node_pool \<Rightarrow> metric list" where
  "pool_metrics cl p =
     (let labels = [kc_id cl, kc_name cl, kp_id p, kp_name p, kp_size p]
      in [gauge k8s_pool_nodes_desc (kp_nodes p) labels,
          gauge k8s_pool_running_desc (kp_running p) labels,
          gauge k8s_pool_auto_scale_desc (kp_auto_scale p) labels,
          gauge k8s_pool_min_desc (kp_min_nodes p) labels,
          gauge k8s_pool_max_desc (kp_max_nodes p) labels] @
         concat (map (node_metrics cl p) (kp_members p)))"

definition upgrade_metrics :: "cluster \<Rightarrow> metric list" where
  "upgrade_metrics cl =
     (if \<not> ku_known (kc_upgrades cl) then []
      else gauge k8s_upgrade_available_desc (bool_to_float (ku_versions (kc_upgrades cl) \<noteq> []))
             [kc_id cl, kc_name cl] #
           map (\<lambda>version. gauge k8s_available_version_desc (Fin 1) [kc_id cl, kc_name cl, version])
             (ku_versions (kc_upgrades cl)))"

definition cluster_metrics :: "cluster \<Rightarrow> metric list" where
  "cluster_metrics cl =
     [gauge k8s_up_desc (kc_up cl) [kc_id cl, kc_name cl, kc_region cl, kc_version cl],
      gauge k8s_auto_upgrade_desc (kc_auto_upgrade cl) [kc_id cl, kc_name cl, kc_region cl],
      gauge k8s_surge_upgrade_desc (kc_surge_upgrade cl) [kc_id cl, kc_name cl, kc_region cl],
      gauge k8s_ha_desc (kc_ha cl) [kc_id cl, kc_name cl, kc_region cl],
      gauge k8s_registry_desc (kc_registry cl) [kc_id cl, kc_name cl, kc_region cl],
      gauge k8s_cluster_info_desc (Fin 1)
        [kc_id cl, kc_name cl, kc_region cl, kc_version cl, kc_maintenance_day cl,
         kc_maintenance_start_time cl]] @
     upgrade_metrics cl @ concat (map (pool_metrics cl) (kc_pools cl))"

definition k8s_collect :: "cluster list \<Rightarrow> metric list" where
  "k8s_collect snap = concat (map cluster_metrics snap)"

section \<open>The contract\<close>

lemma node_metrics_described: "well_described k8s_descriptors (node_metrics cl p n)"
  by (simp add: node_metrics_def Let_def k8s_descriptors_def status_series_described
      k8s_desc_defs)

lemma pool_metrics_described: "well_described k8s_descriptors (pool_metrics cl p)"
proof -
  have "well_described k8s_descriptors (concat (map (node_metrics cl p) (kp_members p)))"
    by (rule well_described_concat_map) (rule node_metrics_described)
  then show ?thesis
    by (simp add: pool_metrics_def Let_def) (simp add: k8s_descriptors_def k8s_desc_defs)
qed

lemma cluster_metrics_described: "well_described k8s_descriptors (cluster_metrics cl)"
proof -
  have "well_described k8s_descriptors (concat (map (pool_metrics cl) (kc_pools cl)))"
    by (rule well_described_concat_map) (rule pool_metrics_described)
  moreover have "well_described k8s_descriptors (upgrade_metrics cl)"
    by (auto simp: upgrade_metrics_def well_described_def k8s_descriptors_def k8s_desc_defs)
  ultimately show ?thesis
    by (simp add: cluster_metrics_def) (simp add: k8s_descriptors_def k8s_desc_defs)
qed

lemma new_cluster_fields:
  "new_cluster kc = Inr cl \<Longrightarrow> kc_id cl = gc_id kc \<and> kc_upgrades cl = no_upgrades"
  by (auto simp: new_cluster_def and_then_Inr)

lemma convert_clusters_steps:
  "convert_clusters ask api previous kcs = Inr cls \<Longrightarrow>
     \<exists>cls0. map_res new_cluster kcs = Inr cls0 \<and>
       map_res (refresh_upgrades ask api previous) cls0 = Inr cls"
proof (induction kcs arbitrary: cls)
  case (Cons kc kcs)
  then obtain cl0 cl1 rest where "new_cluster kc = Inr cl0"
    "refresh_upgrades ask api previous cl0 = Inr cl1"
    "convert_clusters ask api previous kcs = Inr rest" "cls = cl1 # rest"
    by (auto simp: and_then_Inr)
  with Cons.IH [of rest] show ?case by (auto intro: exI [of _ "cl0 # xs" for xs])
qed simp

definition k8s_ok :: "cluster list \<Rightarrow> bool" where
  "k8s_ok snap \<longleftrightarrow> distinct (map kc_id snap)"

lemma refresh_upgrades_id: "refresh_upgrades ask api previous cl = Inr cl' \<Longrightarrow> kc_id cl' = kc_id cl"
  by (auto simp: refresh_upgrades_def split: if_splits sum.splits)

lemma k8s_refresh_ok: "k8s_ok s \<Longrightarrow> k8s_ok (fst (k8s_refresh ask f api s))"
  unfolding k8s_refresh_def
proof (rule replace_snapshot_ok, assumption)
  fix xs
  assume "and_then (fst (paging_all (ka_ctx api) ''kubernetes clusters'' gc_id (ka_list api)))
      (\<lambda>clusters. convert_clusters ask api (previous_upgrades s)
         (filter (\<lambda>kc. match f (gc_tags kc) (gc_region_slug kc)) clusters)) = Inr xs"
  then obtain kcs where "fst (paging_all (ka_ctx api) ''kubernetes clusters'' gc_id (ka_list api)) = Inr kcs"
    and "convert_clusters ask api (previous_upgrades s)
      (filter (\<lambda>kc. match f (gc_tags kc) (gc_region_slug kc)) kcs) = Inr xs"
    by (auto simp: and_then_Inr)
  with paging_all_distinct [OF this(1)] convert_clusters_steps [OF this(2)]
  show "k8s_ok xs"
    by (auto simp: k8s_ok_def distinct_map_filter new_cluster_fields
        dest!: map_res_ids [where ident = kc_id and ident' = gc_id]
          map_res_ids [where ident = kc_id and ident' = kc_id, OF _ refresh_upgrades_id])
qed

interpretation kubernetes:
  collector "k8s_refresh ask f" k8s_collect k8s_descriptors "[]" k8s_ok for ask f
  by unfold_locales
    (simp_all add: k8s_ok_def [of "[]"] k8s_collect_def well_described_concat_map
      cluster_metrics_described k8s_refresh_ok)

interpretation kubernetes_atomic:
  atomic_collector "k8s_refresh ask f" k8s_collect k8s_descriptors "[]" k8s_ok for ask f
  by unfold_locales (simp add: k8s_refresh_def replace_snapshot_failure)

section \<open>Series\<close>

text \<open>
  The collector trusts the API to keep the ids of a cluster's pools, of a pool's nodes, and the
  upgrade versions apart. Where it does, no series is sent twice.
\<close>

definition cluster_unique :: "cluster \<Rightarrow> bool" where
  "cluster_unique cl \<longleftrightarrow>
     distinct (map kp_id (kc_pools cl)) \<and>
     list_all (\<lambda>p. distinct (map kn_id (kp_members p))) (kc_pools cl) \<and>
     distinct (ku_versions (kc_upgrades cl))"

lemma node_metrics_labels:
  "m \<in> set (node_metrics cl p n) \<Longrightarrow>
     m_labels m ! 0 = kc_id cl \<and> m_labels m ! 2 = kp_id p \<and> m_labels m ! 4 = kn_id n"
  by (auto simp: node_metrics_def Let_def dest!: status_series_labels)

lemma node_metrics_names:
  "m \<in> set (node_metrics cl p n) \<Longrightarrow>
     metric_name m \<in> {fq_name k8s_node_state_desc, fq_name k8s_node_info_desc}"
  by (auto simp: node_metrics_def Let_def metric_name_def dest: status_series_name)

lemma node_metrics_distinct: "distinct (map series_of (node_metrics cl p n))"
proof -
  have "distinct known_node_states" by (simp add: known_node_states_def running_state_def)
  then have "no_duplicates (status_series k8s_node_state_desc known_node_states labels s)" for labels s
    by (simp add: no_duplicates_def status_series_distinct)
  then show ?thesis
    unfolding node_metrics_def Let_def no_duplicates_def [symmetric]
    by (intro no_duplicates_parts)
      (auto simp: no_duplicates_def metric_name_def k8s_desc_defs dest!: status_series_name)
qed

lemma pool_metrics_labels:
  "m \<in> set (pool_metrics cl p) \<Longrightarrow> m_labels m ! 0 = kc_id cl \<and> m_labels m ! 2 = kp_id p"
  by (auto simp: pool_metrics_def Let_def dest: node_metrics_labels)

lemma pool_metrics_names:
  "m \<in> set (pool_metrics cl p) \<Longrightarrow>
     metric_name m \<in> fq_name ` {k8s_pool_nodes_desc, k8s_pool_running_desc, k8s_pool_auto_scale_desc,
       k8s_pool_min_desc, k8s_pool_max_desc, k8s_node_state_desc, k8s_node_info_desc}"
  by (auto simp: pool_metrics_def Let_def dest!: node_metrics_names)

lemma pool_metrics_distinct:
  assumes "distinct (map kn_id (kp_members p))"
  shows "distinct (map series_of (pool_metrics cl p))"
proof -
  have "no_duplicates (concat (map (node_metrics cl p) (kp_members p)))"
    using assms node_metrics_distinct
    by (rule no_duplicates_by_label [where k = 4]) (auto dest: node_metrics_labels)
  then show ?thesis
    unfolding pool_metrics_def Let_def no_duplicates_def [symmetric]
    by (intro no_duplicates_parts)
      (auto simp: no_duplicates_def k8s_desc_defs dest!: node_metrics_names)
qed

lemma cluster_metrics_distinct:
  assumes "cluster_unique cl"
  shows "distinct (map series_of (cluster_metrics cl))"
proof -
  have pools: "no_duplicates (concat (map (pool_metrics cl) (kc_pools cl)))"
    using assms
    by (intro no_duplicates_by_label [where k = 2 and key = kp_id] pool_metrics_distinct)
      (auto simp: cluster_unique_def list_all_iff dest: pool_metrics_labels)
  have "distinct (map series_of (map (\<lambda>version. gauge k8s_available_version_desc (Fin 1)
      [kc_id cl, kc_name cl, version]) (ku_versions (kc_upgrades cl))))"
    using assms by (simp add: cluster_unique_def comp_def distinct_map inj_on_def)
  then have "no_duplicates (upgrade_metrics cl)"
    by (auto simp: upgrade_metrics_def no_duplicates_def k8s_desc_defs)
  with pools have "no_duplicates (upgrade_metrics cl @ concat (map (pool_metrics cl) (kc_pools cl)))"
    by (intro no_duplicates_parts)
      (auto simp: upgrade_metrics_def k8s_desc_defs dest!: pool_metrics_names split: if_splits)
  then show ?thesis
    unfolding cluster_metrics_def no_duplicates_def [symmetric]
    by (intro no_duplicates_parts)
      (auto simp: no_duplicates_def upgrade_metrics_def k8s_desc_defs dest!: pool_metrics_names
        split: if_splits)
qed

lemma cluster_metrics_owner: "m \<in> set (cluster_metrics cl) \<Longrightarrow> m_labels m ! 0 = kc_id cl"
  by (auto simp: cluster_metrics_def upgrade_metrics_def dest: pool_metrics_labels split: if_splits)

lemma k8s_unique:
  "k8s_ok snap \<Longrightarrow> list_all cluster_unique snap \<Longrightarrow> no_duplicates (k8s_collect snap)"
  unfolding k8s_collect_def k8s_ok_def
  by (rule no_duplicates_by_label [where k = 0 and key = kc_id])
    (auto simp: list_all_iff cluster_metrics_distinct cluster_metrics_owner)

section \<open>Properties\<close>

text \<open>What an upgrades lookup finds, and the refresh of one cluster as a remembering step.\<close>

definition found_upgrades :: "k8s_api \<Rightarrow> string \<Rightarrow> upgrades res" where
  "found_upgrades api i =
     (case ka_upgrades api i of
        Inl e \<Rightarrow> Inl e
      | Inr versions \<Rightarrow> Inr \<lparr>ku_known = True, ku_versions = version_slugs versions\<rparr>)"

interpretation upgrades:
  remembering kc_id kc_upgrades no_upgrades found_upgrades ka_done "refresh_upgrades True"
  by unfold_locales (auto simp: refresh_upgrades_def found_upgrades_def split: sum.splits option.splits)

text \<open>
  One cluster's failed upgrades lookup costs nothing but its freshness: after a refresh that
  succeeded, a cluster whose lookup answered reports what it answered, and one whose lookup
  failed reports the versions the previous snapshot had for it; and the refresh only succeeded
  because the context was still alive at each such failure.
\<close>

lemma k8s_upgrades_kept:
  assumes "snd (k8s_refresh True f api snap) = None" and "distinct (map kc_id snap)"
    and "cl \<in> set (fst (k8s_refresh True f api snap))"
    and "old \<in> set snap" and "kc_id old = kc_id cl"
  shows "case ka_upgrades api (kc_id cl) of
      Inr versions \<Rightarrow> kc_upgrades cl = \<lparr>ku_known = True, ku_versions = version_slugs versions\<rparr>
    | Inl e \<Rightarrow> kc_upgrades cl = kc_upgrades old \<and> \<not> ka_done api (kc_id cl)"
proof -
  obtain clusters where
    "convert_clusters True api (previous_upgrades snap) clusters = Inr (fst (k8s_refresh True f api snap))"
    using replace_snapshot_success [OF assms(1) [unfolded k8s_refresh_def]]
    by (auto simp: k8s_refresh_def and_then_Inr)
  then obtain cls0 where r:
    "map_res (refresh_upgrades True api (previous_by kc_id kc_upgrades snap)) cls0 =
       Inr (fst (k8s_refresh True f api snap))"
    unfolding previous_upgrades_def by (blast dest: convert_clusters_steps)
  show ?thesis
    using upgrades.renew_list(2,3) [OF r assms(3)]
      upgrades.renewed_from [OF assms(2,4,5), of api]
    by (auto simp: found_upgrades_def split: sum.splits)
qed

definition demo_cluster :: godo_cluster where
  "demo_cluster =
     \<lparr>gc_id = ''c'', gc_name = ''prod'', gc_region_slug = ''fra1'', gc_version_slug = ''1.30'',
      gc_auto_upgrade = False, gc_surge_upgrade = False, gc_ha = False, gc_registry_enabled = False,
      gc_tags = [], gc_status = None, gc_maintenance = None, gc_node_pools = []\<rparr>"

definition demo_k8s :: "string option list res \<Rightarrow> k8s_api" where
  "demo_k8s answer =
     \<lparr>ka_ctx = \<lparr>ctx_live = 9, ctx_cause = Sentinel DeadlineExceeded\<rparr>,
      ka_list = (\<lambda>k page. Inr ([demo_cluster], LastPage)),
      ka_upgrades = (\<lambda>i. answer), ka_done = (\<lambda>i. False)\<rparr>"

lemma demo_k8s_answers [simp]:
  "ka_upgrades (demo_k8s answer) i = answer" "\<not> ka_done (demo_k8s answer) i"
  by (simp_all add: demo_k8s_def)

lemma demo_k8s_refresh:
  "k8s_refresh True zero_filter (demo_k8s answer) snap =
     replace_snapshot
       (and_then (new_cluster demo_cluster) (\<lambda>cl.
        and_then (refresh_upgrades True (demo_k8s answer) (previous_upgrades snap) cl) (\<lambda>cl'. Inr [cl'])))
       (\<lambda>next. next) snap"
proof -
  have "fst (paging_all (ka_ctx (demo_k8s answer)) ''kubernetes clusters'' gc_id
      (ka_list (demo_k8s answer))) = Inr [demo_cluster]"
    unfolding paging_all_walk
    by (intro exI [of _ "[[demo_cluster]]"] conjI walk_stop [where lnk = LastPage])
      (simp_all add: demo_k8s_def ctx_err_def)
  then show ?thesis
    by (simp add: k8s_refresh_def match_def match_tags_def match_region_def zero_filter_def)
qed

lemma k8s_upgrades_kept_witness:
  "\<exists>cl old. fst (k8s_refresh True zero_filter (demo_k8s (Inl (Other ''500''))) [old]) = [cl] \<and>
     ku_versions (kc_upgrades cl) = [''1.31''] \<and> kc_upgrades cl = kc_upgrades old"
proof -
  obtain cl0 where c: "new_cluster demo_cluster = Inr cl0" by (simp add: new_cluster_def demo_cluster_def)
  define old where "old = cl0\<lparr>kc_upgrades := \<lparr>ku_known = True, ku_versions = [''1.31'']\<rparr>\<rparr>"
  define cl where "cl = cl0\<lparr>kc_upgrades :=
      (case previous_upgrades [old] (kc_id cl0) of None \<Rightarrow> no_upgrades | Some u \<Rightarrow> u)\<rparr>"
  have r: "k8s_refresh True zero_filter (demo_k8s (Inl (Other ''500''))) [old] = ([cl], None)"
    by (simp add: demo_k8s_refresh c refresh_upgrades_def replace_snapshot_def cl_def)
  moreover have "kc_id old = kc_id cl" by (simp add: cl_def old_def)
  ultimately have "kc_upgrades cl = kc_upgrades old"
    using k8s_upgrades_kept [of zero_filter "demo_k8s (Inl (Other ''500''))" "[old]" cl old] by simp
  with r show ?thesis by (intro exI [of _ cl] exI [of _ old]) (simp add: old_def)
qed

text \<open>
  A nil node is skipped, a nil node pool is not: a listing with one makes the refresh panic,
  which the scheduler turns into a failed refresh that keeps the snapshot.
\<close>

lemma new_pools_nil: "None \<in> set nps \<Longrightarrow> \<exists>m. new_pools nps = Inl (Panicked m)"
  by (induction nps rule: new_pools.induct) auto

lemma k8s_nil_pool:
  assumes "None \<in> set (gc_node_pools kc)"
    and "fst (paging_all (ka_ctx api) ''kubernetes clusters'' gc_id (ka_list api)) = Inr (kc # kcs)"
    and "match f (gc_tags kc) (gc_region_slug kc)"
  shows "\<exists>m. k8s_refresh ask f api snap = (snap, Some (Panicked m))"
proof -
  obtain m where "new_cluster kc = Inl (Panicked m)"
    using new_pools_nil [OF assms(1)] by (auto simp: new_cluster_def)
  then show ?thesis using assms(2,3) by (simp add: k8s_refresh_def replace_snapshot_def)
qed

lemma k8s_nil_pool_witness:
  "\<exists>m. k8s_refresh False zero_filter
     ((demo_k8s (Inr []))\<lparr>ka_list := \<lambda>k page. Inr ([demo_cluster\<lparr>gc_node_pools := [None]\<rparr>], LastPage)\<rparr>)
     [] = ([], Some (Panicked m))"
proof -
  let ?kc = "demo_cluster\<lparr>gc_node_pools := [None]\<rparr>"
  let ?api = "(demo_k8s (Inr []))\<lparr>ka_list := \<lambda>k page. Inr ([?kc], LastPage)\<rparr>"
  have "fst (paging_all (ka_ctx ?api) ''kubernetes clusters'' gc_id (ka_list ?api)) = Inr [?kc]"
    unfolding paging_all_walk
    by (intro exI [of _ "[[?kc]]"] conjI walk_stop [where lnk = LastPage])
      (simp_all add: demo_k8s_def ctx_err_def)
  from k8s_nil_pool [OF _ this] show ?thesis
    by (simp add: match_def match_tags_def match_region_def zero_filter_def)
qed

end
