(* ===== verification/Databases.thy ===== *)
theory Databases
  imports Statuses Remembering "HOL-Library.Word"
begin

text \<open>
  internal/collector/databases: the database clusters, read by a page loop of the collector's own,
  and their replicas and backups, which keep their last known state. The environment answers every
  request; a request made when the context of the refresh is done fails with its error, which is
  what net/http documents and what ends a page loop whose pages stay full. An instant is what its
  \<open>String\<close> and \<open>Unix\<close> methods give.
\<close>

section \<open>Data\<close>

record godo_database =
  gdb_id :: string
  gdb_name :: string
  gdb_engine_slug :: string
  gdb_version_slug :: string
  gdb_num_nodes :: int
  gdb_size_slug :: string
  gdb_region_slug :: string
  gdb_status :: string
  gdb_tags :: "string list"
  gdb_project_id :: string
  gdb_private_network_uuid :: string
  gdb_storage_size_mib :: "64 word"
  gdb_users :: nat
  gdb_db_names :: "string list"
  gdb_maintenance_pending :: "bool option"
  gdb_storage_autoscale :: "bool option"

record godo_replica =
  grp_id :: string
  grp_name :: string
  grp_region :: string
  grp_status :: string

record godo_backup =
  gbk_created_string :: string
  gbk_created_unix :: int

record replica =
  rp_name :: string
  rp_region :: string
  rp_status :: string

record db_details =
  dt_known :: bool
  dt_replicas :: "replica list"
  dt_last_backup :: float64
  dt_has_backup :: bool

record db_cluster =
  db_id :: string
  db_name :: string
  db_region :: string
  db_size :: string
  db_engine :: string
  db_version :: string
  db_project_id :: string
  db_private_network_uuid :: string
  db_online :: float64
  db_nodes :: float64
  db_storage :: float64
  db_maintenance :: float64
  db_users :: float64
  db_logical :: float64
  db_autoscale :: float64
  db_details :: db_details

definition databases_per_page :: nat where "databases_per_page = 200"

definition online_status :: string where "online_status = ''online''"

definition known_replica_statuses :: "string list" where
  "known_replica_statuses =
     [''creating'', online_status, ''resizing'', ''migrating'', ''forking'']"

definition no_details :: db_details where
  "no_details = \<lparr>dt_known = False, dt_replicas = [], dt_last_backup = Fin 0, dt_has_backup = False\<rparr>"

section \<open>Descriptors\<close>

definition db_full_labels :: "string list" where
  "db_full_labels = [''id'', ''name'', ''region'', ''size'', ''engine'', ''version'']"
definition db_short_labels :: "string list" where
  "db_short_labels = [''id'', ''name'', ''region'']"

definition db_status_desc :: desc where
  "db_status_desc = Desc ''digitalocean_database_status'' db_full_labels"
definition db_nodes_desc :: desc where
  "db_nodes_desc = Desc ''digitalocean_database_nodes'' db_full_labels"
definition db_storage_desc :: desc where
  "db_storage_desc = Desc ''digitalocean_database_storage_bytes'' db_short_labels"
definition db_maintenance_desc :: desc where
  "db_maintenance_desc = Desc ''digitalocean_database_maintenance_pending'' db_short_labels"
definition db_users_desc :: desc where
  "db_users_desc = Desc ''digitalocean_database_users'' db_short_labels"
definition db_logical_desc :: desc where
  "db_logical_desc = Desc ''digitalocean_database_databases'' db_short_labels"
definition db_autoscale_desc :: desc where
  "db_autoscale_desc = Desc ''digitalocean_database_storage_autoscale_enabled'' db_short_labels"
definition db_info_desc :: desc where
  "db_info_desc = Desc ''digitalocean_database_cluster_info''
     [''id'', ''name'', ''region'', ''project_id'', ''private_network_uuid'']"
definition db_replicas_desc :: desc where
  "db_replicas_desc = Desc ''digitalocean_database_replicas'' db_short_labels"
definition db_replica_status_desc :: desc where
  "db_replica_status_desc = Desc ''digitalocean_database_replica_status''
     [''id'', ''name'', ''replica'', ''region'', ''status'']"
definition db_backup_desc :: desc where
  "db_backup_desc = Desc ''digitalocean_database_last_backup_timestamp_seconds'' db_short_labels"

definition db_descriptors :: "desc list" where
  "db_descriptors =
     [db_status_desc, db_nodes_desc, db_storage_desc, db_maintenance_desc, db_users_desc,
      db_logical_desc, db_autoscale_desc, db_info_desc, db_replicas_desc, db_replica_status_desc,
      db_backup_desc]"

lemmas db_desc_defs = db_status_desc_def db_nodes_desc_def db_storage_desc_def
  db_maintenance_desc_def db_users_desc_def db_logical_desc_def db_autoscale_desc_def
  db_info_desc_def db_replicas_desc_def db_replica_status_desc_def db_backup_desc_def
  db_full_labels_def db_short_labels_def

section \<open>Conversion\<close>

text \<open>\<open>strings.EqualFold\<close> with an ASCII string none of whose letters folds to a character beyond ASCII.\<close>

definition equal_fold :: "string \<Rightarrow> string \<Rightarrow> bool" where
  "equal_fold s t = (to_upper s = to_upper t)"

definition new_db_cluster :: "godo_database \<Rightarrow> db_cluster" where
  "new_db_cluster db =
     \<lparr>db_id = gdb_id db, db_name = gdb_name db, db_region = gdb_region_slug db,
      db_size = gdb_size_slug db, db_engine = gdb_engine_slug db, db_version = gdb_version_slug db,
      db_project_id = gdb_project_id db,
      db_private_network_uuid = gdb_private_network_uuid db,
      db_online = bool_to_float (equal_fold (gdb_status db) online_status),
      db_nodes = of_int64 (gdb_num_nodes db),
      db_storage = flt_scale 20 (of_int64 (uint (gdb_storage_size_mib db))),
      db_maintenance =
        (case gdb_maintenance_pending db of None \<Rightarrow> Fin 0 | Some pending \<Rightarrow> bool_to_float pending),
      db_users = of_int64 (int (gdb_users db)), db_logical = len_float (gdb_db_names db),
      db_autoscale =
        (case gdb_storage_autoscale db of None \<Rightarrow> Fin 0 | Some enabled \<Rightarrow> bool_to_float enabled),
      db_details = no_details\<rparr>"

section \<open>The page loop\<close>

text \<open>
  \<open>db_list\<close> answers the \<open>k\<close>-th request, for \<open>page\<close>; \<open>db_done\<close> tells whether the context is done when
  the lookup of a cluster has failed.
\<close>

record db_api =
  db_ctx :: ctx
  db_list :: "nat \<Rightarrow> int \<Rightarrow> godo_database list res"
  db_replicas_ctx :: "string \<Rightarrow> ctx"
  db_replicas :: "string \<Rightarrow> godo_replica list_func"
  db_backups_ctx :: "string \<Rightarrow> ctx"
  db_backups :: "string \<Rightarrow> godo_backup list_func"
  db_done :: "string \<Rightarrow> bool"

text \<open>The loop over one page: whether it met a repeat, the ids seen and the clusters so far.\<close>

fun scan_page ::
  "filter_conf \<Rightarrow> godo_database list \<Rightarrow> string set \<Rightarrow> db_cluster list
     \<Rightarrow> bool \<times> string set \<times> db_cluster list" where
  "scan_page f [] seen out = (False, seen, out)"
| "scan_page f (db # page) seen out =
     (if gdb_id db \<in> seen then (True, seen, out)
      else if \<not> match f (gdb_tags db) (gdb_region_slug db)
           then scan_page f page (insert (gdb_id db) seen) out
           else scan_page f page (insert (gdb_id db) seen) (out @ [new_db_cluster db]))"

function list_clusters_from ::
  "filter_conf \<Rightarrow> db_api \<Rightarrow> nat \<Rightarrow> int \<Rightarrow> string set \<Rightarrow> db_cluster list \<Rightarrow> db_cluster list res" where
  "list_clusters_from f api k page seen out =
     (case under_ctx (db_ctx api) k (db_list api k page) of
        Inl e \<Rightarrow> Inl (Wrap ''list databases'' [e])
      | Inr dbs \<Rightarrow>
          (case scan_page f dbs seen out of
             (repeated, seen', out') \<Rightarrow>
               if repeated then Inr out'
               else if length dbs < databases_per_page then Inr out'
               else list_clusters_from f api (Suc k) (wrap64 (page + 1)) seen' out'))"
  by pat_completeness auto
termination
  by (relation "measure (\<lambda>(f, api, k, page, seen, out). ctx_live (db_ctx api) - k)")
    (auto simp: under_ctx_def ctx_err_def split: if_splits)

declare list_clusters_from.simps [simp del]

definition list_clusters :: "filter_conf \<Rightarrow> db_api \<Rightarrow> db_cluster list res" where
  "list_clusters f api = list_clusters_from f api 0 1 {} []"

section \<open>Replicas and backups\<close>

definition engine_does_not_offer :: "goerr \<Rightarrow> bool" where
  "engine_does_not_offer err =
     (case errors_as_api err of
        Some (Some status) \<Rightarrow> status = 400 \<or> status = 404 \<or> status = 412
      | _ \<Rightarrow> False)"

definition list_replicas :: "db_api \<Rightarrow> string \<Rightarrow> replica list res" where
  "list_replicas api i =
     (case fst (paging_all (db_replicas_ctx api i) ''database replicas'' grp_id (db_replicas api i)) of
        Inl err \<Rightarrow> if engine_does_not_offer err then Inr [] else Inl err
      | Inr page \<Rightarrow>
          Inr (map (\<lambda>r. \<lparr>rp_name = grp_name r, rp_region = grp_region r, rp_status = grp_status r\<rparr>) page))"

definition list_backups :: "db_api \<Rightarrow> string \<Rightarrow> godo_backup list res" where
  "list_backups api i =
     (case fst (paging_all (db_backups_ctx api i) ''database backups'' gbk_created_string
             (db_backups api i)) of
        Inl err \<Rightarrow> if engine_does_not_offer err then Inr [] else Inl err
      | Inr backups \<Rightarrow> Inr backups)"

definition newer_backup :: "db_details \<Rightarrow> godo_backup \<Rightarrow> db_details" where
  "newer_backup d b =
     (let taken = of_int64 (gbk_created_unix b)
      in if \<not> dt_has_backup d \<or> flt_less (dt_last_backup d) taken
         then d\<lparr>dt_last_backup := taken, dt_has_backup := True\<rparr> else d)"

definition lookup_details :: "db_api \<Rightarrow> string \<Rightarrow> db_details res" where
  "lookup_details api i =
     and_then (list_replicas api i) (\<lambda>replicas.
     and_then (list_backups api i) (\<lambda>backups. Inr
       (foldl newer_backup (no_details\<lparr>dt_known := True, dt_replicas := replicas\<rparr>) backups)))"

section \<open>Refresh\<close>

definition previous_details :: "db_cluster list \<Rightarrow> (string \<rightharpoonup> db_details)" where
  "previous_details snap = previous_by db_id db_details snap"

definition refresh_details ::
  "bool \<Rightarrow> db_api \<Rightarrow> (string \<rightharpoonup> db_details) \<Rightarrow> db_cluster \<Rightarrow> db_cluster res" where
  "refresh_details ask api previous cl =
     (if \<not> ask then Inr cl
      else case lookup_details api (db_id cl) of
             Inl err \<Rightarrow>
               if db_done api (db_id cl) then Inl err
               else Inr (cl\<lparr>db_details :=
                      (case previous (db_id cl) of None \<Rightarrow> no_details | Some d \<Rightarrow> d)\<rparr>)
           | Inr d \<Rightarrow> Inr (cl\<lparr>db_details := d\<rparr>))"

definition databases_refresh ::
  "bool \<Rightarrow> filter_conf \<Rightarrow> db_api \<Rightarrow> db_cluster list \<Rightarrow> db_cluster list \<times> goerr option" where
  "databases_refresh ask f api snap =
     replace_snapshot
       (and_then (list_clusters f api) (\<lambda>listed.
          map_res (refresh_details ask api (previous_details snap)) listed))
       (\<lambda>listed. listed) snap"

section \<open>Collect\<close>

definition collect_replica :: "db_cluster \<Rightarrow> replica \<Rightarrow> metric list" where
  "collect_replica db r =
     status_series db_replica_status_desc known_replica_statuses
       [db_id db, db_name db, rp_name r, rp_region r] (rp_status r)"

definition collect_details :: "db_cluster \<Rightarrow> metric list" where
  "collect_details db =
     (let d = db_details db
      in if \<not> dt_known d then []
         else [gauge db_replicas_desc (len_float (dt_replicas d)) [db_id db, db_name db, db_region db]] @
              concat (map (collect_replica db) (dt_replicas d)) @
              (if dt_has_backup d
               then [gauge db_backup_desc (dt_last_backup d) [db_id db, db_name db, db_region db]]
               else []))"

definition db_metrics :: "db_cluster \<Rightarrow> metric list" where
  "db_metrics db =
     (let full = [db_id db, db_name db, db_region db, db_size db, db_engine db, db_version db];
          short = [db_id db, db_name db, db_region db]
      in [gauge db_status_desc (db_online db) full, gauge db_nodes_desc (db_nodes db) full,
          gauge db_storage_desc (db_storage db) short,
          gauge db_maintenance_desc (db_maintenance db) short,
          gauge db_users_desc (db_users db) short, gauge db_logical_desc (db_logical db) short,
          gauge db_autoscale_desc (db_autoscale db) short,
          gauge db_info_desc (Fin 1)
            [db_id db, db_name db, db_region db, db_project_id db, db_private_network_uuid db]] @
         collect_details db)"

definition databases_collect :: "db_cluster list \<Rightarrow> metric list" where
  "databases_collect snap = concat (map db_metrics snap)"

section \<open>Specification of the page loop\<close>

text \<open>
  What the loop is meant to list: the clusters up to the first one whose id has occurred before.
  \<open>db_walk\<close> is which pages it reads: it goes on after a full page without a repeat.
\<close>

fun fresh_prefix :: "('a \<Rightarrow> 'k) \<Rightarrow> 'k set \<Rightarrow> 'a list \<Rightarrow> 'a list" where
  "fresh_prefix key seen [] = []"
| "fresh_prefix key seen (x # xs) =
     (if key x \<in> seen then [] else x # fresh_prefix key (insert (key x) seen) xs)"

lemma fresh_prefix_distinct:
  "distinct (map key (fresh_prefix key seen xs)) \<and> key ` set (fresh_prefix key seen xs) \<inter> seen = {}"
  by (induction key seen xs rule: fresh_prefix.induct) auto

lemma fresh_prefix_all:
  "fresh_prefix key seen xs = xs \<longleftrightarrow> distinct (map key xs) \<and> key ` set xs \<inter> seen = {}"
  by (induction key seen xs rule: fresh_prefix.induct) auto

lemma fresh_prefix_append:
  "fresh_prefix key seen xs = xs \<Longrightarrow>
     fresh_prefix key seen (xs @ ys) = xs @ fresh_prefix key (seen \<union> key ` set xs) ys"
  by (induction key seen xs rule: fresh_prefix.induct) (auto split: if_splits)

lemma fresh_prefix_length: "length (fresh_prefix key seen xs) \<le> length xs"
  by (induction key seen xs rule: fresh_prefix.induct) auto

lemma fresh_prefix_full:
  "fresh_prefix key seen xs = xs \<longleftrightarrow> length (fresh_prefix key seen xs) = length xs"
  by (induction key seen xs rule: fresh_prefix.induct) auto

definition db_keep :: "filter_conf \<Rightarrow> godo_database \<Rightarrow> bool" where
  "db_keep f db = match f (gdb_tags db) (gdb_region_slug db)"

lemma scan_page_prefix:
  "scan_page f dbs seen out =
     (fresh_prefix gdb_id seen dbs \<noteq> dbs,
      seen \<union> gdb_id ` set (fresh_prefix gdb_id seen dbs),
      out @ map new_db_cluster (filter (db_keep f) (fresh_prefix gdb_id seen dbs)))"
  by (induction f dbs seen out rule: scan_page.induct) (auto simp: db_keep_def)

inductive db_walk ::
  "db_api \<Rightarrow> nat \<Rightarrow> int \<Rightarrow> string set \<Rightarrow> godo_database list list \<Rightarrow> bool" for api :: db_api where
  db_last: "under_ctx (db_ctx api) k (db_list api k page) = Inr dbs \<Longrightarrow>
     fresh_prefix gdb_id seen dbs \<noteq> dbs \<or> length dbs < databases_per_page \<Longrightarrow>
     db_walk api k page seen [dbs]"
| db_on: "under_ctx (db_ctx api) k (db_list api k page) = Inr dbs \<Longrightarrow>
     fresh_prefix gdb_id seen dbs = dbs \<Longrightarrow> databases_per_page \<le> length dbs \<Longrightarrow>
     db_walk api (Suc k) (wrap64 (page + 1)) (seen \<union> gdb_id ` set dbs) ps \<Longrightarrow>
     db_walk api k page seen (dbs # ps)"

inductive_simps db_walk_iff: "db_walk api k page seen ps"

lemma list_clusters_walk:
  "list_clusters_from f api k page seen out = Inr r \<longleftrightarrow>
     (\<exists>ps. db_walk api k page seen ps \<and>
        r = out @ map new_db_cluster (filter (db_keep f) (fresh_prefix gdb_id seen (concat ps))))"
proof (induction "ctx_live (db_ctx api) - k" arbitrary: k page seen out rule: less_induct)
  case less
  show ?case
  proof (cases "under_ctx (db_ctx api) k (db_list api k page)")
    case (Inl e)
    then show ?thesis by (simp add: list_clusters_from.simps [of f api k] db_walk_iff [of api k])
  next
    case (Inr dbs)
    let ?more = "fresh_prefix gdb_id seen dbs = dbs \<and> databases_per_page \<le> length dbs"
    show ?thesis
    proof (cases ?more)
      case False
      then have "list_clusters_from f api k page seen out =
          Inr (out @ map new_db_cluster (filter (db_keep f) (fresh_prefix gdb_id seen dbs)))"
        using Inr by (auto simp: list_clusters_from.simps [of f api k] scan_page_prefix)
      moreover have "db_walk api k page seen ps \<longleftrightarrow> ps = [dbs]" for ps
        using Inr False by (auto simp: db_walk_iff [of api k])
      ultimately show ?thesis by auto
    next
      case True
      let ?seen = "seen \<union> gdb_id ` set dbs" and ?page = "wrap64 (page + 1)"
      have "list_clusters_from f api k page seen out =
          list_clusters_from f api (Suc k) ?page ?seen
            (out @ map new_db_cluster (filter (db_keep f) dbs))"
        using Inr True by (simp add: list_clusters_from.simps [of f api k] scan_page_prefix)
      moreover have "db_walk api k page seen ps \<longleftrightarrow>
          (\<exists>qs. ps = dbs # qs \<and> db_walk api (Suc k) ?page ?seen qs)" for ps
        using Inr True by (auto simp: db_walk_iff [of api k])
      moreover have "ctx_live (db_ctx api) - Suc k < ctx_live (db_ctx api) - k"
        using under_ctx_Inr [OF Inr] by simp
      ultimately show ?thesis
        using less.hyps [of "Suc k" ?page ?seen] True
        by (auto simp: fresh_prefix_append)
    qed
  qed
qed

lemma list_clusters_ids: "list_clusters f api = Inr r \<Longrightarrow> distinct (map db_id r)"
proof -
  assume "list_clusters f api = Inr r"
  then obtain ps where r: "r = map new_db_cluster (filter (db_keep f) (fresh_prefix gdb_id {} (concat ps)))"
    unfolding list_clusters_def list_clusters_walk by auto
  have "map db_id r = map gdb_id (filter (db_keep f) (fresh_prefix gdb_id {} (concat ps)))"
    by (simp add: r new_db_cluster_def comp_def)
  moreover have "distinct (map gdb_id (fresh_prefix gdb_id {} (concat ps)))"
    using fresh_prefix_distinct by blast
  ultimately show ?thesis by (simp only: distinct_map_filter)
qed

section \<open>The contract\<close>

interpretation details:
  remembering db_id db_details no_details lookup_details db_done "refresh_details True"
  by unfold_locales (auto simp: refresh_details_def)

definition databases_ok :: "db_cluster list \<Rightarrow> bool" where
  "databases_ok snap \<longleftrightarrow> distinct (map db_id snap)"

lemma refresh_details_id: "refresh_details ask api previous cl = Inr cl' \<Longrightarrow> db_id cl' = db_id cl"
  by (auto simp: refresh_details_def split: if_splits sum.splits)

lemma databases_refresh_ok: "databases_ok s \<Longrightarrow> databases_ok (fst (databases_refresh ask f env s))"
  unfolding databases_refresh_def
proof (rule replace_snapshot_ok, assumption)
  fix xs
  assume "and_then (list_clusters f env)
      (map_res (refresh_details ask env (previous_details s))) = Inr xs"
  then obtain listed where "list_clusters f env = Inr listed"
    and "map_res (refresh_details ask env (previous_details s)) listed = Inr xs"
    by (auto simp: and_then_Inr)
  with map_res_ids [OF this(2) refresh_details_id] list_clusters_ids [OF this(1)]
  show "databases_ok xs" by (simp add: databases_ok_def)
qed

lemma collect_replica_described: "well_described db_descriptors (collect_replica db r)"
  by (simp add: collect_replica_def db_descriptors_def status_series_described db_desc_defs)

lemma collect_details_described: "well_described db_descriptors (collect_details db)"
proof -
  have "well_described db_descriptors (concat (map (collect_replica db) rs))" for rs
    by (rule well_described_concat_map) (rule collect_replica_described)
  then show ?thesis
    by (simp add: collect_details_def Let_def) (simp add: db_descriptors_def db_desc_defs)
qed

lemma db_metrics_described: "well_described db_descriptors (db_metrics db)"
  by (simp add: db_metrics_def Let_def collect_details_described)
    (simp add: db_descriptors_def db_desc_defs)

interpretation databases:
  collector "databases_refresh ask f" databases_collect db_descriptors "[]" databases_ok for ask f
  by unfold_locales
    (simp_all add: databases_ok_def [of "[]"] databases_collect_def well_described_concat_map
      db_metrics_described databases_refresh_ok)

interpretation databases_atomic:
  atomic_collector "databases_refresh ask f" databases_collect db_descriptors "[]" databases_ok for ask f
  by unfold_locales (simp add: databases_refresh_def replace_snapshot_failure)

section \<open>Series\<close>

text \<open>
  The replicas of a cluster are told apart by name and region, while their listing only keeps
  ids apart: this is the one thing that can repeat a series.
\<close>

definition replicas_apart :: "db_cluster \<Rightarrow> bool" where
  "replicas_apart db \<longleftrightarrow>
     distinct (map (\<lambda>r. [rp_name r, rp_region r]) (dt_replicas (db_details db)))"

lemma collect_replica_labels:
  "m \<in> set (collect_replica db r) \<Longrightarrow> m_labels m ! 0 = db_id db \<and> take 2 (drop 2 (m_labels m)) = [rp_name r, rp_region r]"
  by (auto simp: collect_replica_def dest!: status_series_labels)

lemma collect_replica_name:
  "m \<in> set (collect_replica db r) \<Longrightarrow> metric_name m = fq_name db_replica_status_desc"
  by (auto simp: collect_replica_def metric_name_def dest: status_series_name)

lemma replicas_distinct:
  assumes "replicas_apart db"
  shows "no_duplicates (concat (map (collect_replica db) (dt_replicas (db_details db))))"
proof (rule no_duplicates_blocks [where owner = "\<lambda>m. take 2 (drop 2 (m_labels m))"])
  show "distinct (map (\<lambda>r. [rp_name r, rp_region r]) (dt_replicas (db_details db)))"
    using assms by (simp add: replicas_apart_def)
  show "distinct (map series_of (collect_replica db r))" for r
    unfolding collect_replica_def
    by (rule status_series_distinct) (simp add: known_replica_statuses_def online_status_def)
qed (auto simp: series_of_def dest: collect_replica_labels)

lemma db_metrics_distinct:
  assumes "replicas_apart db"
  shows "no_duplicates (db_metrics db)"
proof -
  let ?short = "[db_id db, db_name db, db_region db]"
  have "no_duplicates ([gauge db_replicas_desc v ?short] @
      concat (map (collect_replica db) (dt_replicas (db_details db))) @
      (if b then [gauge db_backup_desc w ?short] else []))" for b v w
    using replicas_distinct [OF assms]
    by (intro no_duplicates_parts)
      (auto simp: no_duplicates_def db_desc_defs dest!: collect_replica_name)
  then have "no_duplicates (collect_details db)"
    by (simp only: collect_details_def Let_def) (simp add: no_duplicates_def)
  then show ?thesis
    unfolding db_metrics_def Let_def
    by (intro no_duplicates_parts)
      (auto simp: no_duplicates_def collect_details_def Let_def db_desc_defs
        dest!: collect_replica_name split: if_splits)
qed

lemma db_metrics_owner: "m \<in> set (db_metrics db) \<Longrightarrow> m_labels m ! 0 = db_id db"
  by (auto simp: db_metrics_def collect_details_def Let_def dest: collect_replica_labels split: if_splits)

lemma databases_unique:
  "databases_ok snap \<Longrightarrow> list_all replicas_apart snap \<Longrightarrow> no_duplicates (databases_collect snap)"
  unfolding databases_collect_def databases_ok_def
  by (subst no_duplicates_by_label_iff [where k = 0 and key = db_id])
    (auto simp: list_all_iff db_metrics_distinct db_metrics_owner)

section \<open>Properties\<close>

text \<open>
  C15. The page loop of the databases collector lists exactly the clusters that pass the filter, in
  order, up to the first cluster of the pages it reads whose id has already occurred, and it reads
  on after a page exactly as long as the page is full and repeats nothing.
\<close>

theorem databases_listing:
  "list_clusters f api = Inr r \<longleftrightarrow>
     (\<exists>ps. db_walk api 0 1 {} ps \<and>
        r = map new_db_cluster (filter (db_keep f) (fresh_prefix gdb_id {} (concat ps))))"
  by (simp add: list_clusters_def list_clusters_walk)

text \<open>
  An endpoint that ignores the page it is asked for, as this one may, does not trap the loop:
  a list served again and again is listed once, as if it had been the only page.
\<close>

lemma databases_unpaged:
  assumes "\<And>k page. db_list api k page = Inr dbs" and "distinct (map gdb_id dbs)"
    and "2 \<le> ctx_live (db_ctx api)"
  shows "list_clusters f api = Inr (map new_db_cluster (filter (db_keep f) dbs))"
proof -
  have alive: "under_ctx (db_ctx api) k (db_list api k page) = Inr dbs" if "k < 2" for k page
    using that assms(1,3) by (simp add: under_ctx_def ctx_err_def)
  have prefix: "fresh_prefix gdb_id {} dbs = dbs"
    using assms(2) by (simp add: fresh_prefix_all)
  have "\<exists>ps. db_walk api 0 1 {} ps \<and> fresh_prefix gdb_id {} (concat ps) = dbs"
  proof (cases "length dbs < databases_per_page")
    case True
    then have "db_walk api 0 1 {} [dbs]" by (intro db_last alive) simp_all
    then show ?thesis using prefix by (intro exI [of _ "[dbs]"]) simp
  next
    case False
    then have "dbs \<noteq> []" by (auto simp: databases_per_page_def)
    then have again: "fresh_prefix gdb_id (gdb_id ` set dbs) dbs = []" by (cases dbs) simp_all
    have "db_walk api 1 2 (gdb_id ` set dbs) [dbs]"
      using again \<open>dbs \<noteq> []\<close> by (intro db_last alive) simp_all
    then have "db_walk api 0 1 {} [dbs, dbs]"
      using alive [of 0 1] prefix False by - (rule db_on, simp_all add: wrap64_id in_int64_def)
    moreover have "fresh_prefix gdb_id {} (dbs @ dbs) = dbs"
      using fresh_prefix_append [OF prefix, of dbs] again by simp
    ultimately show ?thesis by (intro exI [of _ "[dbs, dbs]"]) simp
  qed
  then show ?thesis by (auto simp: list_clusters_def list_clusters_walk)
qed

text \<open>
  C39. The same rule loses clusters on an account with more than one page: where the list shifts
  between two requests so that the second page starts with a cluster of the first, the rest of the
  second page is dropped, whatever it holds, and the refresh reports nothing of it.
\<close>

theorem databases_shift:
  assumes "db_list api 0 1 = Inr p1" and "distinct (map gdb_id p1)"
    and "databases_per_page \<le> length p1" and "db_list api 1 2 = Inr (x # rest)"
    and "gdb_id x \<in> gdb_id ` set p1" and "2 \<le> ctx_live (db_ctx api)"
  shows "list_clusters f api = Inr (map new_db_cluster (filter (db_keep f) p1))"
proof -
  have prefix: "fresh_prefix gdb_id {} p1 = p1"
    using assms(2) by (simp add: fresh_prefix_all)
  have stop: "fresh_prefix gdb_id (gdb_id ` set p1) (x # rest) = []" using assms(5) by simp
  have "db_walk api 1 2 (gdb_id ` set p1) [x # rest]"
    using assms(4,6) stop by (intro db_last) (simp_all add: under_ctx_def ctx_err_def)
  then have "db_walk api 0 1 {} [p1, x # rest]"
    using assms(1,3,6) prefix
    by - (rule db_on, simp_all add: under_ctx_def ctx_err_def wrap64_id in_int64_def)
  moreover have "fresh_prefix gdb_id {} (p1 @ x # rest) = p1"
    using fresh_prefix_append [OF prefix, of "x # rest"] stop by simp
  ultimately show ?thesis
    unfolding list_clusters_def list_clusters_walk by (intro exI [of _ "[p1, x # rest]"]) simp
qed

definition demo_database :: "string \<Rightarrow> godo_database" where
  "demo_database i =
     \<lparr>gdb_id = i, gdb_name = ''pg'', gdb_engine_slug = ''pg'', gdb_version_slug = ''16'',
      gdb_num_nodes = 1, gdb_size_slug = ''db-s-1vcpu-1gb'', gdb_region_slug = ''fra1'',
      gdb_status = ''Online'', gdb_tags = [], gdb_project_id = '''', gdb_private_network_uuid = '''',
      gdb_storage_size_mib = 10240, gdb_users = 1, gdb_db_names = [''defaultdb''],
      gdb_maintenance_pending = None, gdb_storage_autoscale = None\<rparr>"

definition demo_databases :: "(nat \<Rightarrow> int \<Rightarrow> godo_database list res) \<Rightarrow> godo_replica list_func \<Rightarrow> db_api" where
  "demo_databases list replicas =
     (let c = \<lparr>ctx_live = 9, ctx_cause = Sentinel DeadlineExceeded\<rparr>
      in \<lparr>db_ctx = c, db_list = list, db_replicas_ctx = (\<lambda>i. c), db_replicas = (\<lambda>i. replicas),
          db_backups_ctx = (\<lambda>i. c),
          db_backups = (\<lambda>i k page. Inl (ApiError (Some 412))), db_done = (\<lambda>i. False)\<rparr>)"

lemma demo_databases_simps [simp]:
  "db_list (demo_databases l r) = l" "db_replicas (demo_databases l r) i = r"
  "ctx_live (db_ctx (demo_databases l r)) = 9" "\<not> db_done (demo_databases l r) i"
  by (simp_all add: demo_databases_def Let_def)

text \<open>A full page of clusters with different ids.\<close>

definition full_page :: "godo_database list" where
  "full_page = map (\<lambda>n. demo_database (replicate n (CHR ''d''))) [0..<200]"

lemma full_page_ids: "distinct (map gdb_id full_page)" "length full_page = 200"
  "demo_database [] \<in> set full_page"
  by (auto simp: full_page_def demo_database_def distinct_map inj_on_def replicate_eq_replicate
      image_iff intro!: bexI [of _ 0])

lemma databases_unpaged_witness:
  "list_clusters zero_filter (demo_databases (\<lambda>k page. Inr full_page) (\<lambda>k page. Inr ([], NoLinks))) =
     Inr (map new_db_cluster (filter (db_keep zero_filter) full_page))"
  by (rule databases_unpaged) (simp_all add: full_page_ids)

lemma databases_shift_witness:
  "list_clusters zero_filter (demo_databases
      (\<lambda>k page. if page = 1 then Inr full_page else Inr [demo_database [], demo_database ''new''])
      (\<lambda>k page. Inr ([], NoLinks))) =
     Inr (map new_db_cluster (filter (db_keep zero_filter) full_page))"
  by (rule databases_shift [where x = "demo_database []" and rest = "[demo_database ''new'']"])
    (use full_page_ids in \<open>auto simp: databases_per_page_def\<close>)

text \<open>
  C33. One cluster's failed lookup costs nothing but its freshness: after any refreshes and one more
  that succeeds with details switched on, a cluster whose replicas and backups could both be read
  reports them, and one that was in the snapshot and whose lookup failed reports what it did
  before, the context being still alive at the failure.
\<close>

theorem databases_details_kept:
  assumes "snap = refreshes (databases_refresh True f) envs []"
    and "databases_refresh True f api snap = (fresh, None)"
    and "cl \<in> set fresh" and "old \<in> set snap" and "db_id old = db_id cl"
  shows "case lookup_details api (db_id cl) of
      Inr d \<Rightarrow> db_details cl = d
    | Inl e \<Rightarrow> db_details cl = db_details old \<and> \<not> db_done api (db_id cl)"
proof -
  have dist: "distinct (map db_id snap)"
    using databases.refreshes_ok [OF databases.start_ok] assms(1) by (simp add: databases_ok_def)
  obtain listed where r: "map_res (refresh_details True api (previous_by db_id db_details snap)) listed = Inr fresh"
    using replace_snapshot_None [OF assms(2) [unfolded databases_refresh_def]]
    by (auto simp: and_then_Inr previous_details_def)
  show ?thesis
    using details.renew_list(2,3) [OF r assms(3)] details.renewed_from [OF dist assms(4,5), of api]
    by (auto split: sum.splits)
qed

text \<open>One cluster with one replica, listed twice; the second time its replicas cannot be read.\<close>

definition demo_replicas :: "bool \<Rightarrow> godo_replica list_func" where
  "demo_replicas broken k page =
     (if broken then Inl (ApiError (Some 500))
      else Inr ([\<lparr>grp_id = ''r'', grp_name = ''pg-replica'', grp_region = ''nyc1'',
                 grp_status = ''online''\<rparr>], LastPage))"

definition demo_db :: "bool \<Rightarrow> db_api" where
  "demo_db broken = demo_databases (\<lambda>k page. Inr [demo_database ''a'']) (demo_replicas broken)"

lemma demo_db_list: "list_clusters zero_filter (demo_db broken) = Inr [new_db_cluster (demo_database ''a'')]"
  by (simp add: list_clusters_def list_clusters_from.simps demo_db_def under_ctx_def ctx_err_def
      databases_per_page_def match_def match_tags_def match_region_def zero_filter_def)

lemma demo_db_failed: "lookup_details (demo_db True) i = Inl (Wrap ''list database replicas'' [ApiError (Some 500)])"
proof -
  have "fst (paging_all (db_replicas_ctx (demo_db True) i) ''database replicas'' grp_id
      (db_replicas (demo_db True) i)) = Inl (Wrap (''list '' @ ''database replicas'') [ApiError (Some 500)])"
    unfolding paging_all_def
    by (subst all_loop_failed)
      (simp_all add: demo_db_def demo_replicas_def, simp add: demo_databases_def Let_def ctx_err_def)
  then show ?thesis
    by (simp add: lookup_details_def list_replicas_def engine_does_not_offer_def)
qed

lemma demo_db_found: "\<exists>d. lookup_details (demo_db False) i = Inr d \<and> dt_known d \<and> map rp_name (dt_replicas d) = [''pg-replica'']"
proof -
  have "demo_replicas False = (\<lambda>k page. Inr ([\<lparr>grp_id = ''r'', grp_name = ''pg-replica'',
      grp_region = ''nyc1'', grp_status = ''online''\<rparr>], LastPage))"
    by (intro ext) (simp add: demo_replicas_def)
  then have "\<exists>r. list_replicas (demo_db False) i = Inr [r] \<and> rp_name r = ''pg-replica''"
    unfolding list_replicas_def demo_db_def
    by (simp add: paging_single_page demo_databases_def Let_def)
  moreover have "fst (paging_all (db_backups_ctx (demo_db False) i) ''database backups''
      gbk_created_string (db_backups (demo_db False) i)) =
      Inl (Wrap (''list '' @ ''database backups'') [ApiError (Some 412)])"
    unfolding paging_all_def
    by (subst all_loop_failed) (simp_all add: demo_db_def demo_databases_def Let_def ctx_err_def)
  then have "list_backups (demo_db False) i = Inr []"
    by (simp add: list_backups_def engine_does_not_offer_def)
  ultimately show ?thesis by (auto simp: lookup_details_def)
qed

lemma databases_details_kept_witness:
  "\<exists>old cl. refreshes (databases_refresh True zero_filter) [demo_db False] [] = [old] \<and>
     databases_refresh True zero_filter (demo_db True) [old] = ([cl], None) \<and>
     db_details cl = db_details old \<and> map rp_name (dt_replicas (db_details cl)) = [''pg-replica'']"
proof -
  let ?c = "new_db_cluster (demo_database ''a'')"
  obtain d where d: "lookup_details (demo_db False) (db_id ?c) = Inr d"
    "map rp_name (dt_replicas d) = [''pg-replica'']"
    using demo_db_found [of "db_id ?c"] by (elim exE conjE)
  define old where "old = ?c\<lparr>db_details := d\<rparr>"
  have first: "refreshes (databases_refresh True zero_filter) [demo_db False] [] = [old]"
    using d by (simp add: databases_refresh_def demo_db_list refresh_details_def
        replace_snapshot_simps old_def)
  define cl where "cl = ?c\<lparr>db_details := (case previous_details [old] (db_id ?c) of
      None \<Rightarrow> no_details | Some d \<Rightarrow> d)\<rparr>"
  have i: "db_id cl = db_id old" by (simp add: cl_def old_def)
  have "\<not> db_done (demo_db True) (db_id ?c)" by (simp add: demo_db_def)
  then have second: "databases_refresh True zero_filter (demo_db True) [old] = ([cl], None)"
    by (simp add: databases_refresh_def demo_db_list refresh_details_def demo_db_failed
        replace_snapshot_simps cl_def)
  have "db_details cl = db_details old"
    using databases_details_kept [OF first [symmetric] second, of cl old] i
    by (simp add: demo_db_failed)
  with first second d show ?thesis
    by (intro exI [of _ old] exI [of _ cl]) (simp add: old_def)
qed

end
