(* ===== verification/Registry.thy ===== *)
theory Registry
  imports Collector "HOL-Library.AList" "HOL-Library.Word"
begin

text \<open>
  internal/collector/registry: the container registries of the account, through the endpoint for
  several or the one for a single registry, the subscription they share, and the repositories of
  each, which are read page by page with a token and kept from the previous snapshot where they
  cannot be. The environment answers every request. The map of registries is an association list
  with distinct keys, whose order stands for the order a map happens to be iterated in. The lists
  hold no nil pointer; an instant is its Unix time, \<open>None\<close> where it is the zero time.
\<close>

section \<open>Data\<close>

record godo_manifest =
  gmf_compressed_size :: "64 word"
  gmf_updated_at :: "int option"

record godo_repository =
  gry_name :: string
  gry_tag_count :: "64 word"
  gry_manifest_count :: "64 word"
  gry_latest_manifest :: "godo_manifest option"

record godo_registry =
  grg_name :: string
  grg_region :: string
  grg_storage_usage :: "64 word"
  grg_storage_updated_at :: "int option"

record godo_tier =
  gti_slug :: string
  gti_name :: string
  gti_included_storage :: "64 word"
  gti_included_bandwidth :: "64 word"
  gti_monthly_price_in_cents :: "64 word"

record repository =
  ry_name :: string
  ry_tags :: float64
  ry_manifests :: float64
  ry_manifest :: bool
  ry_manifest_size :: float64
  ry_pushed :: bool
  ry_pushed_at :: float64

record registry_stats =
  rt_name :: string
  rt_region :: string
  rt_storage_usage :: float64
  rt_measured :: bool
  rt_measured_at :: float64
  rt_repositories :: "repository list"
  rt_known :: bool
  rt_up :: bool

record registry_snapshot =
  rs_registries :: "(string \<times> registry_stats) list"
  rs_tier :: bool
  rs_tier_slug :: string
  rs_tier_name :: string
  rs_storage_included :: float64
  rs_bandwidth_included :: float64
  rs_monthly_price :: float64

definition empty_snapshot :: registry_snapshot where
  "empty_snapshot =
     \<lparr>rs_registries = [], rs_tier = False, rs_tier_slug = '''', rs_tier_name = '''',
      rs_storage_included = Fin 0, rs_bandwidth_included = Fin 0, rs_monthly_price = Fin 0\<rparr>"

definition cents_per_dollar :: nat where "cents_per_dollar = 100"

section \<open>Descriptors\<close>

definition registry_labels :: "string list" where "registry_labels = [''registry'', ''region'']"
definition repository_labels :: "string list" where
  "repository_labels = [''registry'', ''repository'']"

definition registry_storage_usage_desc :: desc where
  "registry_storage_usage_desc = Desc ''digitalocean_registry_storage_usage_bytes'' registry_labels"
definition registry_storage_updated_desc :: desc where
  "registry_storage_updated_desc =
     Desc ''digitalocean_registry_storage_usage_updated_timestamp_seconds'' registry_labels"
definition registry_storage_included_desc :: desc where
  "registry_storage_included_desc =
     Desc ''digitalocean_registry_storage_included_bytes'' registry_labels"
definition registry_bandwidth_included_desc :: desc where
  "registry_bandwidth_included_desc =
     Desc ''digitalocean_registry_bandwidth_included_bytes'' registry_labels"
definition registry_price_desc :: desc where
  "registry_price_desc =
     Desc ''digitalocean_registry_subscription_monthly_price_usd'' [''registry'', ''tier'']"
definition registry_info_desc :: desc where
  "registry_info_desc = Desc ''digitalocean_registry_info''
     [''registry'', ''region'', ''tier'', ''tier_name'']"
definition registry_up_desc :: desc where
  "registry_up_desc = Desc ''digitalocean_registry_up'' registry_labels"
definition registry_repositories_desc :: desc where
  "registry_repositories_desc = Desc ''digitalocean_registry_repositories'' [''registry'']"
definition repository_tags_desc :: desc where
  "repository_tags_desc = Desc ''digitalocean_registry_repository_tags'' repository_labels"
definition repository_manifests_desc :: desc where
  "repository_manifests_desc =
     Desc ''digitalocean_registry_repository_manifests'' repository_labels"
definition repository_manifest_size_desc :: desc where
  "repository_manifest_size_desc =
     Desc ''digitalocean_registry_repository_latest_manifest_size_bytes'' repository_labels"
definition repository_last_push_desc :: desc where
  "repository_last_push_desc =
     Desc ''digitalocean_registry_repository_last_push_timestamp_seconds'' repository_labels"

definition registry_descriptors :: "desc list" where
  "registry_descriptors =
     [registry_storage_usage_desc, registry_storage_updated_desc, registry_storage_included_desc,
      registry_bandwidth_included_desc, registry_price_desc, registry_info_desc, registry_up_desc,
      registry_repositories_desc, repository_tags_desc, repository_manifests_desc,
      repository_manifest_size_desc, repository_last_push_desc]"

lemmas registry_desc_defs = registry_storage_usage_desc_def registry_storage_updated_desc_def
  registry_storage_included_desc_def registry_bandwidth_included_desc_def registry_price_desc_def
  registry_info_desc_def registry_up_desc_def registry_repositories_desc_def
  repository_tags_desc_def repository_manifests_desc_def repository_manifest_size_desc_def
  repository_last_push_desc_def registry_labels_def repository_labels_def

section \<open>Requests\<close>

text \<open>
  What a page of repositories says of the next one through \<open>IsLastPage\<close> and \<open>NextPageToken\<close>. The
  booleans tell the endpoints of several registries (true) from those of a single one.
\<close>

datatype token_links = NoTokenLinks | LastTokenPage | NextToken "string res"

record registry_api =
  ra_list :: "godo_registry list res"
  ra_get :: "godo_registry option res"
  ra_subscription :: "bool \<Rightarrow> godo_tier option option res"
  ra_repos_ctx :: "string \<Rightarrow> ctx"
  ra_repos :: "bool \<Rightarrow> string \<Rightarrow> nat \<Rightarrow> string \<Rightarrow> (godo_repository list \<times> token_links) res"

definition is_not_found :: "goerr \<Rightarrow> bool" where
  "is_not_found err = (case errors_as_api err of Some (Some status) \<Rightarrow> status = 404 | _ \<Rightarrow> False)"

definition list_registries :: "registry_api \<Rightarrow> (godo_registry list \<times> bool) res" where
  "list_registries api =
     (case ra_list api of
        Inr (reg # regs) \<Rightarrow> Inr (reg # regs, True)
      | answer \<Rightarrow>
          (case ra_get api of
             Inr (Some reg) \<Rightarrow> Inr ([reg], False)
           | Inr None \<Rightarrow> Inr ([], False)
           | Inl single_err \<Rightarrow>
               if is_not_found single_err then Inr ([], False)
               else (case answer of
                       Inl err \<Rightarrow> Inl (Wrap ''get registry'' [single_err, err])
                     | Inr regs \<Rightarrow> Inl (Wrap ''get registry'' [single_err]))))"

definition subscription :: "registry_api \<Rightarrow> bool \<Rightarrow> godo_tier option option res" where
  "subscription api multi =
     (case ra_subscription api multi of
        Inl err \<Rightarrow> Inl (Wrap ''get registry subscription'' [err]) | Inr sub \<Rightarrow> Inr sub)"

definition new_repository :: "godo_repository \<Rightarrow> repository" where
  "new_repository repo =
     (let out = \<lparr>ry_name = gry_name repo, ry_tags = of_int64 (uint (gry_tag_count repo)),
                 ry_manifests = of_int64 (uint (gry_manifest_count repo)), ry_manifest = False,
                 ry_manifest_size = Fin 0, ry_pushed = False, ry_pushed_at = Fin 0\<rparr>
      in case gry_latest_manifest repo of
           None \<Rightarrow> out
         | Some m \<Rightarrow>
             (let out' = out\<lparr>ry_manifest := True,
                             ry_manifest_size := of_int64 (uint (gmf_compressed_size m))\<rparr>
              in case gmf_updated_at m of
                   None \<Rightarrow> out'
                 | Some unix \<Rightarrow> out'\<lparr>ry_pushed := True, ry_pushed_at := of_int64 unix\<rparr>))"

function repositories_from ::
  "registry_api \<Rightarrow> bool \<Rightarrow> string \<Rightarrow> nat \<Rightarrow> string \<Rightarrow> repository list \<Rightarrow> repository list res" where
  "repositories_from api multi name k token out =
     (case under_ctx (ra_repos_ctx api name) k (ra_repos api multi name k token) of
        Inl err \<Rightarrow> Inl (Wrap ''list repositories'' [err])
      | Inr (page, lnk) \<Rightarrow>
          let out' = out @ map new_repository page
          in (case lnk of
                NoTokenLinks \<Rightarrow> Inr out'
              | LastTokenPage \<Rightarrow> Inr out'
              | NextToken (Inl err) \<Rightarrow> Inl (Wrap ''next page of repositories'' [err])
              | NextToken (Inr token') \<Rightarrow>
                  if token' = '''' then Inr out'
                  else repositories_from api multi name (Suc k) token' out'))"
  by pat_completeness auto
termination
  by (relation "measure (\<lambda>(api, multi, name, k, token, out). ctx_live (ra_repos_ctx api name) - k)")
    (auto dest: under_ctx_Inr)

declare repositories_from.simps [simp del]

definition repositories :: "registry_api \<Rightarrow> bool \<Rightarrow> string \<Rightarrow> repository list res" where
  "repositories api multi name = repositories_from api multi name 0 '''' []"

section \<open>Refresh\<close>

type_synonym registry_result = "godo_registry \<times> repository list res"

definition read_all :: "registry_api \<Rightarrow> bool \<Rightarrow> godo_registry list \<Rightarrow> registry_result list" where
  "read_all api multi regs = map (\<lambda>reg. (reg, repositories api multi (grg_name reg))) regs"

definition apply_subscription :: "godo_tier option option \<Rightarrow> registry_snapshot \<Rightarrow> registry_snapshot" where
  "apply_subscription sub s =
     (case sub of
        None \<Rightarrow> s
      | Some None \<Rightarrow> s
      | Some (Some tier) \<Rightarrow>
          s\<lparr>rs_tier := True, rs_tier_slug := gti_slug tier, rs_tier_name := gti_name tier,
            rs_storage_included := of_int64 (uint (gti_included_storage tier)),
            rs_bandwidth_included := of_int64 (uint (gti_included_bandwidth tier)),
            rs_monthly_price :=
              flt_div (of_int64 (uint (gti_monthly_price_in_cents tier))) cents_per_dollar\<rparr>)"

definition previous_registry :: "registry_snapshot option \<Rightarrow> string \<Rightarrow> registry_stats option" where
  "previous_registry snap name =
     (case snap of None \<Rightarrow> None | Some s \<Rightarrow> map_of (rs_registries s) name)"

definition swap_stats :: "registry_snapshot option \<Rightarrow> registry_result \<Rightarrow> registry_stats" where
  "swap_stats snap r =
     (let reg = fst r;
          stats = \<lparr>rt_name = grg_name reg, rt_region = grg_region reg,
                   rt_storage_usage = of_int64 (uint (grg_storage_usage reg)),
                   rt_measured = (grg_storage_updated_at reg \<noteq> None),
                   rt_measured_at = (case grg_storage_updated_at reg of
                                       None \<Rightarrow> Fin 0 | Some unix \<Rightarrow> of_int64 unix),
                   rt_repositories = [], rt_known = False, rt_up = False\<rparr>
      in case snd r of
           Inr repos \<Rightarrow> stats\<lparr>rt_repositories := repos, rt_known := True, rt_up := True\<rparr>
         | Inl err \<Rightarrow>
             (case previous_registry snap (grg_name reg) of
                Some old \<Rightarrow> stats\<lparr>rt_repositories := rt_repositories old, rt_known := rt_known old\<rparr>
              | None \<Rightarrow> stats))"

definition swap_registries ::
  "registry_snapshot \<Rightarrow> registry_result list \<Rightarrow> registry_snapshot option \<Rightarrow> registry_snapshot option" where
  "swap_registries fresh results snap =
     Some (fresh\<lparr>rs_registries :=
       foldl (\<lambda>m r. AList.update (rt_name (swap_stats snap r)) (swap_stats snap r) m) [] results\<rparr>)"

definition report_failures :: "registry_result list \<Rightarrow> goerr option" where
  "report_failures results =
     (let errs = filter (\<lambda>r. isl_err (snd r)) results
      in if 0 < length errs \<and> length errs = length results
         then Some (Wrap ''no registry's repositories''
                (Sentinel ErrNoRepositoriesListed #
                 (case snd (last results) of Inl err \<Rightarrow> [err] | Inr repos \<Rightarrow> [])))
         else None)"

definition registry_refresh ::
  "registry_api \<Rightarrow> registry_snapshot option \<Rightarrow> registry_snapshot option \<times> goerr option" where
  "registry_refresh api snap =
     (case list_registries api of
        Inl err \<Rightarrow> (snap, Some err)
      | Inr (regs, multi) \<Rightarrow>
          if regs = [] then (Some empty_snapshot, None)
          else (case subscription api multi of
                  Inl err \<Rightarrow> (snap, Some err)
                | Inr sub \<Rightarrow>
                    let results = read_all api multi regs
                    in (swap_registries (apply_subscription sub empty_snapshot) results snap,
                        report_failures results)))"

section \<open>Collect\<close>

definition collect_registry :: "registry_snapshot \<Rightarrow> registry_stats \<Rightarrow> metric list" where
  "collect_registry s reg =
     (let labels = [rt_name reg, rt_region reg] in
      [gauge registry_storage_usage_desc (rt_storage_usage reg) labels] @
      (if rt_measured reg then [gauge registry_storage_updated_desc (rt_measured_at reg) labels]
       else []) @
      [gauge registry_up_desc (bool_to_float (rt_up reg)) labels] @
      (if rt_known reg
       then [gauge registry_repositories_desc (len_float (rt_repositories reg)) [rt_name reg]]
       else []) @
      (if \<not> rs_tier s then []
       else [gauge registry_storage_included_desc (rs_storage_included s) labels,
             gauge registry_bandwidth_included_desc (rs_bandwidth_included s) labels,
             gauge registry_price_desc (rs_monthly_price s) [rt_name reg, rs_tier_slug s],
             gauge registry_info_desc (Fin 1)
               [rt_name reg, rt_region reg, rs_tier_slug s, rs_tier_name s]]))"

definition repository_metrics :: "registry_stats \<Rightarrow> repository \<Rightarrow> metric list" where
  "repository_metrics reg repo =
     (let labels = [rt_name reg, ry_name repo] in
      [gauge repository_tags_desc (ry_tags repo) labels,
       gauge repository_manifests_desc (ry_manifests repo) labels] @
      (if ry_manifest repo
       then [gauge repository_manifest_size_desc (ry_manifest_size repo) labels] else []) @
      (if ry_pushed repo
       then [gauge repository_last_push_desc (ry_pushed_at repo) labels] else []))"

definition collect_repositories :: "registry_stats \<Rightarrow> metric list" where
  "collect_repositories reg = concat (map (repository_metrics reg) (rt_repositories reg))"

definition registry_collect :: "registry_snapshot option \<Rightarrow> metric list" where
  "registry_collect snap =
     (case snap of
        None \<Rightarrow> []
      | Some s \<Rightarrow>
          concat (map (\<lambda>(name, reg). collect_registry s reg @ collect_repositories reg)
            (rs_registries s)))"

section \<open>The contract\<close>

definition registry_ok :: "registry_snapshot option \<Rightarrow> bool" where
  "registry_ok snap =
     (case snap of
        None \<Rightarrow> True
      | Some s \<Rightarrow> distinct (map fst (rs_registries s)) \<and>
          (\<forall>(name, reg) \<in> set (rs_registries s). rt_name reg = name))"

definition stats_map :: "registry_snapshot option \<Rightarrow> registry_result list \<Rightarrow> (string \<times> registry_stats) list" where
  "stats_map snap results =
     foldl (\<lambda>m r. AList.update (rt_name (swap_stats snap r)) (swap_stats snap r) m) [] results"

lemma stats_map_snoc [simp]:
  "stats_map snap [] = []"
  "stats_map snap (rs @ [r]) =
     AList.update (rt_name (swap_stats snap r)) (swap_stats snap r) (stats_map snap rs)"
  by (simp_all add: stats_map_def)

lemma swap_stats_name [simp]: "rt_name (swap_stats snap r) = grg_name (fst r)"
  by (simp add: swap_stats_def Let_def split: sum.split option.split)

lemma update_values: "(\<forall>(i, x) \<in> set m. P i x) \<Longrightarrow> P k v \<Longrightarrow> (\<forall>(i, x) \<in> set (AList.update k v m). P i x)"
  by (induction m) auto

lemma stats_map_ok:
  "distinct (map fst (stats_map snap results)) \<and>
   (\<forall>(name, reg) \<in> set (stats_map snap results). rt_name reg = name)"
proof (induction results rule: rev_induct)
  case (snoc r rs)
  then show ?case
    using update_values [of "stats_map snap rs" "\<lambda>name reg. rt_name reg = name"
        "grg_name (fst r)" "swap_stats snap r"]
    by (simp add: distinct_update)
qed simp

lemma swap_registries_map:
  "swap_registries fresh results snap = Some (fresh\<lparr>rs_registries := stats_map snap results\<rparr>)"
  by (simp add: swap_registries_def stats_map_def)

lemma registry_refresh_ok: "registry_ok s \<Longrightarrow> registry_ok (fst (registry_refresh env s))"
  using stats_map_ok
  by (auto simp: registry_refresh_def Let_def swap_registries_map registry_ok_def empty_snapshot_def
      split: sum.splits prod.splits)

lemma collect_registry_described: "well_described registry_descriptors (collect_registry s reg)"
  by (simp add: collect_registry_def Let_def registry_descriptors_def) (simp add: registry_desc_defs)

lemma repository_metrics_described: "well_described registry_descriptors (repository_metrics reg repo)"
  by (simp add: repository_metrics_def Let_def registry_descriptors_def) (simp add: registry_desc_defs)

interpretation registry: collector registry_refresh registry_collect registry_descriptors None registry_ok
proof
  show "registry_ok None" "registry_collect None = []" by (simp_all add: registry_ok_def registry_collect_def)
  show "well_described registry_descriptors (registry_collect s)" for s
    by (auto simp: registry_collect_def collect_repositories_def collect_registry_described
        repository_metrics_described intro!: well_described_concat_map)
qed (rule registry_refresh_ok)

section \<open>Series\<close>

lemma collect_registry_distinct: "distinct (map series_of (collect_registry s reg))"
  unfolding collect_registry_def Let_def
  by (rule names_distinct, (rule names_within_rules)+) (simp add: registry_desc_defs)

lemma repository_metrics_distinct: "distinct (map series_of (repository_metrics reg repo))"
  unfolding repository_metrics_def Let_def
  by (rule names_distinct, (rule names_within_rules)+) (simp add: registry_desc_defs)

lemma repository_metrics_labels: "m \<in> set (repository_metrics reg repo) \<Longrightarrow> m_labels m = [rt_name reg, ry_name repo]"
  by (auto simp: repository_metrics_def Let_def split: if_splits)

lemma repository_metrics_names:
  "m \<in> set (repository_metrics reg repo) \<Longrightarrow> metric_name m \<in>
     {fq_name repository_tags_desc, fq_name repository_manifests_desc,
      fq_name repository_manifest_size_desc, fq_name repository_last_push_desc}"
  by (auto simp: repository_metrics_def Let_def split: if_splits)

lemma collect_registry_names:
  "m \<in> set (collect_registry s reg) \<Longrightarrow> metric_name m \<notin>
     {fq_name repository_tags_desc, fq_name repository_manifests_desc,
      fq_name repository_manifest_size_desc, fq_name repository_last_push_desc}"
  by (auto simp: collect_registry_def Let_def registry_desc_defs split: if_splits)

lemma collect_registry_owner: "m \<in> set (collect_registry s reg) \<Longrightarrow> first_label m = rt_name reg"
  by (auto simp: collect_registry_def Let_def split: if_splits)

text \<open>Only the repositories of a registry can repeat a series, and only by their name.\<close>

lemma collect_repositories_unique:
  "no_duplicates (collect_repositories reg) \<longleftrightarrow> distinct (map ry_name (rt_repositories reg))"
proof
  assume "distinct (map ry_name (rt_repositories reg))"
  then show "no_duplicates (collect_repositories reg)"
    unfolding collect_repositories_def
    by (rule no_duplicates_blocks [where owner = "\<lambda>m. m_labels m ! 1"])
      (auto simp: repository_metrics_distinct series_of_def dest: repository_metrics_labels)
next
  let ?name = "fq_name repository_tags_desc" and ?repos = "rt_repositories reg"
  assume "no_duplicates (collect_repositories reg)"
  then have "distinct (filter (\<lambda>s. fst s = ?name) (map series_of (collect_repositories reg)))"
    by (simp add: no_duplicates_def)
  moreover have "filter (\<lambda>s. fst s = ?name) (map series_of (repository_metrics reg repo)) =
      [(?name, [rt_name reg, ry_name repo])]" for repo
    by (simp add: repository_metrics_def Let_def) (simp add: registry_desc_defs)
  then have "filter (\<lambda>s. fst s = ?name) (map series_of (collect_repositories reg)) =
      map (\<lambda>n. (?name, [rt_name reg, n])) (map ry_name ?repos)"
    by (simp add: collect_repositories_def map_concat filter_concat comp_def flip: map_map)
      (simp add: comp_def)
  ultimately show "distinct (map ry_name ?repos)"
    by (metis (no_types, lifting) distinct_map)
qed

lemma registry_block_unique:
  "no_duplicates (collect_registry s reg @ collect_repositories reg) \<longleftrightarrow>
     distinct (map ry_name (rt_repositories reg))"
proof -
  have "metric_name ` set (collect_registry s reg) \<inter> metric_name ` set (collect_repositories reg) = {}"
    by (auto simp: collect_repositories_def dest!: repository_metrics_names) (auto dest: collect_registry_names)
  from no_duplicates_parts_iff [OF this] show ?thesis
    using collect_registry_distinct [of s reg] collect_repositories_unique [of reg]
    unfolding no_duplicates_def by blast
qed

lemma registry_series:
  assumes "registry_ok (Some s)"
  shows "no_duplicates (registry_collect (Some s)) \<longleftrightarrow>
    (\<forall>(name, reg) \<in> set (rs_registries s). distinct (map ry_name (rt_repositories reg)))"
proof
  let ?f = "\<lambda>(name, reg). collect_registry s reg @ collect_repositories reg"
  assume u: "no_duplicates (registry_collect (Some s))"
  show "\<forall>(name, reg) \<in> set (rs_registries s). distinct (map ry_name (rt_repositories reg))"
  proof clarify
    fix name reg
    assume "(name, reg) \<in> set (rs_registries s)"
    with u have "distinct (map series_of (?f (name, reg)))"
      unfolding registry_collect_def option.case by (rule no_duplicates_block)
    then show "distinct (map ry_name (rt_repositories reg))"
      using registry_block_unique [of s reg] by (simp add: no_duplicates_def)
  qed
next
  assume "\<forall>(name, reg) \<in> set (rs_registries s). distinct (map ry_name (rt_repositories reg))"
  moreover have "first_label m = rt_name reg"
    if "m \<in> set (collect_registry s reg @ collect_repositories reg)" for m reg
  proof -
    have "first_label m = rt_name reg" if "m \<in> set (repository_metrics reg repo)" for repo
      using repository_metrics_labels [OF that] by (simp add: first_label_def)
    then show ?thesis using that collect_registry_owner by (auto simp: collect_repositories_def)
  qed
  ultimately show "no_duplicates (registry_collect (Some s))"
    unfolding registry_collect_def option.case using assms registry_block_unique [of s]
    by (intro no_duplicates_by_id [where key = fst])
      (fastforce simp: registry_ok_def no_duplicates_def)+
qed

definition repositories_apart :: "registry_snapshot option \<Rightarrow> bool" where
  "repositories_apart snap \<longleftrightarrow>
     (case snap of
        None \<Rightarrow> True
      | Some s \<Rightarrow> list_all (\<lambda>(name, reg). distinct (map ry_name (rt_repositories reg))) (rs_registries s))"

lemma registry_unique:
  "registry_ok snap \<Longrightarrow> repositories_apart snap \<Longrightarrow> no_duplicates (registry_collect snap)"
proof (cases snap)
  case None
  then show ?thesis by (simp add: registry_collect_def no_duplicates_def)
next
  case (Some s)
  assume "registry_ok snap" and "repositories_apart snap"
  with registry_series [of s] show ?thesis
    by (simp add: Some repositories_apart_def list_all_iff)
qed

section \<open>Specification of the token loop\<close>

inductive token_walk :: "registry_api \<Rightarrow> bool \<Rightarrow> string \<Rightarrow> nat \<Rightarrow> string \<Rightarrow> godo_repository list list \<Rightarrow> bool"
  for api :: registry_api and multi :: bool and name :: string where
  token_last: "under_ctx (ra_repos_ctx api name) k (ra_repos api multi name k token) = Inr (page, lnk) \<Longrightarrow>
     lnk = NoTokenLinks \<or> lnk = LastTokenPage \<or> lnk = NextToken (Inr '''') \<Longrightarrow>
     token_walk api multi name k token [page]"
| token_next: "under_ctx (ra_repos_ctx api name) k (ra_repos api multi name k token) =
       Inr (page, NextToken (Inr token')) \<Longrightarrow> token' \<noteq> '''' \<Longrightarrow>
     token_walk api multi name (Suc k) token' pages \<Longrightarrow>
     token_walk api multi name k token (page # pages)"

inductive_simps token_walk_iff: "token_walk api multi name k token pages"

lemma repositories_from_walk:
  "repositories_from api multi name k token out = Inr r \<longleftrightarrow>
     (\<exists>pages. token_walk api multi name k token pages \<and> r = out @ map new_repository (concat pages))"
proof (induction "ctx_live (ra_repos_ctx api name) - k" arbitrary: k token out rule: less_induct)
  case less
  show ?case
  proof (cases "under_ctx (ra_repos_ctx api name) k (ra_repos api multi name k token)")
    case (Inl e)
    then show ?thesis by (simp add: repositories_from.simps [of api multi name k] token_walk_iff [of api multi name k])
  next
    case (Inr reply)
    obtain page lnk where reply: "reply = (page, lnk)" by fastforce
    consider (last) "lnk = NoTokenLinks \<or> lnk = LastTokenPage \<or> lnk = NextToken (Inr '''')"
      | (bad) e where "lnk = NextToken (Inl e)"
      | (on) token' where "lnk = NextToken (Inr token')" "token' \<noteq> ''''"
      by (metis sum.exhaust token_links.exhaust)
    then show ?thesis
    proof cases
      case last
      then have "token_walk api multi name k token pages \<longleftrightarrow> pages = [page]" for pages
        using Inr reply by (auto simp: token_walk_iff [of api multi name k])
      moreover have "repositories_from api multi name k token out = Inr (out @ map new_repository page)"
        using last Inr reply by (auto simp: repositories_from.simps [of api multi name k] Let_def)
      ultimately show ?thesis by auto
    next
      case bad
      then show ?thesis
        using Inr reply
        by (simp add: repositories_from.simps [of api multi name k] token_walk_iff [of api multi name k] Let_def)
    next
      case on
      have "token_walk api multi name k token pages \<longleftrightarrow>
          (\<exists>ps. pages = page # ps \<and> token_walk api multi name (Suc k) token' ps)" for pages
        using on Inr reply by (auto simp: token_walk_iff [of api multi name k])
      moreover have "repositories_from api multi name k token out =
          repositories_from api multi name (Suc k) token' (out @ map new_repository page)"
        using on Inr reply by (simp add: repositories_from.simps [of api multi name k] Let_def)
      moreover have "ctx_live (ra_repos_ctx api name) - Suc k < ctx_live (ra_repos_ctx api name) - k"
        using under_ctx_Inr [OF Inr] by simp
      ultimately show ?thesis using less.hyps [of "Suc k" token'] by auto
    qed
  qed
qed

section \<open>Properties\<close>

lemma stats_map_entries:
  "(\<forall>(name, reg) \<in> set (stats_map snap results).
      \<exists>r \<in> set results. name = grg_name (fst r) \<and> reg = swap_stats snap r) \<and>
   fst ` set (stats_map snap results) = (\<lambda>r. grg_name (fst r)) ` set results"
proof (induction results rule: rev_induct)
  case (snoc r rs)
  let ?P = "\<lambda>rs name reg. \<exists>r \<in> set rs. name = grg_name (fst r) \<and> reg = swap_stats snap r"
  have "\<forall>(name, reg) \<in> set (stats_map snap rs). ?P (rs @ [r]) name reg"
    using snoc by auto
  from update_values [OF this, of "grg_name (fst r)" "swap_stats snap r"] snoc show ?case
    by (auto simp: dom_update)
qed simp

text \<open>
  C10. Whether it succeeds or not, a refresh that has listed registries and read the subscription
  leaves a snapshot of exactly the listed ones: a registry whose repositories could all be read, to
  the page that ends the list, has just those and is up; one whose repositories could not is down
  and has those of the previous snapshot, if it was in it. It fails exactly when no registry's
  repositories could be read.
\<close>

theorem registry_entry:
  assumes "list_registries api = Inr (regs, multi)" and "regs \<noteq> []"
    and "subscription api multi = Inr sub"
  shows "\<exists>s. fst (registry_refresh api snap) = Some s \<and>
    fst ` set (rs_registries s) = grg_name ` set regs \<and>
    (\<forall>(name, reg) \<in> set (rs_registries s). case repositories api multi name of
       Inr repos \<Rightarrow> rt_up reg \<and> rt_known reg \<and> rt_repositories reg = repos \<and>
         (\<exists>pages. token_walk api multi name 0 '''' pages \<and> repos = map new_repository (concat pages))
     | Inl e \<Rightarrow> \<not> rt_up reg \<and>
         (case previous_registry snap name of
            Some old \<Rightarrow> rt_known reg = rt_known old \<and> rt_repositories reg = rt_repositories old
          | None \<Rightarrow> \<not> rt_known reg \<and> rt_repositories reg = [])) \<and>
    (snd (registry_refresh api snap) = None \<longleftrightarrow>
       (\<exists>reg \<in> set regs. \<not> isl_err (repositories api multi (grg_name reg))))"
proof -
  let ?results = "read_all api multi regs"
  let ?s = "(apply_subscription sub empty_snapshot)\<lparr>rs_registries := stats_map snap ?results\<rparr>"
  have refresh: "registry_refresh api snap = (Some ?s, report_failures ?results)"
    using assms by (simp add: registry_refresh_def Let_def swap_registries_map)
  have keys: "fst ` set (rs_registries ?s) = grg_name ` set regs"
    using stats_map_entries [of snap ?results] by (auto simp: read_all_def image_image)
  have entry: "case repositories api multi name of
       Inr repos \<Rightarrow> rt_up reg \<and> rt_known reg \<and> rt_repositories reg = repos
     | Inl e \<Rightarrow> \<not> rt_up reg \<and>
         (case previous_registry snap name of
            Some old \<Rightarrow> rt_known reg = rt_known old \<and> rt_repositories reg = rt_repositories old
          | None \<Rightarrow> \<not> rt_known reg \<and> rt_repositories reg = [])"
    if mem: "(name, reg) \<in> set (rs_registries ?s)" for name reg
  proof -
    obtain g where "name = grg_name g" "reg = swap_stats snap (g, repositories api multi (grg_name g))"
      using mem stats_map_entries [of snap ?results] by (auto simp: read_all_def)
    then show ?thesis
      by (simp add: swap_stats_def Let_def split: sum.split option.split)
  qed
  have walk: "\<exists>pages. token_walk api multi name 0 '''' pages \<and> repos = map new_repository (concat pages)"
    if "repositories api multi name = Inr repos" for name repos
    using that by (simp add: repositories_def repositories_from_walk)
  have "report_failures ?results = None \<longleftrightarrow>
      (\<exists>reg \<in> set regs. \<not> isl_err (repositories api multi (grg_name reg)))"
  proof -
    let ?errs = "filter (\<lambda>r. isl_err (snd r)) ?results"
    have "length ?errs = length ?results \<longleftrightarrow> (\<forall>r \<in> set ?results. isl_err (snd r))"
      by (metis filter_True length_filter_less less_irrefl)
    moreover have "0 < length ?results" using assms(2) by (simp add: read_all_def)
    ultimately have "report_failures ?results = None \<longleftrightarrow> (\<exists>r \<in> set ?results. \<not> isl_err (snd r))"
      by (auto simp: report_failures_def Let_def)
    then show ?thesis by (auto simp: read_all_def)
  qed
  then have failed: "snd (registry_refresh api snap) = None \<longleftrightarrow>
      (\<exists>reg \<in> set regs. \<not> isl_err (repositories api multi (grg_name reg)))"
    by (simp add: refresh)
  have full: "case repositories api multi name of
       Inr repos \<Rightarrow> rt_up reg \<and> rt_known reg \<and> rt_repositories reg = repos \<and>
         (\<exists>pages. token_walk api multi name 0 '''' pages \<and> repos = map new_repository (concat pages))
     | Inl e \<Rightarrow> \<not> rt_up reg \<and>
         (case previous_registry snap name of
            Some old \<Rightarrow> rt_known reg = rt_known old \<and> rt_repositories reg = rt_repositories old
          | None \<Rightarrow> \<not> rt_known reg \<and> rt_repositories reg = [])"
    if "(name, reg) \<in> set (rs_registries ?s)" for name reg
    using entry [OF that] walk [of name] by (cases "repositories api multi name") simp_all
  show ?thesis
  proof (intro exI [of _ ?s] conjI)
    show "fst (registry_refresh api snap) = Some ?s" by (simp add: refresh)
  qed (use keys full failed in auto)
qed

text \<open>
  C38. An account is taken to have no registry, which empties the snapshot without an error, whenever
  the single-registry endpoint answers 404 and the other one names nothing, be it because it failed
  for any reason; every other failure of both is an error that keeps the snapshot.
\<close>

theorem registry_absent:
  assumes "ra_list api = Inr [] \<or> ra_list api = Inl err" and "ra_get api = Inl single_err"
  shows "(is_not_found single_err \<longrightarrow>
      registry_refresh api snap = (Some empty_snapshot, None) \<and>
      registry_collect (fst (registry_refresh api snap)) = []) \<and>
    (\<not> is_not_found single_err \<longrightarrow> fst (registry_refresh api snap) = snap \<and>
      snd (registry_refresh api snap) \<noteq> None)"
  using assms
  by (auto simp: registry_refresh_def list_registries_def registry_collect_def empty_snapshot_def)

definition demo_registry :: "string \<Rightarrow> godo_registry" where
  "demo_registry name =
     \<lparr>grg_name = name, grg_region = ''fra1'', grg_storage_usage = 1024, grg_storage_updated_at = None\<rparr>"

definition demo_registries :: registry_api where
  "demo_registries =
     \<lparr>ra_list = Inr [demo_registry ''a'', demo_registry ''b''], ra_get = Inl (ApiError (Some 404)),
      ra_subscription = (\<lambda>multi. Inr None),
      ra_repos_ctx = (\<lambda>name. \<lparr>ctx_live = 9, ctx_cause = Sentinel DeadlineExceeded\<rparr>),
      ra_repos = (\<lambda>multi name k token. if name = ''a'' then Inl (Other ''500'') else Inr ([], LastTokenPage))\<rparr>"

lemma demo_repositories:
  "isl_err (repositories demo_registries multi ''a'')"
  "repositories demo_registries multi ''b'' = Inr []"
  by (simp_all add: repositories_def repositories_from.simps demo_registries_def under_ctx_def ctx_err_def)

lemma registry_entry_witness:
  "\<exists>s. registry_refresh demo_registries None = (Some s, None) \<and>
     (\<forall>(name, reg) \<in> set (rs_registries s). rt_up reg \<longleftrightarrow> name = ''b'')"
proof -
  have l: "list_registries demo_registries = Inr ([demo_registry ''a'', demo_registry ''b''], True)"
    and sub: "subscription demo_registries True = Inr None"
    by (simp_all add: list_registries_def subscription_def demo_registries_def)
  have names: "grg_name (demo_registry n) = n" for n by (simp add: demo_registry_def)
  obtain s where s: "fst (registry_refresh demo_registries None) = Some s"
    "fst ` set (rs_registries s) = {''a'', ''b''}"
    and e: "\<forall>(name, reg) \<in> set (rs_registries s). case repositories demo_registries True name of
       Inr repos \<Rightarrow> rt_up reg \<and> rt_known reg \<and> rt_repositories reg = repos \<and>
         (\<exists>pages. token_walk demo_registries True name 0 '''' pages \<and> repos = map new_repository (concat pages))
     | Inl e \<Rightarrow> \<not> rt_up reg \<and>
         (case previous_registry None name of
            Some old \<Rightarrow> rt_known reg = rt_known old \<and> rt_repositories reg = rt_repositories old
          | None \<Rightarrow> \<not> rt_known reg \<and> rt_repositories reg = [])"
    and ok: "snd (registry_refresh demo_registries None) = None"
    using registry_entry [OF l _ sub, of None] by (auto simp: names demo_repositories)
  have "rt_up reg \<longleftrightarrow> name = ''b''" if m: "(name, reg) \<in> set (rs_registries s)" for name reg
  proof -
    have "name \<in> fst ` set (rs_registries s)" using m by force
    then have "name = ''a'' \<or> name = ''b''" using s(2) by auto
    then show ?thesis
      using bspec [OF e m] demo_repositories [of True]
      by (cases "repositories demo_registries True ''a''") auto
  qed
  with s(1) ok show ?thesis by (intro exI [of _ s]) (auto simp: prod_eq_iff)
qed

definition demo_snapshot :: registry_snapshot where
  "demo_snapshot = empty_snapshot\<lparr>rs_tier := True, rs_tier_slug := ''basic''\<rparr>"

lemma registry_absent_witness:
  "registry_refresh (demo_registries\<lparr>ra_list := Inl (ApiError (Some 500))\<rparr>) (Some demo_snapshot) =
     (Some empty_snapshot, None) \<and>
   snd (registry_refresh (demo_registries\<lparr>ra_list := Inl (ApiError (Some 500)),
     ra_get := Inl (ApiError (Some 500))\<rparr>) (Some demo_snapshot)) \<noteq> None"
  using registry_absent [of "demo_registries\<lparr>ra_list := Inl (ApiError (Some 500))\<rparr>" "ApiError (Some 500)"
      "ApiError (Some 404)" "Some demo_snapshot"]
    registry_absent [of "demo_registries\<lparr>ra_list := Inl (ApiError (Some 500)),
     ra_get := Inl (ApiError (Some 500))\<rparr>" "ApiError (Some 500)" "ApiError (Some 500)" "Some demo_snapshot"]
  by (simp add: demo_registries_def is_not_found_def)

end
