(* ===== verification/Uptime.thy ===== *)
theory Uptime
  imports Statuses Remembering "HOL-Library.DAList"
begin

text \<open>
  internal/collector/uptime: the Uptime checks and the state each probing region reports, which is
  looked up per check and keeps its last known value. The regions of a state are a map, here an
  association list with distinct keys; a percentage is a float32, which a float64 holds exactly.
  \<open>time.Parse\<close> with RFC 3339 is a parameter.
\<close>

section \<open>Data\<close>

record godo_check =
  guc_id :: string
  guc_name :: string
  guc_type :: string
  guc_target :: string
  guc_enabled :: bool

record godo_region_state =
  grs_status :: string
  grs_uptime_percentage :: float64

record godo_outage =
  gou_region :: string
  gou_started_at :: string
  gou_duration_seconds :: int

record godo_check_state =
  gcs_regions :: "(string, godo_region_state) alist"
  gcs_previous_outage :: godo_outage

record region_state =
  rg_region :: string
  rg_status :: string
  rg_ratio :: float64

record outage =
  ot_region :: string
  ot_start :: float64
  ot_has_start :: bool
  ot_duration :: float64

record check_state =
  ut_known :: bool
  ut_regions :: "region_state list"
  ut_outage :: "outage option"

record check =
  ck_id :: string
  ck_name :: string
  ck_type :: string
  ck_target :: string
  ck_enabled :: string
  ck_up :: bool
  ck_state :: check_state

definition known_region_statuses :: "string list" where
  "known_region_statuses = [''UP'', ''DOWN'', ''CHECKING'']"

definition no_state :: check_state where
  "no_state = \<lparr>ut_known = False, ut_regions = [], ut_outage = None\<rparr>"

section \<open>Descriptors\<close>

definition uptime_info_desc :: desc where
  "uptime_info_desc = Desc ''digitalocean_uptime_check_info''
     [''id'', ''name'', ''type'', ''target'', ''enabled'']"
definition uptime_region_status_desc :: desc where
  "uptime_region_status_desc = Desc ''digitalocean_uptime_check_region_status''
     [''id'', ''name'', ''region'', ''status'']"
definition uptime_ratio_desc :: desc where
  "uptime_ratio_desc =
     Desc ''digitalocean_uptime_check_uptime_ratio'' [''id'', ''name'', ''region'']"
definition uptime_outage_start_desc :: desc where
  "uptime_outage_start_desc =
     Desc ''digitalocean_uptime_check_previous_outage_start_timestamp_seconds''
       [''id'', ''name'', ''region'']"
definition uptime_outage_duration_desc :: desc where
  "uptime_outage_duration_desc =
     Desc ''digitalocean_uptime_check_previous_outage_duration_seconds''
       [''id'', ''name'', ''region'']"
definition uptime_up_desc :: desc where
  "uptime_up_desc = Desc ''digitalocean_uptime_check_up'' [''id'', ''name'']"

definition uptime_descriptors :: "desc list" where
  "uptime_descriptors =
     [uptime_info_desc, uptime_region_status_desc, uptime_ratio_desc, uptime_outage_start_desc,
      uptime_outage_duration_desc, uptime_up_desc]"

lemmas uptime_desc_defs = uptime_info_desc_def uptime_region_status_desc_def
  uptime_ratio_desc_def uptime_outage_start_desc_def uptime_outage_duration_desc_def
  uptime_up_desc_def

section \<open>Conversion\<close>

definition new_check :: "godo_check \<Rightarrow> check" where
  "new_check uc =
     \<lparr>ck_id = guc_id uc, ck_name = guc_name uc, ck_type = guc_type uc, ck_target = guc_target uc,
      ck_enabled = format_bool (guc_enabled uc), ck_up = False, ck_state = no_state\<rparr>"

definition new_region_state :: "godo_check_state \<Rightarrow> string \<Rightarrow> region_state" where
  "new_region_state st region =
     (let r = (case DAList.lookup (gcs_regions st) region of
                 None \<Rightarrow> \<lparr>grs_status = '''', grs_uptime_percentage = Fin 0\<rparr> | Some r \<Rightarrow> r)
      in \<lparr>rg_region = region, rg_status = grs_status r,
          rg_ratio = flt_div (grs_uptime_percentage r) 100\<rparr>)"

definition new_outage :: "(string \<Rightarrow> int option) \<Rightarrow> godo_outage \<Rightarrow> outage option" where
  "new_outage parse_rfc3339 po =
     (if gou_region po = '''' then None
      else Some
        \<lparr>ot_region = gou_region po,
         ot_start = (case parse_rfc3339 (gou_started_at po) of
                       None \<Rightarrow> Fin 0 | Some unix \<Rightarrow> of_int64 unix),
         ot_has_start = (parse_rfc3339 (gou_started_at po) \<noteq> None),
         ot_duration = of_int64 (gou_duration_seconds po)\<rparr>)"

definition new_state :: "(string \<Rightarrow> int option) \<Rightarrow> godo_check_state \<Rightarrow> check_state" where
  "new_state p st =
     \<lparr>ut_known = True,
      ut_regions = map (new_region_state st) (sort_strings (map fst (DAList.impl_of (gcs_regions st)))),
      ut_outage = new_outage p (gcs_previous_outage st)\<rparr>"

section \<open>Refresh\<close>

record uptime_api =
  ua_ctx :: ctx
  ua_list :: "godo_check list_func"
  ua_state :: "string \<Rightarrow> godo_check_state res"
  ua_done :: "string \<Rightarrow> bool"

definition previous_states :: "check list \<Rightarrow> (string \<rightharpoonup> check_state)" where
  "previous_states snap = previous_by ck_id ck_state snap"

definition refresh_state ::
  "(string \<Rightarrow> int option) \<Rightarrow> uptime_api \<Rightarrow> (string \<rightharpoonup> check_state) \<Rightarrow> check \<Rightarrow> check res" where
  "refresh_state p api previous ck =
     (case ua_state api (ck_id ck) of
        Inl err \<Rightarrow>
          if ua_done api (ck_id ck) then Inl err
          else Inr (ck\<lparr>ck_state := (case previous (ck_id ck) of None \<Rightarrow> no_state | Some st \<Rightarrow> st)\<rparr>)
      | Inr st \<Rightarrow> Inr (ck\<lparr>ck_up := True, ck_state := new_state p st\<rparr>))"

definition uptime_refresh ::
  "(string \<Rightarrow> int option) \<Rightarrow> uptime_api \<Rightarrow> check list \<Rightarrow> check list \<times> goerr option" where
  "uptime_refresh p api snap =
     replace_snapshot
       (and_then (fst (paging_all (ua_ctx api) ''uptime checks'' guc_id (ua_list api))) (\<lambda>listed.
          map_res (refresh_state p api (previous_states snap)) (map new_check listed)))
       (\<lambda>checks. checks) snap"

section \<open>Collect\<close>

definition collect_region_status :: "check \<Rightarrow> region_state \<Rightarrow> metric list" where
  "collect_region_status ck r =
     status_series uptime_region_status_desc known_region_statuses
       [ck_id ck, ck_name ck, rg_region r] (rg_status r)"

definition region_metrics :: "check \<Rightarrow> region_state \<Rightarrow> metric list" where
  "region_metrics ck r =
     collect_region_status ck r @
     [gauge uptime_ratio_desc (rg_ratio r) [ck_id ck, ck_name ck, rg_region r]]"

definition outage_metrics :: "check \<Rightarrow> outage \<Rightarrow> metric list" where
  "outage_metrics ck out =
     (if ot_has_start out
      then [gauge uptime_outage_start_desc (ot_start out) [ck_id ck, ck_name ck, ot_region out]]
      else []) @
     [gauge uptime_outage_duration_desc (ot_duration out) [ck_id ck, ck_name ck, ot_region out]]"

definition collect_state :: "check \<Rightarrow> metric list" where
  "collect_state ck =
     (if \<not> ut_known (ck_state ck) then []
      else concat (map (region_metrics ck) (ut_regions (ck_state ck))) @
           (case ut_outage (ck_state ck) of None \<Rightarrow> [] | Some out \<Rightarrow> outage_metrics ck out))"

definition check_metrics :: "check \<Rightarrow> metric list" where
  "check_metrics ck =
     [gauge uptime_info_desc (Fin 1) [ck_id ck, ck_name ck, ck_type ck, ck_target ck, ck_enabled ck],
      gauge uptime_up_desc (bool_to_float (ck_up ck)) [ck_id ck, ck_name ck]] @
     collect_state ck"

definition uptime_collect :: "check list \<Rightarrow> metric list" where
  "uptime_collect snap = concat (map check_metrics snap)"

section \<open>The contract\<close>

text \<open>What a state lookup finds, and the refresh of one check as a remembering step.\<close>

definition found_state :: "(string \<Rightarrow> int option) \<Rightarrow> uptime_api \<Rightarrow> string \<Rightarrow> check_state res" where
  "found_state p api i =
     (case ua_state api i of Inl e \<Rightarrow> Inl e | Inr st \<Rightarrow> Inr (new_state p st))"

interpretation states:
  remembering ck_id ck_state no_state "found_state p" ua_done "refresh_state p" for p
  by unfold_locales (auto simp: refresh_state_def found_state_def split: sum.splits)

definition state_ok :: "check_state \<Rightarrow> bool" where
  "state_ok st \<longleftrightarrow> distinct (map rg_region (ut_regions st))"

definition uptime_ok :: "check list \<Rightarrow> bool" where
  "uptime_ok snap \<longleftrightarrow> distinct (map ck_id snap) \<and> (\<forall>ck \<in> set snap. state_ok (ck_state ck))"

lemma new_state_ok: "state_ok (new_state p st)"
proof -
  have "distinct (map fst (DAList.impl_of (gcs_regions st)))"
    using DAList.impl_of [of "gcs_regions st"] by simp
  then show ?thesis
    by (simp add: state_ok_def new_state_def new_region_state_def Let_def comp_def sort_strings_def)
qed

lemma no_state_ok: "state_ok no_state"
  by (simp add: state_ok_def no_state_def)

lemma previous_states_ok:
  "\<forall>ck \<in> set snap. state_ok (ck_state ck) \<Longrightarrow> previous_states snap i = Some st \<Longrightarrow> state_ok st"
  unfolding previous_states_def previous_by_def
  by (induction snap arbitrary: st rule: rev_induct) (auto split: if_splits)

lemma uptime_refresh_ok: "uptime_ok s \<Longrightarrow> uptime_ok (fst (uptime_refresh p env s))"
  unfolding uptime_refresh_def
proof (rule replace_snapshot_ok, assumption)
  fix xs
  assume ok: "uptime_ok s"
    and "and_then (fst (paging_all (ua_ctx env) ''uptime checks'' guc_id (ua_list env)))
      (\<lambda>listed. map_res (refresh_state p env (previous_states s)) (map new_check listed)) = Inr xs"
  then obtain listed where l: "fst (paging_all (ua_ctx env) ''uptime checks'' guc_id (ua_list env)) = Inr listed"
    and r: "map_res (refresh_state p env (previous_states s)) (map new_check listed) = Inr xs"
    by (auto simp: and_then_Inr)
  have "map ck_id xs = map guc_id listed"
    using states.renew_list(1) [OF r] by (simp add: new_check_def comp_def)
  then have "distinct (map ck_id xs)" using paging_all_distinct [OF l] by simp
  moreover have "state_ok (ck_state ck)" if "ck \<in> set xs" for ck
    using states.renew_list(2) [OF r that] ok previous_states_ok [of s "ck_id ck"]
    by (auto simp: states.renewed_def found_state_def new_state_ok no_state_ok uptime_ok_def
      split: sum.splits option.splits)
  ultimately show "uptime_ok xs" by (simp add: uptime_ok_def)
qed

lemma region_metrics_described: "well_described uptime_descriptors (region_metrics ck r)"
  by (simp add: region_metrics_def collect_region_status_def uptime_descriptors_def
      status_series_described uptime_desc_defs)

lemma check_metrics_described: "well_described uptime_descriptors (check_metrics ck)"
proof -
  have "well_described uptime_descriptors (concat (map (region_metrics ck) rs))" for rs
    by (rule well_described_concat_map) (rule region_metrics_described)
  then show ?thesis
    by (simp add: check_metrics_def collect_state_def outage_metrics_def)
      (simp add: uptime_descriptors_def uptime_desc_defs)
qed

lemma region_metrics_distinct: "distinct (map series_of (region_metrics ck r))"
proof -
  have "distinct (map series_of (collect_region_status ck r))"
    unfolding collect_region_status_def
    by (rule status_series_distinct) (simp add: known_region_statuses_def)
  moreover have "(fq_name uptime_ratio_desc, ls) \<notin> series_of ` set (collect_region_status ck r)" for ls
    by (auto simp: collect_region_status_def series_of_def uptime_desc_defs dest: status_series_name)
  ultimately show ?thesis by (simp add: region_metrics_def)
qed

lemma region_metrics_labels:
  "m \<in> set (region_metrics ck r) \<Longrightarrow> hd (m_labels m) = ck_id ck \<and> m_labels m ! 2 = rg_region r"
  by (auto simp: region_metrics_def collect_region_status_def dest!: status_series_labels)

lemma region_metrics_names:
  "m \<in> set (region_metrics ck r) \<Longrightarrow>
     metric_name m \<in> {fq_name uptime_region_status_desc, fq_name uptime_ratio_desc}"
  by (auto simp: region_metrics_def collect_region_status_def metric_name_def dest!: status_series_name)

lemma regions_unique:
  "state_ok st \<Longrightarrow> no_duplicates (concat (map (region_metrics ck) (ut_regions st)))"
  by (rule no_duplicates_blocks [where key = rg_region and owner = "\<lambda>m. m_labels m ! 2"])
    (auto simp: state_ok_def region_metrics_distinct region_metrics_labels series_of_def)

lemma outage_metrics_names:
  "m \<in> set (outage_metrics ck out) \<Longrightarrow>
     metric_name m \<in> {fq_name uptime_outage_start_desc, fq_name uptime_outage_duration_desc}"
  by (auto simp: outage_metrics_def split: if_splits)

lemma collect_state_unique: "state_ok (ck_state ck) \<Longrightarrow> no_duplicates (collect_state ck)"
proof -
  assume ok: "state_ok (ck_state ck)"
  have "no_duplicates (outage_metrics ck out)" for out
    unfolding no_duplicates_def outage_metrics_def
    by (rule names_distinct, (rule names_within_rules)+) (simp add: uptime_desc_defs)
  then have "no_duplicates (case ut_outage (ck_state ck) of None \<Rightarrow> [] | Some out \<Rightarrow> outage_metrics ck out)"
    by (simp add: no_duplicates_def [of "[]"] split: option.split)
  with regions_unique [OF ok] have "no_duplicates
      (concat (map (region_metrics ck) (ut_regions (ck_state ck))) @
       (case ut_outage (ck_state ck) of None \<Rightarrow> [] | Some out \<Rightarrow> outage_metrics ck out))"
    by (rule no_duplicates_parts)
      (auto simp: uptime_desc_defs split: option.splits dest!: region_metrics_names outage_metrics_names)
  then show ?thesis by (simp add: collect_state_def no_duplicates_def [of "[]"])
qed

lemma collect_state_names:
  "m \<in> set (collect_state ck) \<Longrightarrow>
     metric_name m \<notin> {fq_name uptime_info_desc, fq_name uptime_up_desc}"
  by (auto simp: collect_state_def uptime_desc_defs split: if_splits option.splits
      dest!: region_metrics_names outage_metrics_names)

lemma check_metrics_unique:
  assumes "state_ok (ck_state ck)"
  shows "no_duplicates (check_metrics ck)"
  unfolding check_metrics_def
proof (rule no_duplicates_parts [OF _ collect_state_unique [OF assms]])
  show "no_duplicates
     [gauge uptime_info_desc (Fin 1) [ck_id ck, ck_name ck, ck_type ck, ck_target ck, ck_enabled ck],
      gauge uptime_up_desc (bool_to_float (ck_up ck)) [ck_id ck, ck_name ck]]"
    by (simp add: no_duplicates_def uptime_desc_defs)
qed (use collect_state_names in fastforce)

lemma check_metrics_owner: "m \<in> set (check_metrics ck) \<Longrightarrow> first_label m = ck_id ck"
  by (auto simp: check_metrics_def collect_state_def outage_metrics_def first_label_def
      dest: region_metrics_labels split: if_splits option.splits)

interpretation uptime:
  unique_collector "uptime_refresh p" uptime_collect uptime_descriptors "[]" uptime_ok for p
proof
  show "uptime_ok []" "uptime_collect [] = []" by (simp_all add: uptime_ok_def uptime_collect_def)
  show "well_described uptime_descriptors (uptime_collect s)" for s
    by (simp add: uptime_collect_def well_described_concat_map check_metrics_described)
  show "no_duplicates (uptime_collect s)" if "uptime_ok s" for s
    unfolding uptime_collect_def
    by (rule no_duplicates_by_id [where key = ck_id])
      (use that check_metrics_unique in
        \<open>auto simp: uptime_ok_def check_metrics_owner no_duplicates_def\<close>)
qed (rule uptime_refresh_ok)

interpretation uptime_atomic:
  atomic_collector "uptime_refresh p" uptime_collect uptime_descriptors "[]" uptime_ok for p
  by unfold_locales (simp add: uptime_refresh_def replace_snapshot_failure)

section \<open>Properties\<close>

text \<open>
  C34. After any refreshes and one more that succeeds, a check is up exactly when its state could be
  looked up; then it reports that state, and otherwise the state it was last known in, or none, and
  the context was still alive.
\<close>

theorem uptime_entry:
  assumes "snap = refreshes (uptime_refresh p) envs []"
    and "uptime_refresh p api snap = (fresh, None)" and "ck \<in> set fresh"
  shows "case ua_state api (ck_id ck) of
      Inr st \<Rightarrow> ck_up ck \<and> ck_state ck = new_state p st
    | Inl e \<Rightarrow> \<not> ck_up ck \<and> \<not> ua_done api (ck_id ck) \<and>
        (if ck_id ck \<in> ck_id ` set snap
         then \<exists>old \<in> set snap. ck_id old = ck_id ck \<and> ck_state ck = ck_state old
         else ck_state ck = no_state)"
proof -
  have dist: "distinct (map ck_id snap)"
    using uptime.refreshes_ok [OF uptime.start_ok] assms(1) by (simp add: uptime_ok_def)
  obtain listed where r:
    "map_res (refresh_state p api (previous_by ck_id ck_state snap)) (map new_check listed) = Inr fresh"
    using replace_snapshot_None [OF assms(2) [unfolded uptime_refresh_def]]
    by (auto simp: and_then_Inr previous_states_def)
  have "list_all2 (\<lambda>x y. refresh_state p api (previous_by ck_id ck_state snap) x = Inr y)
      (map new_check listed) fresh"
    using r by (simp add: map_res_Inr)
  then obtain uc where uc: "refresh_state p api (previous_by ck_id ck_state snap) (new_check uc) = Inr ck"
    using assms(3) by (auto simp: list_all2_conv_all_nth in_set_conv_nth)
  show ?thesis
  proof (cases "ua_state api (ck_id ck)")
    case (Inr st)
    then show ?thesis using uc states.renew_entry(1) [OF uc]
      by (auto simp: refresh_state_def split: sum.splits if_splits)
  next
    case (Inl e)
    then have failed: "found_state p api (ck_id ck) = Inl e" by (simp add: found_state_def)
    have "\<not> ck_up ck \<and> \<not> ua_done api (ck_id ck)"
      using uc Inl states.renew_entry(1) [OF uc] by (auto simp: refresh_state_def new_check_def split: if_splits)
    moreover have "ck_state ck = ck_state old" if "old \<in> set snap" "ck_id old = ck_id ck" for old
      using states.renew_entry(2) [OF uc] states.renewed_from [OF dist that, of p api] failed by simp
    moreover have "ck_state ck = no_state" if "ck_id ck \<notin> ck_id ` set snap"
      using states.renew_entry(2) [OF uc] states.renewed_new [OF that, of p api] failed by simp
    ultimately show ?thesis using Inl by (auto simp: image_iff)
  qed
qed

definition demo_uptime :: "godo_check_state res \<Rightarrow> uptime_api" where
  "demo_uptime answer =
     \<lparr>ua_ctx = \<lparr>ctx_live = 9, ctx_cause = Sentinel DeadlineExceeded\<rparr>,
      ua_list = (\<lambda>k page. Inr ([\<lparr>guc_id = ''u'', guc_name = ''site'', guc_type = ''https'',
        guc_target = ''https://example.org'', guc_enabled = True\<rparr>], LastPage)),
      ua_state = (\<lambda>i. answer), ua_done = (\<lambda>i. False)\<rparr>"

definition demo_check_state :: godo_check_state where
  "demo_check_state =
     \<lparr>gcs_regions = DAList.empty,
      gcs_previous_outage = \<lparr>gou_region = '''', gou_started_at = '''', gou_duration_seconds = 0\<rparr>\<rparr>"

lemma uptime_entry_witness:
  "\<exists>old ck. refreshes (uptime_refresh (\<lambda>_. None)) [demo_uptime (Inr demo_check_state)] [] = [old] \<and>
     uptime_refresh (\<lambda>_. None) (demo_uptime (Inl (Other ''500''))) [old] = ([ck], None) \<and>
     \<not> ck_up ck \<and> ck_state ck = new_state (\<lambda>_. None) demo_check_state"
proof -
  let ?c = "new_check \<lparr>guc_id = ''u'', guc_name = ''site'', guc_type = ''https'',
        guc_target = ''https://example.org'', guc_enabled = True\<rparr>"
  define old where "old = ?c\<lparr>ck_up := True, ck_state := new_state (\<lambda>_. None) demo_check_state\<rparr>"
  define ck where "ck = ?c\<lparr>ck_state := (case previous_states [old] (ck_id ?c) of
      None \<Rightarrow> no_state | Some st \<Rightarrow> st)\<rparr>"
  have first: "refreshes (uptime_refresh (\<lambda>_. None)) [demo_uptime (Inr demo_check_state)] [] = [old]"
    by (simp add: uptime_refresh_def demo_uptime_def paging_single_page refresh_state_def
        replace_snapshot_simps old_def)
  have second: "uptime_refresh (\<lambda>_. None) (demo_uptime (Inl (Other ''500''))) [old] = ([ck], None)"
    by (simp add: uptime_refresh_def demo_uptime_def paging_single_page refresh_state_def
        replace_snapshot_simps ck_def)
  have "ua_state (demo_uptime (Inl (Other ''500''))) (ck_id ck) = Inl (Other ''500'')"
    and "ck_id old = ck_id ck"
    by (simp_all add: demo_uptime_def ck_def old_def)
  then have "\<not> ck_up ck \<and> ck_state ck = ck_state old"
    using uptime_entry [OF first [symmetric] second, of ck] by simp
  with first second show ?thesis by (intro exI [of _ old] exI [of _ ck]) (simp add: old_def)
qed

text \<open>
  A region whose thirty-day uptime the API reports as a percentage between 0 and 100 has a ratio
  between 0 and 1, rounding included.
\<close>

lemma uptime_ratio_unit:
  assumes "DAList.lookup (gcs_regions st) region = Some r"
    and "grs_uptime_percentage r = Fin a" and "0 \<le> a" and "a \<le> 100"
  shows "\<exists>q. rg_ratio (new_region_state st region) = Fin q \<and> 0 \<le> q \<and> q \<le> 1"
  using flt_div_unit [of a 100] assms by (simp add: new_region_state_def Let_def)

lemma uptime_ratio_unit_witness:
  "\<exists>q. rg_ratio (new_region_state (demo_check_state\<lparr>gcs_regions :=
       DAList.update ''eu_west'' \<lparr>grs_status = ''UP'', grs_uptime_percentage = Fin (199 / 2)\<rparr>
         DAList.empty\<rparr>) ''eu_west'') = Fin q \<and> q \<le> 1"
  using uptime_ratio_unit [of "demo_check_state\<lparr>gcs_regions :=
       DAList.update ''eu_west'' \<lparr>grs_status = ''UP'', grs_uptime_percentage = Fin (199 / 2)\<rparr>
         DAList.empty\<rparr>" "''eu_west''" "\<lparr>grs_status = ''UP'', grs_uptime_percentage = Fin (199 / 2)\<rparr>" "199 / 2"]
  by auto

end
