(* ===== verification/Projects.thy ===== *)
theory Projects
  imports Collector Counting
begin

text \<open>
  internal/collector/projects: the projects and how many resources of each type they own, counted
  from the URNs of one more list per project. A project whose resources cannot be listed keeps the
  counts it had. The snapshot is a map from id to project; here it is an association list with
  distinct keys, whose order stands for the order a map happens to be iterated in.
\<close>

section \<open>Data\<close>

record godo_project =
  gpj_id :: string
  gpj_name :: string
  gpj_purpose :: string
  gpj_environment :: string
  gpj_is_default :: bool

type_synonym type_counts = "(string \<times> float64) list"

record project =
  pj_id :: string
  pj_name :: string
  pj_purpose :: string
  pj_environment :: string
  pj_is_default :: string
  pj_counts :: type_counts
  pj_known :: bool

type_synonym project_map = "(string \<times> project) list"

definition project_info_desc :: desc where
  "project_info_desc = Desc ''digitalocean_project_info''
     [''id'', ''name'', ''purpose'', ''environment'', ''is_default'']"
definition project_resources_desc :: desc where
  "project_resources_desc =
     Desc ''digitalocean_project_resources'' [''id'', ''name'', ''type'']"

definition project_descriptors :: "desc list" where
  "project_descriptors = [project_info_desc, project_resources_desc]"

lemmas project_desc_defs = project_descriptors_def project_info_desc_def project_resources_desc_def

section \<open>Counting resources\<close>

record projects_api =
  pja_ctx :: ctx
  pja_list :: "godo_project list_func"
  pja_resources_ctx :: "string \<Rightarrow> ctx"
  pja_resources :: "string \<Rightarrow> string list_func"

definition urn_type :: "string \<Rightarrow> string" where
  "urn_type urn =
     (case split_n (CHR '':'') 3 urn of
        [scheme, kind, rest] \<Rightarrow> if scheme = ''do'' \<and> kind \<noteq> '''' then kind else ''unknown''
      | _ \<Rightarrow> ''unknown'')"

definition counts_of :: "string list \<Rightarrow> type_counts" where
  "counts_of urns = sort_key fst (tally urn_type [] urns)"

definition count_resources :: "projects_api \<Rightarrow> string \<Rightarrow> type_counts res" where
  "count_resources api i =
     and_then (fst (paging_all (pja_resources_ctx api i) ''project resources'' (\<lambda>urn. urn)
         (pja_resources api i)))
       (\<lambda>urns. Inr (counts_of urns))"

section \<open>Refresh\<close>

definition measure_project ::
  "projects_api \<Rightarrow> (string \<rightharpoonup> project) \<Rightarrow> godo_project \<Rightarrow> project \<times> goerr option" where
  "measure_project api previous p =
     (let entry = \<lparr>pj_id = gpj_id p, pj_name = gpj_name p, pj_purpose = gpj_purpose p,
                   pj_environment = gpj_environment p,
                   pj_is_default = format_bool (gpj_is_default p), pj_counts = [],
                   pj_known = False\<rparr>
      in case count_resources api (gpj_id p) of
           Inl err \<Rightarrow>
             ((case previous (gpj_id p) of
                 Some old \<Rightarrow>
                   if pj_known old then entry\<lparr>pj_counts := pj_counts old, pj_known := True\<rparr> else entry
               | None \<Rightarrow> entry), Some err)
         | Inr counts \<Rightarrow> (entry\<lparr>pj_counts := counts, pj_known := True\<rparr>, None))"

definition projects_refresh ::
  "projects_api \<Rightarrow> project_map \<Rightarrow> project_map \<times> goerr option" where
  "projects_refresh api snap =
     (case fst (paging_all (pja_ctx api) ''projects'' gpj_id (pja_list api)) of
        Inl err \<Rightarrow> (snap, Some err)
      | Inr listed \<Rightarrow>
          let measured = map (measure_project api (map_of snap)) listed;
              errs = List.map_filter snd measured;
              next' = foldl (\<lambda>m (entry, err). AList.update (pj_id entry) entry m) [] measured
          in if 0 < length errs \<and> length errs = length listed
             then (snap, Some (Wrap ''no project's resources'' [Sentinel ErrNoProjectMeasured, last errs]))
             else (next', None))"

section \<open>Collect\<close>

definition project_metrics :: "project \<Rightarrow> metric list" where
  "project_metrics p =
     gauge project_info_desc (Fin 1)
       [pj_id p, pj_name p, pj_purpose p, pj_environment p, pj_is_default p] #
     map (\<lambda>(kind, n). gauge project_resources_desc n [pj_id p, pj_name p, kind]) (pj_counts p)"

definition projects_collect :: "project_map \<Rightarrow> metric list" where
  "projects_collect snap = concat (map (\<lambda>(i, p). project_metrics p) snap)"

section \<open>The contract\<close>

lemma measure_project_id: "pj_id (fst (measure_project api previous p)) = gpj_id p"
  by (simp add: measure_project_def Let_def split: sum.split option.split)

lemma build_map:
  "distinct (map (pj_id \<circ> fst) zs) \<Longrightarrow>
     foldl (\<lambda>m (entry, err). AList.update (pj_id entry) entry m) [] zs =
     map (\<lambda>z. (pj_id (fst z), fst z)) zs"
proof (induction zs rule: rev_induct)
  case (snoc z zs)
  then show ?case by (cases z) (auto simp: update_fresh image_image)
qed simp

text \<open>What a successful Refresh has measured, and that its snapshot is just that.\<close>

lemma projects_refresh_success:
  assumes "projects_refresh api snap = (fresh, None)"
  shows "\<exists>listed. fst (paging_all (pja_ctx api) ''projects'' gpj_id (pja_list api)) = Inr listed \<and>
    distinct (map gpj_id listed) \<and>
    fresh = map (\<lambda>p. (gpj_id p, fst (measure_project api (map_of snap) p))) listed"
proof -
  obtain listed where l: "fst (paging_all (pja_ctx api) ''projects'' gpj_id (pja_list api)) = Inr listed"
    and f: "fresh = foldl (\<lambda>m (entry, err). AList.update (pj_id entry) entry m) []
      (map (measure_project api (map_of snap)) listed)"
    using assms by (auto simp: projects_refresh_def Let_def split: sum.splits if_splits)
  have dist: "distinct (map gpj_id listed)" using l by (rule paging_all_distinct)
  then have "distinct (map (pj_id \<circ> fst) (map (measure_project api (map_of snap)) listed))"
    by (simp add: comp_def measure_project_id)
  from build_map [OF this] show ?thesis
    using l dist f by (intro exI [of _ listed]) (simp add: comp_def measure_project_id)
qed

lemma projects_refresh_failure: "snd (projects_refresh api snap) = Some e \<Longrightarrow> fst (projects_refresh api snap) = snap"
  by (auto simp: projects_refresh_def Let_def split: sum.splits if_splits)

definition projects_ok :: "project_map \<Rightarrow> bool" where
  "projects_ok snap \<longleftrightarrow> distinct (map fst snap) \<and>
     (\<forall>(i, p) \<in> set snap. pj_id p = i \<and> distinct (map fst (pj_counts p)))"

lemma counts_of_distinct: "distinct (map fst (counts_of urns))"
proof -
  have "distinct (map fst (tally urn_type [] urns))" by (rule tally_distinct) simp
  moreover have "mset (counts_of urns) = mset (tally urn_type [] urns)" by (simp add: counts_of_def)
  ultimately show ?thesis by (metis distinct_map mset_eq_imp_distinct_iff set_mset_mset)
qed

lemma measure_project_distinct:
  assumes "\<And>old. previous (gpj_id p) = Some old \<Longrightarrow> distinct (map fst (pj_counts old))"
  shows "distinct (map fst (pj_counts (fst (measure_project api previous p))))"
  using assms counts_of_distinct
  by (auto simp: measure_project_def count_resources_def and_then_Inr Let_def
      split: sum.split option.split)

lemma projects_refresh_ok: "projects_ok s \<Longrightarrow> projects_ok (fst (projects_refresh env s))"
proof -
  assume ok: "projects_ok s"
  show ?thesis
  proof (cases "snd (projects_refresh env s)")
    case None
    then have "projects_refresh env s = (fst (projects_refresh env s), None)"
      by (metis prod.collapse)
    then obtain listed where "distinct (map gpj_id listed)"
      and f: "fst (projects_refresh env s) =
        map (\<lambda>p. (gpj_id p, fst (measure_project env (map_of s) p))) listed"
      using projects_refresh_success by blast
    moreover have "distinct (map fst (pj_counts old))" if "map_of s i = Some old" for i old
      using ok map_of_SomeD [OF that] by (auto simp: projects_ok_def)
    ultimately show ?thesis
      by (auto simp: projects_ok_def comp_def measure_project_id intro!: measure_project_distinct)
  qed (simp add: projects_refresh_failure ok)
qed

lemma project_metrics_distinct:
  "distinct (map fst (pj_counts p)) \<Longrightarrow> distinct (map series_of (project_metrics p))"
proof -
  assume "distinct (map fst (pj_counts p))"
  then have "no_duplicates (map (\<lambda>(kind, n). gauge project_resources_desc n [pj_id p, pj_name p, kind]) (pj_counts p))"
    by (rule no_duplicates_keyed) (simp add: inj_def)
  moreover have "no_duplicates [gauge project_info_desc (Fin 1)
      [pj_id p, pj_name p, pj_purpose p, pj_environment p, pj_is_default p]]"
    by (simp add: no_duplicates_def)
  ultimately have "no_duplicates ([gauge project_info_desc (Fin 1)
      [pj_id p, pj_name p, pj_purpose p, pj_environment p, pj_is_default p]] @
      map (\<lambda>(kind, n). gauge project_resources_desc n [pj_id p, pj_name p, kind]) (pj_counts p))"
    by (intro no_duplicates_parts) (auto simp: project_desc_defs)
  then show ?thesis by (simp add: project_metrics_def no_duplicates_def)
qed

interpretation projects:
  unique_collector projects_refresh projects_collect project_descriptors "[]" projects_ok
proof
  show "projects_ok []" "projects_collect [] = []" by (simp_all add: projects_ok_def projects_collect_def)
  show "well_described project_descriptors (projects_collect s)" for s
    by (auto simp: projects_collect_def project_metrics_def well_described_def project_desc_defs)
  show "no_duplicates (projects_collect s)" if "projects_ok s" for s
    unfolding projects_collect_def
    by (rule no_duplicates_by_id [where key = fst])
      (use that in \<open>auto simp: projects_ok_def project_metrics_distinct, auto simp: project_metrics_def\<close>)
qed (rule projects_refresh_ok)

interpretation projects_atomic:
  atomic_collector projects_refresh projects_collect project_descriptors "[]" projects_ok
  by unfold_locales (rule projects_refresh_failure)

section \<open>Properties\<close>

lemma split_three:
  "split_n c 3 s = [a, b, r] \<longleftrightarrow> s = a @ c # b @ c # r \<and> c \<notin> set a \<and> c \<notin> set b"
proof
  obtain x y f where s: "cut_at c s = (x, y, f)" by (cases "cut_at c s")
  obtain z w g where y: "cut_at c y = (z, w, g)" by (cases "cut_at c y")
  assume "split_n c 3 s = [a, b, r]"
  then have "f \<and> g \<and> a = x \<and> b = z \<and> r = w"
    using s y by (auto simp: numeral_3_eq_3 split: if_splits)
  then show "s = a @ c # b @ c # r \<and> c \<notin> set a \<and> c \<notin> set b"
    using s y cut_at_parts [of c s x y] cut_at_parts [of c y z w] by simp
next
  assume "s = a @ c # b @ c # r \<and> c \<notin> set a \<and> c \<notin> set b"
  then show "split_n c 3 s = [a, b, r]" by (simp add: numeral_3_eq_3 cut_at_found)
qed

text \<open>
  C35. The type read from a URN is the one it was written with: a type that is not \<open>unknown\<close> is read
  from exactly the URNs \<open>do:<type>:<id>\<close> with that type, which must be nonempty and hold no
  colon, while the id may hold some.
\<close>

theorem urn_roundtrip:
  assumes "kind \<noteq> ''unknown''"
  shows "urn_type urn = kind \<longleftrightarrow>
    kind \<noteq> '''' \<and> CHR '':'' \<notin> set kind \<and> (\<exists>i. urn = ''do:'' @ kind @ '':'' @ i)"
proof -
  have "urn_type urn = kind \<longleftrightarrow>
      kind \<noteq> '''' \<and> (\<exists>r. split_n (CHR '':'') 3 urn = [''do'', kind, r])"
    using assms by (auto simp: urn_type_def split: list.splits if_splits)
  then show ?thesis by (auto simp: split_three)
qed

lemma urn_roundtrip_witness: "urn_type ''do:space:fra1:my:bucket'' = ''space''"
  using urn_roundtrip [of "''space''" "''do:space:fra1:my:bucket''"] by simp

lemma tally_perm:
  assumes "mset xs = mset ys" and "length xs < 2 ^ 53"
  shows "map_of (tally key [] xs) = map_of (tally key [] ys)"
proof
  have "length ys < 2 ^ 53" using assms by (metis mset_eq_length)
  moreover have "count_list (map key xs) k = count_list (map key ys) k" for k
    using assms(1) by (metis count_mset mset_map count_list_eq_length_filter)
  moreover have "set xs = set ys" using assms(1) by (rule mset_eq_setD)
  ultimately show "map_of (tally key [] xs) k = map_of (tally key [] ys) k" for k
    using assms(2) by (simp add: tally_lookup)
qed

text \<open>
  The counts of a project add up to the number of its resources, a resource of another shape
  counting as \<open>unknown\<close>, and they do not depend on the order the API lists the resources in.
\<close>

lemma projects_counted:
  assumes "length urns < 2 ^ 53"
  shows "sum_list (map (\<lambda>(kind, n). counted n) (counts_of urns)) = of_nat (length urns) \<and>
    map_of (counts_of urns) kind =
      (if kind \<in> urn_type ` set urns
       then Some (Fin (of_nat (count_list (map urn_type urns) kind))) else None) \<and>
    (mset urns' = mset urns \<longrightarrow> counts_of urns' = counts_of urns)"
proof -
  have dist: "distinct (map fst (tally urn_type [] xs))" for xs by (rule tally_distinct) simp
  have same: "map_of (counts_of xs) = map_of (tally urn_type [] xs)" for xs
    unfolding counts_of_def using dist [of xs]
    by (metis map_of_inject_set counts_of_def counts_of_distinct set_sort)
  have "mset (counts_of urns) = mset (tally urn_type [] urns)" by (simp add: counts_of_def)
  then have "mset (map (\<lambda>(kind, n). counted n) (counts_of urns)) =
      mset (map (\<lambda>(kind, n). counted n) (tally urn_type [] urns))" by simp
  then have "sum_list (map (\<lambda>(kind, n). counted n) (counts_of urns)) = of_nat (length urns)"
    using tally_sum [OF assms, of "[]" urn_type] by (metis sum_mset_sum_list case_prodI2 distinct.simps(1) empty_iff list.map(1) list.set(1))
  moreover have "counts_of urns' = counts_of urns" if "mset urns' = mset urns"
  proof (rule map_sorted_distinct_set_unique [where f = fst])
    have "map_of (counts_of urns') = map_of (counts_of urns)"
      using tally_perm [OF that [symmetric] assms, of urn_type] same by metis
    then have s: "set (counts_of urns') = set (counts_of urns)"
      using counts_of_distinct by (metis map_of_inject_set)
    then show "set (counts_of urns') = set (counts_of urns)" .
    show "inj_on fst (set (counts_of urns') \<union> set (counts_of urns))"
      using s counts_of_distinct [of urns] by (simp add: distinct_map)
  qed (simp_all add: counts_of_distinct, simp_all add: counts_of_def)
  ultimately show ?thesis using tally_lookup [OF assms, of "[]" urn_type kind] same by simp
qed

lemma projects_counted_witness:
  "map_of (counts_of [''do:droplet:1'', ''do:volume:x'', ''do:droplet:2'', ''other'']) ''droplet'' = Some (Fin 2) \<and>
   counts_of [''do:droplet:1'', ''do:volume:x''] = counts_of [''do:volume:x'', ''do:droplet:1'']"
proof -
  have t: "urn_type ''do:droplet:1'' = ''droplet''" "urn_type ''do:droplet:2'' = ''droplet''"
    "urn_type ''do:volume:x'' = ''volume''" "urn_type ''other'' = ''unknown''"
    by (simp_all add: urn_type_def numeral_3_eq_3)
  show ?thesis
  proof
    show "map_of (counts_of [''do:droplet:1'', ''do:volume:x'', ''do:droplet:2'', ''other'']) ''droplet'' = Some (Fin 2)"
      using projects_counted [of "[''do:droplet:1'', ''do:volume:x'', ''do:droplet:2'', ''other'']" "''droplet''", THEN conjunct2, THEN conjunct1]
      by (simp add: t)
    show "counts_of [''do:droplet:1'', ''do:volume:x''] = counts_of [''do:volume:x'', ''do:droplet:1'']"
      by (rule projects_counted [THEN conjunct2, THEN conjunct2, rule_format]) simp_all
  qed
qed

text \<open>
  C36. After a refresh of the projects that succeeds, a project whose resources could be listed has
  the counts of that list, and one whose resources could not has those of the previous snapshot, or
  none where it had none; and unless there is no project, some project's resources were listed.
\<close>

theorem projects_entry:
  assumes "projects_refresh api snap = (fresh, None)" and "(i, p) \<in> set fresh"
  shows "(case count_resources api i of
      Inr counts \<Rightarrow> pj_known p \<and> pj_counts p = counts
    | Inl e \<Rightarrow>
        (case map_of snap i of
           Some old \<Rightarrow> pj_known p = pj_known old \<and>
             pj_counts p = (if pj_known old then pj_counts old else [])
         | None \<Rightarrow> \<not> pj_known p \<and> pj_counts p = [])) \<and>
    (\<exists>(j, q) \<in> set fresh. \<not> isl_err (count_resources api j))"
proof -
  obtain listed where l: "fst (paging_all (pja_ctx api) ''projects'' gpj_id (pja_list api)) = Inr listed"
    and f: "fresh = map (\<lambda>p. (gpj_id p, fst (measure_project api (map_of snap) p))) listed"
    using projects_refresh_success [OF assms(1)] by blast
  have err: "snd (measure_project api prev q) = None \<longleftrightarrow> \<not> isl_err (count_resources api (gpj_id q))" for prev q
    by (simp add: measure_project_def Let_def isl_err_def split: sum.split)
  have "\<exists>q \<in> set listed. \<not> isl_err (count_resources api (gpj_id q))"
  proof (rule ccontr)
    assume "\<not> ?thesis"
    then have all: "snd (measure_project api (map_of snap) q) \<noteq> None" if "q \<in> set listed" for q
      using that err by blast
    have len: "set qs \<subseteq> set listed \<Longrightarrow>
      length (List.map_filter snd (map (measure_project api (map_of snap)) qs)) = length qs" for qs
      using all by (induction qs) (auto simp: map_filter_simps split: option.splits)
    have "0 < length listed" using assms(2) f by auto
    then have "snd (projects_refresh api snap) \<noteq> None"
      using l len [OF subset_refl] by (simp add: projects_refresh_def Let_def del: length_0_conv length_greater_0_conv)
    with assms(1) show False by simp
  qed
  then have "\<exists>(j, q) \<in> set fresh. \<not> isl_err (count_resources api j)" by (auto simp: f)
  moreover obtain g where "i = gpj_id g" "p = fst (measure_project api (map_of snap) g)"
    using assms(2) f by auto
  ultimately show ?thesis
    by (auto simp: measure_project_def Let_def split: sum.split option.split)
qed

definition demo_project :: "string \<Rightarrow> godo_project" where
  "demo_project i =
     \<lparr>gpj_id = i, gpj_name = i, gpj_purpose = '''', gpj_environment = '''', gpj_is_default = False\<rparr>"

definition demo_projects :: projects_api where
  "demo_projects =
     (let c = \<lparr>ctx_live = 9, ctx_cause = Sentinel DeadlineExceeded\<rparr>
      in \<lparr>pja_ctx = c, pja_list = (\<lambda>k page. Inr ([demo_project ''a'', demo_project ''b''], LastPage)),
          pja_resources_ctx = (\<lambda>i. c),
          pja_resources = (\<lambda>i k page. if i = ''a'' then Inl (Other ''500'')
                                      else Inr ([''do:droplet:1''], LastPage))\<rparr>)"

lemma demo_project_lookups:
  "\<exists>e. count_resources demo_projects ''a'' = Inl e"
  "count_resources demo_projects ''b'' = Inr (counts_of [''do:droplet:1''])"
proof -
  have "fst (paging_all (pja_resources_ctx demo_projects ''a'') ''project resources'' (\<lambda>urn. urn)
      (pja_resources demo_projects ''a'')) = Inl (Wrap (''list '' @ ''project resources'') [Other ''500''])"
    unfolding paging_all_def
    by (subst all_loop_failed) (simp_all add: demo_projects_def Let_def ctx_err_def)
  then show "\<exists>e. count_resources demo_projects ''a'' = Inl e" by (simp add: count_resources_def)
  show "count_resources demo_projects ''b'' = Inr (counts_of [''do:droplet:1''])"
    by (simp add: count_resources_def demo_projects_def Let_def paging_single_page)
qed

definition demo_stored :: project where
  "demo_stored =
     \<lparr>pj_id = ''a'', pj_name = ''a'', pj_purpose = '''', pj_environment = '''', pj_is_default = ''false'',
      pj_counts = [(''droplet'', Fin 2)], pj_known = True\<rparr>"

lemma projects_entry_witness:
  "\<exists>fresh p. projects_refresh demo_projects [(''a'', demo_stored)] = (fresh, None) \<and>
     (''a'', p) \<in> set fresh \<and> pj_known p \<and> pj_counts p = [(''droplet'', Fin 2)]"
proof -
  let ?m = "measure_project demo_projects (map_of [(''a'', demo_stored)])"
  obtain e where e: "count_resources demo_projects ''a'' = Inl e" using demo_project_lookups(1) by blast
  have ids: "gpj_id (demo_project i) = i" for i by (simp add: demo_project_def)
  have errs: "snd (?m (demo_project ''a'')) = Some e" "snd (?m (demo_project ''b'')) = None"
    by (simp_all add: measure_project_def ids e demo_project_lookups Let_def)
  have "fst (paging_all (pja_ctx demo_projects) ''projects'' gpj_id (pja_list demo_projects)) =
      Inr [demo_project ''a'', demo_project ''b'']"
    by (simp add: demo_projects_def Let_def paging_single_page ids)
  with errs have r: "projects_refresh demo_projects [(''a'', demo_stored)] =
      ([(''a'', fst (?m (demo_project ''a''))), (''b'', fst (?m (demo_project ''b'')))], None)"
    by (simp add: projects_refresh_def Let_def map_filter_simps measure_project_id ids case_prod_beta)
  have "pj_known (fst (?m (demo_project ''a''))) \<and>
      pj_counts (fst (?m (demo_project ''a''))) = [(''droplet'', Fin 2)]"
    using projects_entry [OF r, of "''a''"] e by (simp add: demo_stored_def)
  with r show ?thesis by (intro exI conjI) auto
qed

end
