(* ===== verification/Spacesclient.thy ===== *)
theory Spacesclient
  imports Go_Strings
begin

text \<open>
  internal/spacesclient: the client a region gets, built once and kept, and a bucket's usage read
  off the headers of a HEAD request. The S3 library is a parameter: a client is the options it
  was built with, and a HEAD answers headers or an error with its HTTP status, if it has one.
\<close>

record s3_client =
  s3_region :: string
  s3_endpoint :: string
  s3_access_key :: string
  s3_secret_key :: string
  s3_path_style :: bool

record client_factory =
  fy_access_key :: string
  fy_secret_key :: string
  fy_endpoint :: string
  fy_clients :: "string \<rightharpoonup> s3_client"

definition new_factory :: "string \<Rightarrow> string \<Rightarrow> string \<Rightarrow> client_factory" where
  "new_factory access_key secret_key endpoint =
     \<lparr>fy_access_key = access_key, fy_secret_key = secret_key, fy_endpoint = endpoint,
      fy_clients = Map.empty\<rparr>"

definition endpoint_for :: "client_factory \<Rightarrow> string \<Rightarrow> string" where
  "endpoint_for f region =
     (if fy_endpoint f \<noteq> '''' then fy_endpoint f
      else ''https://'' @ region @ ''.digitaloceanspaces.com'')"

definition factory_client :: "string \<Rightarrow> client_factory \<Rightarrow> s3_client \<times> client_factory" where
  "factory_client region f =
     (case fy_clients f region of
        Some client \<Rightarrow> (client, f)
      | None \<Rightarrow>
          (let client = \<lparr>s3_region = region, s3_endpoint = endpoint_for f region,
                         s3_access_key = fy_access_key f, s3_secret_key = fy_secret_key f,
                         s3_path_style = True\<rparr>
           in (client, f\<lparr>fy_clients := (fy_clients f)(region \<mapsto> client)\<rparr>)))"

record usage =
  us_objects :: int
  us_bytes :: int

definition object_count_header :: string where "object_count_header = ''x-rgw-object-count''"
definition bytes_used_header :: string where "bytes_used_header = ''x-rgw-bytes-used''"

text \<open>A HEAD's error comes with the status of the response, where there was one.\<close>

datatype head_answer = HeadFailed goerr "int option" | HeadOk "string \<Rightarrow> string"

definition usage_header :: "(string \<Rightarrow> string) \<Rightarrow> string \<Rightarrow> int res" where
  "usage_header header name =
     (if header name = '''' then Inl (Wrap (name @ '' is missing'') [Sentinel ErrNoUsage])
      else case atoi (header name) of
             None \<Rightarrow> Inl (Wrap (''parse '' @ name) [Other (header name)])
           | Some value \<Rightarrow> Inr value)"

definition bucket_usage :: "(string \<Rightarrow> head_answer) \<Rightarrow> string \<Rightarrow> usage res" where
  "bucket_usage head bucket =
     (case head bucket of
        HeadFailed e status \<Rightarrow>
          if status = Some 403
          then Inl (Wrap (''head bucket '' @ bucket @
                 '' (no read grant for the bucket, or an invalid key pair)'') [e])
          else Inl (Wrap (''head bucket '' @ bucket) [e])
      | HeadOk header \<Rightarrow>
          and_then (usage_header header object_count_header) (\<lambda>objects.
          and_then (usage_header header bytes_used_header) (\<lambda>bytes.
            Inr \<lparr>us_objects = objects, us_bytes = bytes\<rparr>)))"

text \<open>The clients handed out so far are kept, and each addresses the region it was asked for.\<close>

definition factory_ok :: "client_factory \<Rightarrow> bool" where
  "factory_ok f \<longleftrightarrow>
     (\<forall>region client. fy_clients f region = Some client \<longrightarrow>
        s3_region client = region \<and> s3_endpoint client = endpoint_for f region)"

lemma factory_client_ok:
  assumes "factory_ok f" and "factory_client region f = (client, f')"
  shows "factory_ok f'" and "s3_region client = region" and "fy_clients f' region = Some client"
    and "fy_clients f \<subseteq>\<^sub>m fy_clients f'"
  using assms
  by (auto simp: factory_client_def factory_ok_def endpoint_for_def Let_def map_le_def
      split: option.splits if_splits)

lemma factory_client_same:
  "factory_client region f = (client, f') \<Longrightarrow> fy_clients f' \<subseteq>\<^sub>m fy_clients f'' \<Longrightarrow>
     fst (factory_client region f'') = client"
proof -
  assume a: "factory_client region f = (client, f')" and le: "fy_clients f' \<subseteq>\<^sub>m fy_clients f''"
  from a have "fy_clients f' region = Some client"
    by (auto simp: factory_client_def Let_def split: option.splits)
  with le have "fy_clients f'' region = Some client" by (metis domI map_le_def)
  then show ?thesis by (simp add: factory_client_def)
qed

lemma bucket_usage_cases:
  "bucket_usage head bucket = Inr u \<longleftrightarrow>
     (\<exists>header. head bucket = HeadOk header \<and> header object_count_header \<noteq> '''' \<and>
        header bytes_used_header \<noteq> '''' \<and> atoi (header object_count_header) = Some (us_objects u) \<and>
        atoi (header bytes_used_header) = Some (us_bytes u))"
  by (auto simp: bucket_usage_def usage_header_def and_then_Inr
      split: head_answer.splits option.splits if_splits intro: usage.equality)

end
