(* ===== verification/Spaces.thy ===== *)
theory Spaces
  imports Collector Spacesclient "HOL-Library.AList"
begin

text \<open>
  internal/collector/spaces: configured or discovered buckets, the memory of where discovered
  ones were measured, measurement, merge and report. The snapshot is a map from bucket to its
  figures; here it is an association list with distinct keys, whose order stands for the order
  a map happens to be iterated in. Every bucket is measured by a goroutine of its own that writes
  its own element of the results, so their interleaving is not modelled. The environment answers
  the listing of a region, the location of a name and the HEAD of a bucket in a region.
\<close>

section \<open>Data\<close>

type_synonym bucket = "string \<times> string"

record bucket_stats =
  bs_size :: float64
  bs_objects :: float64
  bs_up :: bool
  bs_known :: bool

definition zero_stats :: bucket_stats where
  "zero_stats = \<lparr>bs_size = Fin 0, bs_objects = Fin 0, bs_up = False, bs_known = False\<rparr>"

record spaces_collector =
  so_buckets :: "bucket list"
  so_region :: string
  so_concurrency :: int
  so_snap :: "(bucket \<times> bucket_stats) list"
  so_located :: "string \<rightharpoonup> string"

definition new_spaces :: "bucket list \<Rightarrow> string \<Rightarrow> int \<Rightarrow> spaces_collector" where
  "new_spaces buckets region concurrency =
     \<lparr>so_buckets = buckets, so_region = region,
      so_concurrency = (if concurrency < 1 then 1 else concurrency), so_snap = [],
      so_located = Map.empty\<rparr>"

record spaces_env =
  se_list :: "string \<Rightarrow> string option list res"
  se_location :: "string \<Rightarrow> string res"
  se_head :: "string \<Rightarrow> string \<Rightarrow> head_answer"

record bucket_result =
  br_bucket :: bucket
  br_size :: float64
  br_objects :: float64
  br_err :: "goerr option"

definition spaces_size_desc :: desc where
  "spaces_size_desc = Desc ''digitalocean_spaces_bucket_size_bytes'' [''bucket'', ''region'']"
definition spaces_objects_desc :: desc where
  "spaces_objects_desc = Desc ''digitalocean_spaces_bucket_objects'' [''bucket'', ''region'']"
definition spaces_up_desc :: desc where
  "spaces_up_desc = Desc ''digitalocean_spaces_bucket_up'' [''bucket'', ''region'']"

definition spaces_descriptors :: "desc list" where
  "spaces_descriptors = [spaces_size_desc, spaces_objects_desc, spaces_up_desc]"

lemmas spaces_desc_defs = spaces_descriptors_def spaces_size_desc_def spaces_objects_desc_def
  spaces_up_desc_def

section \<open>Which buckets\<close>

definition discovering :: "spaces_collector \<Rightarrow> bool" where
  "discovering c = (so_buckets c = [])"

definition locate :: "spaces_env \<Rightarrow> spaces_collector \<Rightarrow> string \<Rightarrow> string res" where
  "locate env c name =
     (case se_location env name of
        Inl e \<Rightarrow> Inl (Wrap (''locate bucket '' @ name) [e])
      | Inr region \<Rightarrow> Inr (if region \<noteq> '''' then region else so_region c))"

definition region_of :: "spaces_env \<Rightarrow> spaces_collector \<Rightarrow> string \<Rightarrow> string" where
  "region_of env c name =
     (case so_located c name of
        Some region \<Rightarrow> region
      | None \<Rightarrow> (case locate env c name of Inl e \<Rightarrow> so_region c | Inr region \<Rightarrow> region))"

definition discover :: "spaces_env \<Rightarrow> spaces_collector \<Rightarrow> bucket list res" where
  "discover env c =
     (case se_list env (so_region c) of
        Inl e \<Rightarrow> Inl (Wrap ''list buckets'' [e])
      | Inr names \<Rightarrow>
          Inr (map (\<lambda>b. let name = (case b of None \<Rightarrow> '''' | Some n \<Rightarrow> n)
                        in (name, region_of env c name)) names))"

definition resolve_buckets :: "spaces_env \<Rightarrow> spaces_collector \<Rightarrow> bucket list res" where
  "resolve_buckets env c =
     (if \<not> discovering c
      then Inr (map (\<lambda>(name, region). (name, if region = '''' then so_region c else region))
                  (so_buckets c))
      else discover env c)"

section \<open>Measurement, merge and report\<close>

definition measure_bucket :: "spaces_env \<Rightarrow> bucket \<Rightarrow> bucket_result" where
  "measure_bucket env b =
     (case bucket_usage (se_head env (snd b)) (fst b) of
        Inl e \<Rightarrow> \<lparr>br_bucket = b, br_size = of_int64 0, br_objects = of_int64 0, br_err = Some e\<rparr>
      | Inr u \<Rightarrow> \<lparr>br_bucket = b, br_size = of_int64 (us_bytes u),
                   br_objects = of_int64 (us_objects u), br_err = None\<rparr>)"

definition spaces_measure_all :: "spaces_env \<Rightarrow> bucket list \<Rightarrow> bucket_result list" where
  "spaces_measure_all env buckets = map (measure_bucket env) buckets"

definition merged_stats :: "(bucket \<rightharpoonup> bucket_stats) \<Rightarrow> bucket_result \<Rightarrow> bucket_stats" where
  "merged_stats snap r =
     (case br_err r of
        None \<Rightarrow> \<lparr>bs_size = br_size r, bs_objects = br_objects r, bs_up = True, bs_known = True\<rparr>
      | Some e \<Rightarrow>
          (case snap (br_bucket r) of None \<Rightarrow> zero_stats | Some s \<Rightarrow> s)\<lparr>bs_up := False\<rparr>)"

definition spaces_merge :: "bucket_result list \<Rightarrow> spaces_collector \<Rightarrow> spaces_collector" where
  "spaces_merge results c =
     c\<lparr>so_snap :=
         foldl (\<lambda>next r. AList.update (br_bucket r) (merged_stats (map_of (so_snap c)) r) next)
           [] results\<rparr>"

definition remember_regions :: "bucket_result list \<Rightarrow> spaces_collector \<Rightarrow> spaces_collector" where
  "remember_regions results c =
     c\<lparr>so_located :=
         foldl (\<lambda>m r. if br_err r = None then m(fst (br_bucket r) \<mapsto> snd (br_bucket r)) else m)
           Map.empty results\<rparr>"

definition spaces_report :: "bucket_result list \<Rightarrow> goerr option" where
  "spaces_report results =
     (let failed = length (filter (\<lambda>r. br_err r \<noteq> None) results)
      in if failed > 0 \<and> failed = length results
         then Some (Wrap (itoa (int failed) @ '' attempted, last error'')
                (Sentinel ErrNoBucketMeasured #
                 (case br_err (last results) of None \<Rightarrow> [] | Some e \<Rightarrow> [e])))
         else None)"

definition spaces_refresh :: "spaces_env \<Rightarrow> spaces_collector \<Rightarrow> spaces_collector \<times> goerr option" where
  "spaces_refresh env c =
     (case resolve_buckets env c of
        Inl e \<Rightarrow> (c, Some e)
      | Inr buckets \<Rightarrow>
          (let results = spaces_measure_all env buckets;
               c1 = spaces_merge results c;
               c2 = (if discovering c then remember_regions results c1 else c1)
           in (c2, spaces_report results)))"

definition bucket_metrics :: "bucket \<times> bucket_stats \<Rightarrow> metric list" where
  "bucket_metrics e =
     (case e of
        ((name, region), s) \<Rightarrow>
          gauge spaces_up_desc (bool_to_float (bs_up s)) [name, region] #
          (if \<not> bs_known s then []
           else [gauge spaces_size_desc (bs_size s) [name, region],
                 gauge spaces_objects_desc (bs_objects s) [name, region]]))"

definition spaces_collect :: "spaces_collector \<Rightarrow> metric list" where
  "spaces_collect c = concat (map bucket_metrics (so_snap c))"

section \<open>The contract\<close>

definition spaces_ok :: "spaces_collector \<Rightarrow> bool" where
  "spaces_ok c = distinct (map fst (so_snap c))"

lemma distinct_merge:
  "distinct (map fst next) \<Longrightarrow>
     distinct (map fst (foldl (\<lambda>next r. AList.update (key r) (val r) next) next results))"
  by (induction results arbitrary: "next") (simp_all add: distinct_update)

lemma spaces_refresh_ok: "spaces_ok c \<Longrightarrow> spaces_ok (fst (spaces_refresh env c))"
  by (auto simp: spaces_refresh_def spaces_ok_def spaces_merge_def remember_regions_def Let_def
      distinct_merge split: sum.splits)

lemma bucket_metrics_described: "well_described spaces_descriptors (bucket_metrics e)"
  by (auto simp: bucket_metrics_def spaces_desc_defs split: prod.splits)

definition bucket_owner :: "metric \<Rightarrow> bucket" where
  "bucket_owner m = (m_labels m ! 0, m_labels m ! 1)"

lemma spaces_collect_unique: "spaces_ok c \<Longrightarrow> no_duplicates (spaces_collect c)"
  unfolding spaces_collect_def spaces_ok_def
proof (rule no_duplicates_blocks [where key = fst and owner = bucket_owner])
  show "distinct (map series_of (bucket_metrics e))" for e
    by (auto simp: bucket_metrics_def spaces_desc_defs split: prod.splits)
  show "bucket_owner m = fst e" if "m \<in> set (bucket_metrics e)" for e m
    using that by (auto simp: bucket_metrics_def bucket_owner_def split: prod.splits if_splits)
  show "bucket_owner m = bucket_owner n" if "series_of m = series_of n" for m n
    using that by (simp add: series_of_def bucket_owner_def)
qed

interpretation spaces:
  unique_collector spaces_refresh spaces_collect spaces_descriptors "new_spaces bs region n"
    spaces_ok for bs region n
  by unfold_locales
    (simp_all add: spaces_refresh_ok spaces_collect_unique,
      simp_all add: spaces_ok_def new_spaces_def spaces_collect_def well_described_concat_map
        bucket_metrics_described)

section \<open>Properties\<close>

lemma br_bucket_measure [simp]: "br_bucket (measure_bucket env b) = b"
  by (simp add: measure_bucket_def split: sum.splits)

lemma merge_lookup:
  "map_of (foldl (\<lambda>next r. AList.update (br_bucket r) (val r) next) next
     (map (measure_bucket env) bs)) b =
   (if b \<in> set bs then Some (val (measure_bucket env b)) else map_of next b)"
  by (induction bs arbitrary: "next") (auto simp: update_conv)

text \<open>
  C25. The snapshot after a refresh of the Spaces collector holds exactly the buckets of that
  refresh, each with the figures just read, or, where it could not be read, the figures it had,
  marked down; a bucket never measured carries no figures, which Collect then does not send. So
  an unreadable bucket never blanks another.
\<close>

theorem spaces_entry:
  assumes "resolve_buckets env c = Inr buckets"
  shows "map_of (so_snap (fst (spaces_refresh env c))) (name, region) =
    (if (name, region) \<in> set buckets
     then Some (case bucket_usage (se_head env region) name of
                  Inr u \<Rightarrow> \<lparr>bs_size = of_int64 (us_bytes u), bs_objects = of_int64 (us_objects u),
                            bs_up = True, bs_known = True\<rparr>
                | Inl e \<Rightarrow> (case map_of (so_snap c) (name, region) of
                            None \<Rightarrow> zero_stats | Some s \<Rightarrow> s)\<lparr>bs_up := False\<rparr>)
     else None)"
  using assms
  by (simp add: spaces_refresh_def spaces_merge_def remember_regions_def Let_def spaces_measure_all_def
      merge_lookup) (simp add: merged_stats_def measure_bucket_def split: sum.splits)

definition demo_spaces_env :: spaces_env where
  "demo_spaces_env =
     \<lparr>se_list = (\<lambda>r. Inr [Some ''a'', Some ''b'']), se_location = (\<lambda>n. Inr ''fra1''),
      se_head = (\<lambda>r n. if n = ''a'' then HeadOk (\<lambda>h. ''7'') else HeadFailed (Other ''403'') (Some 403))\<rparr>"

lemma seven: "atoi ''7'' = Some 7"
  by code_simp

lemma spaces_entry_witness:
  "map_of (so_snap (fst (spaces_refresh demo_spaces_env (new_spaces [] ''ams3'' 4)))) (''a'', ''fra1'') =
     Some \<lparr>bs_size = of_int64 7, bs_objects = of_int64 7, bs_up = True, bs_known = True\<rparr>"
proof -
  have r: "resolve_buckets demo_spaces_env (new_spaces [] ''ams3'' 4) = Inr [(''a'', ''fra1''), (''b'', ''fra1'')]"
    by (simp add: resolve_buckets_def discovering_def discover_def region_of_def locate_def
        demo_spaces_env_def new_spaces_def)
  show ?thesis
    by (subst spaces_entry [OF r])
      (simp add: demo_spaces_env_def bucket_usage_def usage_header_def seven)
qed

lemma remembered:
  "distinct (map fst bs) \<Longrightarrow>
     foldl (\<lambda>m r. if br_err r = None then m(fst (br_bucket r) \<mapsto> snd (br_bucket r)) else m) Map.empty
       (map (measure_bucket env) bs) name = Some region \<longleftrightarrow>
     (name, region) \<in> set bs \<and> br_err (measure_bucket env (name, region)) = None"
proof (induction bs rule: rev_induct)
  case (snoc b bs)
  have "fst b \<notin> fst ` set bs" using snoc.prems by simp
  then have "(name, region) \<in> set bs \<Longrightarrow> name \<noteq> fst b" by (metis fst_conv image_eqI)
  then show ?case using snoc by (cases b) auto
qed simp

text \<open>
  What discovery remembers is what was proved right: after a refresh that discovered its
  buckets, a bucket is remembered in a region exactly when it was measured there without an
  error, so one that failed, or that is gone, is located again by the next refresh.
\<close>

lemma spaces_remembers:
  assumes "discovering c" and "resolve_buckets env c = Inr buckets" and "distinct (map fst buckets)"
  shows "so_located (fst (spaces_refresh env c)) name = Some region \<longleftrightarrow>
    (name, region) \<in> set buckets \<and> (\<exists>u. bucket_usage (se_head env region) name = Inr u)"
proof -
  have "br_err (measure_bucket env (name, region)) = None \<longleftrightarrow>
      (\<exists>u. bucket_usage (se_head env region) name = Inr u)"
    by (simp add: measure_bucket_def split: sum.splits)
  then show ?thesis
    using assms remembered [OF assms(3), of env name region]
    by (simp add: spaces_refresh_def remember_regions_def Let_def spaces_measure_all_def)
qed

lemma spaces_remembers_witness:
  "so_located (fst (spaces_refresh demo_spaces_env (new_spaces [] ''ams3'' 4))) ''b'' \<noteq> Some ''fra1''"
proof -
  have "discovering (new_spaces [] ''ams3'' 4)" by (simp add: discovering_def new_spaces_def)
  moreover have "resolve_buckets demo_spaces_env (new_spaces [] ''ams3'' 4) =
      Inr [(''a'', ''fra1''), (''b'', ''fra1'')]"
    by (simp add: resolve_buckets_def discovering_def discover_def region_of_def locate_def
        demo_spaces_env_def new_spaces_def)
  ultimately show ?thesis
    using spaces_remembers [of "new_spaces [] ''ams3'' 4" demo_spaces_env _ "''b''" "''fra1''"]
    by (simp add: demo_spaces_env_def bucket_usage_def)
qed

end
