(* ===== verification/Version.thy ===== *)
theory Version
  imports Metrics
begin

text \<open>
  internal/version: the line \<open>--version\<close> prints and the build metadata metric. The two variables
  are set at link time and the Go version is the toolchain's, so all three are arguments.
\<close>

definition version_line :: "string \<Rightarrow> string \<Rightarrow> string \<Rightarrow> string" where
  "version_line version commit goversion =
     ''digitalocean_exporter, version '' @ version @ '' (commit '' @ commit @ '', '' @ goversion @ '')''"

definition build_info_desc :: desc where
  "build_info_desc =
     Desc ''digitalocean_exporter_build_info'' [''version'', ''commit'', ''goversion'']"

definition build_info_collect :: "string \<Rightarrow> string \<Rightarrow> string \<Rightarrow> metric list" where
  "build_info_collect version commit goversion =
     [gauge build_info_desc (Fin 1) [version, commit, goversion]]"

lemma build_info_contract:
  "well_described [build_info_desc] (build_info_collect v c g)"
  "no_duplicates (build_info_collect v c g)"
  by (simp_all add: build_info_collect_def build_info_desc_def no_duplicates_def)

end
