(* ===== verification/Fleet.thy ===== *)
theory Fleet
  imports Exporter Hosting Account_Collectors Resource_Lists Edge_Lists Loadbalancers Apps
    Counted_Lists Droplets Kubernetes Databases Registry Uptime Projects Spaces Version
begin

text \<open>
  The exporter with every collector built: registerCollectors and newSpaces of
  cmd/digitalocean_exporter/main.go over the models of all twenty-three collectors, each with its
  New, Name and Describe. The scheduler's collectors share the state type \<open>fleet_state\<close>, one
  constructor per collector, and the record \<open>world\<close> of what the APIs answer. \<open>pt\<close> and \<open>pf\<close> are
  \<open>time.Parse\<close> and \<open>strconv.ParseFloat\<close>. The laws of every collector's interpretation are
  put together here, and the properties are about whole runs of the exporter.
\<close>

section \<open>One state type and one world\<close>

text \<open>What is kept by whichever collector, in the order of the table.\<close>

datatype fleet_state =
    AccountState (of_account: "account option")
  | BalanceState (of_balance: "balance option")
  | DatabasesState (of_databases: "db_cluster list")
  | DropletsState (of_droplets: "droplet list")
  | AutoscaleState (of_autoscale: "api_pool list")
  | ImagesState (of_images: "image_snapshot option")
  | KubernetesState (of_kubernetes: "cluster list")
  | LimitsState (of_limits: "limits option")
  | RegistryState (of_registry: "registry_snapshot option")
  | Reserved_IPsState (of_reserved_ips: "ip_snapshot option")
  | SpacesState (of_spaces: "spaces_collector")
  | VolumesState (of_volumes: "volume list")
  | BalancersState (of_balancers: "balancer list")
  | CDNState (of_cdn: "endpoint list")
  | AppsState (of_apps: "app list")
  | DomainsState (of_domains: "domain list")
  | FirewallsState (of_firewalls: "firewall list")
  | CertificatesState (of_certificates: "certificate list")
  | TagsState (of_tags: "tag list")
  | ProjectsState (of_projects: "project_map")
  | Droplet_MetricsState (of_droplet_metrics: "dm_collector")
  | Balancer_MetricsState (of_balancer_metrics: "lb_collector")
  | UptimeState (of_uptime: "check list")

text \<open>What the APIs answer to each collector during one refresh.\<close>

record 'req world =
  w_account :: "godo_account res"
  w_balance :: "godo_balance res"
  w_databases :: "db_api"
  w_droplets :: "droplet_api"
  w_dropletautoscale :: "'req autoscale_api"
  w_images :: "images_api"
  w_kubernetes :: "k8s_api"
  w_limits :: "limits_api"
  w_registry :: "registry_api"
  w_reservedips :: "ips_api"
  w_spaces :: "spaces_env"
  w_volumes :: "godo_volume listing_api"
  w_loadbalancers :: "godo_balancer listing_api"
  w_cdn :: "godo_cdn listing_api"
  w_apps :: "godo_app option listing_api"
  w_domains :: "godo_domain listing_api"
  w_firewalls :: "godo_firewall listing_api"
  w_certificates :: "godo_certificate listing_api"
  w_tags :: "godo_tag listing_api"
  w_projects :: "projects_api"
  w_dropletmetrics :: "dm_env"
  w_loadbalancermetrics :: "lb_env"
  w_uptime :: "uptime_api"

text \<open>
  The state that belongs to the collector of a name: its own constructor, around a snapshot that
  meets the collector's invariant.
\<close>

primrec belongs :: "string \<Rightarrow> fleet_state \<Rightarrow> bool" where
  "belongs name (AccountState s) \<longleftrightarrow> name = ''account''"
| "belongs name (BalanceState s) \<longleftrightarrow> name = ''balance''"
| "belongs name (DatabasesState s) \<longleftrightarrow> name = ''databases'' \<and> databases_ok s"
| "belongs name (DropletsState s) \<longleftrightarrow> name = ''droplets'' \<and> droplets_ok s"
| "belongs name (AutoscaleState s) \<longleftrightarrow> name = ''dropletautoscale'' \<and> autoscale_list.snapshot_ok s"
| "belongs name (ImagesState s) \<longleftrightarrow> name = ''images'' \<and> images_ok s"
| "belongs name (KubernetesState s) \<longleftrightarrow> name = ''kubernetes'' \<and> k8s_ok s"
| "belongs name (LimitsState s) \<longleftrightarrow> name = ''limits''"
| "belongs name (RegistryState s) \<longleftrightarrow> name = ''registry'' \<and> registry_ok s"
| "belongs name (Reserved_IPsState s) \<longleftrightarrow> name = ''reservedips'' \<and> ips_ok s"
| "belongs name (SpacesState s) \<longleftrightarrow> name = ''spaces'' \<and> spaces_ok s"
| "belongs name (VolumesState s) \<longleftrightarrow> name = ''volumes'' \<and> volumes.snapshot_ok s"
| "belongs name (BalancersState s) \<longleftrightarrow> name = ''loadbalancers'' \<and> balancers.idents_ok s"
| "belongs name (CDNState s) \<longleftrightarrow> name = ''cdn'' \<and> cdn.snapshot_ok s"
| "belongs name (AppsState s) \<longleftrightarrow> name = ''apps'' \<and> apps_ok s"
| "belongs name (DomainsState s) \<longleftrightarrow> name = ''domains'' \<and> domains.snapshot_ok s"
| "belongs name (FirewallsState s) \<longleftrightarrow> name = ''firewalls'' \<and> firewalls.snapshot_ok s"
| "belongs name (CertificatesState s) \<longleftrightarrow> name = ''certificates'' \<and> certificates.snapshot_ok s"
| "belongs name (TagsState s) \<longleftrightarrow> name = ''tags'' \<and> tags.snapshot_ok s"
| "belongs name (ProjectsState s) \<longleftrightarrow> name = ''projects'' \<and> projects_ok s"
| "belongs name (Droplet_MetricsState s) \<longleftrightarrow> name = ''dropletmetrics'' \<and> dm_ok s"
| "belongs name (Balancer_MetricsState s) \<longleftrightarrow> name = ''loadbalancermetrics'' \<and> lb_ok s"
| "belongs name (UptimeState s) \<longleftrightarrow> name = ''uptime'' \<and> uptime_ok s"

section \<open>Building the collectors\<close>

text \<open>One filter, shared by every collector that honours it.\<close>

definition shared_filter :: "config \<Rightarrow> filter_conf" where
  "shared_filter cfg = filter_new (cf_filter_tags cfg) (cf_filter_regions cfg)"

definition spaces_from :: "spaces_config \<Rightarrow> spaces_collector" where
  "spaces_from sp =
     new_spaces (map (\<lambda>b. (sb_name b, sb_region b)) (sp_buckets sp)) (sp_region sp)
       (sp_concurrency sp)"

definition account_object :: "('req world, fleet_state) collector_obj" where
  "account_object =
     hosted ''account'' account_descriptors account_refresh account_collect
       None
       w_account AccountState of_account"

definition balance_object :: "(string \<Rightarrow> float64 res) \<Rightarrow> ('req world, fleet_state) collector_obj" where
  "balance_object pf =
     hosted ''balance'' balance_descriptors (balance_refresh pf) balance_collect
       None
       w_balance BalanceState of_balance"

definition databases_object :: "config \<Rightarrow> ('req world, fleet_state) collector_obj" where
  "databases_object cfg =
     hosted ''databases'' db_descriptors (databases_refresh (cf_database_details cfg) (shared_filter cfg)) databases_collect
       []
       w_databases DatabasesState of_databases"

definition droplets_object :: "(string \<Rightarrow> int option) \<Rightarrow> config \<Rightarrow> ('req world, fleet_state) collector_obj" where
  "droplets_object pt cfg =
     hosted ''droplets'' droplet_descriptors (droplets_refresh pt (shared_filter cfg)) droplets_collect
       []
       w_droplets DropletsState of_droplets"

definition dropletautoscale_object :: "('req world, fleet_state) collector_obj" where
  "dropletautoscale_object =
     hosted ''dropletautoscale'' autoscale_descriptors autoscale_refresh autoscale_collect
       []
       w_dropletautoscale AutoscaleState of_autoscale"

definition images_object :: "(string \<Rightarrow> int option) \<Rightarrow> ('req world, fleet_state) collector_obj" where
  "images_object pt =
     hosted ''images'' image_descriptors (images_refresh pt) images_collect
       None
       w_images ImagesState of_images"

definition kubernetes_object :: "config \<Rightarrow> ('req world, fleet_state) collector_obj" where
  "kubernetes_object cfg =
     hosted ''kubernetes'' k8s_descriptors (k8s_refresh (cf_kubernetes_upgrades cfg) (shared_filter cfg)) k8s_collect
       []
       w_kubernetes KubernetesState of_kubernetes"

definition limits_object :: "('req world, fleet_state) collector_obj" where
  "limits_object =
     hosted ''limits'' limits_descriptors limits_refresh limits_collect
       None
       w_limits LimitsState of_limits"

definition registry_object :: "('req world, fleet_state) collector_obj" where
  "registry_object =
     hosted ''registry'' registry_descriptors registry_refresh registry_collect
       None
       w_registry RegistryState of_registry"

definition reservedips_object :: "('req world, fleet_state) collector_obj" where
  "reservedips_object =
     hosted ''reservedips'' ip_descriptors reserved_ips_refresh reserved_ips_collect
       None
       w_reservedips Reserved_IPsState of_reserved_ips"

definition spaces_object :: "config \<Rightarrow> ('req world, fleet_state) collector_obj" where
  "spaces_object cfg =
     hosted ''spaces'' spaces_descriptors spaces_refresh spaces_collect
       (spaces_from (cf_spaces cfg))
       w_spaces SpacesState of_spaces"

definition volumes_object :: "config \<Rightarrow> ('req world, fleet_state) collector_obj" where
  "volumes_object cfg =
     hosted ''volumes'' volume_descriptors (volumes_refresh (shared_filter cfg)) volumes_collect
       []
       w_volumes VolumesState of_volumes"

definition loadbalancers_object :: "config \<Rightarrow> ('req world, fleet_state) collector_obj" where
  "loadbalancers_object cfg =
     hosted ''loadbalancers'' balancer_descriptors (balancers_refresh (shared_filter cfg)) balancers_collect
       []
       w_loadbalancers BalancersState of_balancers"

definition cdn_object :: "('req world, fleet_state) collector_obj" where
  "cdn_object =
     hosted ''cdn'' cdn_descriptors cdn_refresh cdn_collect
       []
       w_cdn CDNState of_cdn"

definition apps_object :: "('req world, fleet_state) collector_obj" where
  "apps_object =
     hosted ''apps'' app_descriptors apps_refresh apps_collect
       []
       w_apps AppsState of_apps"

definition domains_object :: "('req world, fleet_state) collector_obj" where
  "domains_object =
     hosted ''domains'' domain_descriptors domains_refresh domains_collect
       []
       w_domains DomainsState of_domains"

definition firewalls_object :: "config \<Rightarrow> ('req world, fleet_state) collector_obj" where
  "firewalls_object cfg =
     hosted ''firewalls'' firewall_descriptors (firewalls_refresh (shared_filter cfg)) firewalls_collect
       []
       w_firewalls FirewallsState of_firewalls"

definition certificates_object :: "(string \<Rightarrow> int option) \<Rightarrow> ('req world, fleet_state) collector_obj" where
  "certificates_object pt =
     hosted ''certificates'' certificate_descriptors (certificates_refresh pt) certificates_collect
       []
       w_certificates CertificatesState of_certificates"

definition tags_object :: "('req world, fleet_state) collector_obj" where
  "tags_object =
     hosted ''tags'' tag_descriptors tags_refresh tags_collect
       []
       w_tags TagsState of_tags"

definition projects_object :: "('req world, fleet_state) collector_obj" where
  "projects_object =
     hosted ''projects'' project_descriptors projects_refresh projects_collect
       []
       w_projects ProjectsState of_projects"

definition dropletmetrics_object :: "config \<Rightarrow> ('req world, fleet_state) collector_obj" where
  "dropletmetrics_object cfg =
     hosted ''dropletmetrics'' dm_descriptors dm_refresh dm_collect
       (dm_new (cf_droplet_metrics_concurrency cfg) (cf_droplet_metrics_agent_only cfg) (shared_filter cfg))
       w_dropletmetrics Droplet_MetricsState of_droplet_metrics"

definition loadbalancermetrics_object :: "config \<Rightarrow> ('req world, fleet_state) collector_obj" where
  "loadbalancermetrics_object cfg =
     hosted ''loadbalancermetrics'' lb_descriptors lb_refresh lb_collect
       (lb_new (cf_load_balancer_metrics_concurrency cfg) (cf_load_balancer_metrics_extended cfg) (shared_filter cfg))
       w_loadbalancermetrics Balancer_MetricsState of_balancer_metrics"

definition uptime_object :: "(string \<Rightarrow> int option) \<Rightarrow> ('req world, fleet_state) collector_obj" where
  "uptime_object pt =
     hosted ''uptime'' uptime_descriptors (uptime_refresh pt) uptime_collect
       []
       w_uptime UptimeState of_uptime"

definition available ::
  "(string \<Rightarrow> int option) \<Rightarrow> (string \<Rightarrow> float64 res) \<Rightarrow> config \<Rightarrow> ('req world, fleet_state) table" where
  "available pt pf cfg =
     [(''account'', account_object),
      (''balance'', balance_object pf),
      (''databases'', databases_object cfg),
      (''droplets'', droplets_object pt cfg),
      (''dropletautoscale'', dropletautoscale_object),
      (''images'', images_object pt),
      (''kubernetes'', kubernetes_object cfg),
      (''limits'', limits_object),
      (''registry'', registry_object),
      (''reservedips'', reservedips_object),
      (''spaces'', spaces_object cfg),
      (''volumes'', volumes_object cfg),
      (''loadbalancers'', loadbalancers_object cfg),
      (''cdn'', cdn_object),
      (''apps'', apps_object),
      (''domains'', domains_object),
      (''firewalls'', firewalls_object cfg),
      (''certificates'', certificates_object pt),
      (''tags'', tags_object),
      (''projects'', projects_object),
      (''dropletmetrics'', dropletmetrics_object cfg),
      (''loadbalancermetrics'', loadbalancermetrics_object cfg),
      (''uptime'', uptime_object pt)]"

definition register_collectors ::
  "(string \<Rightarrow> int option) \<Rightarrow> (string \<Rightarrow> float64 res) \<Rightarrow> config \<Rightarrow>
     ('req world, fleet_state) scheduler \<Rightarrow> ('req world, fleet_state) scheduler" where
  "register_collectors pt pf cfg = register_enabled cfg (available pt pf cfg)"

section \<open>Every collector of the table meets its contract\<close>

lemma object_states:
  "belongs ''account'' t \<longleftrightarrow> (\<exists>s. t = AccountState s \<and> True)"
  "belongs ''balance'' t \<longleftrightarrow> (\<exists>s. t = BalanceState s \<and> True)"
  "belongs ''databases'' t \<longleftrightarrow> (\<exists>s. t = DatabasesState s \<and> databases_ok s)"
  "belongs ''droplets'' t \<longleftrightarrow> (\<exists>s. t = DropletsState s \<and> droplets_ok s)"
  "belongs ''dropletautoscale'' t \<longleftrightarrow> (\<exists>s. t = AutoscaleState s \<and> autoscale_list.snapshot_ok s)"
  "belongs ''images'' t \<longleftrightarrow> (\<exists>s. t = ImagesState s \<and> images_ok s)"
  "belongs ''kubernetes'' t \<longleftrightarrow> (\<exists>s. t = KubernetesState s \<and> k8s_ok s)"
  "belongs ''limits'' t \<longleftrightarrow> (\<exists>s. t = LimitsState s \<and> True)"
  "belongs ''registry'' t \<longleftrightarrow> (\<exists>s. t = RegistryState s \<and> registry_ok s)"
  "belongs ''reservedips'' t \<longleftrightarrow> (\<exists>s. t = Reserved_IPsState s \<and> ips_ok s)"
  "belongs ''spaces'' t \<longleftrightarrow> (\<exists>s. t = SpacesState s \<and> spaces_ok s)"
  "belongs ''volumes'' t \<longleftrightarrow> (\<exists>s. t = VolumesState s \<and> volumes.snapshot_ok s)"
  "belongs ''loadbalancers'' t \<longleftrightarrow> (\<exists>s. t = BalancersState s \<and> balancers.idents_ok s)"
  "belongs ''cdn'' t \<longleftrightarrow> (\<exists>s. t = CDNState s \<and> cdn.snapshot_ok s)"
  "belongs ''apps'' t \<longleftrightarrow> (\<exists>s. t = AppsState s \<and> apps_ok s)"
  "belongs ''domains'' t \<longleftrightarrow> (\<exists>s. t = DomainsState s \<and> domains.snapshot_ok s)"
  "belongs ''firewalls'' t \<longleftrightarrow> (\<exists>s. t = FirewallsState s \<and> firewalls.snapshot_ok s)"
  "belongs ''certificates'' t \<longleftrightarrow> (\<exists>s. t = CertificatesState s \<and> certificates.snapshot_ok s)"
  "belongs ''tags'' t \<longleftrightarrow> (\<exists>s. t = TagsState s \<and> tags.snapshot_ok s)"
  "belongs ''projects'' t \<longleftrightarrow> (\<exists>s. t = ProjectsState s \<and> projects_ok s)"
  "belongs ''dropletmetrics'' t \<longleftrightarrow> (\<exists>s. t = Droplet_MetricsState s \<and> dm_ok s)"
  "belongs ''loadbalancermetrics'' t \<longleftrightarrow> (\<exists>s. t = Balancer_MetricsState s \<and> lb_ok s)"
  "belongs ''uptime'' t \<longleftrightarrow> (\<exists>s. t = UptimeState s \<and> uptime_ok s)"
  by (cases t; simp)+

lemmas object_defs = account_object_def balance_object_def databases_object_def
  droplets_object_def dropletautoscale_object_def images_object_def kubernetes_object_def
  limits_object_def registry_object_def reservedips_object_def spaces_object_def
  volumes_object_def loadbalancers_object_def cdn_object_def apps_object_def domains_object_def
  firewalls_object_def certificates_object_def tags_object_def projects_object_def
  dropletmetrics_object_def loadbalancermetrics_object_def uptime_object_def

lemmas collector_laws = account.collector_axioms balance.collector_axioms
  databases.collector_axioms droplets.collector_axioms autoscale.collector_axioms
  images.collector_axioms kubernetes.collector_axioms limits.collector_axioms
  registry.collector_axioms reserved_ips.collector_axioms spaces.collector_axioms
  volumes.collector_axioms balancers.plain.collector_axioms cdn.collector_axioms
  apps.collector_axioms domains.collector_axioms firewalls.collector_axioms
  certificates.collector_axioms tags.collector_axioms projects.collector_axioms
  dropletmetrics.collector_axioms loadbalancermetrics.collector_axioms uptime.collector_axioms

lemmas unique_laws = account.unique_collector_axioms balance.unique_collector_axioms
  droplets.unique_collector_axioms autoscale.unique_collector_axioms
  images.unique_collector_axioms limits.unique_collector_axioms
  reserved_ips.unique_collector_axioms spaces.unique_collector_axioms
  volumes.unique_collector_axioms cdn.unique_collector_axioms domains.unique_collector_axioms
  firewalls.unique_collector_axioms certificates.unique_collector_axioms
  tags.unique_collector_axioms projects.unique_collector_axioms uptime.unique_collector_axioms

lemmas atomic_laws = account_atomic.atomic_collector_axioms balance_atomic.atomic_collector_axioms
  databases_atomic.atomic_collector_axioms droplets_atomic.atomic_collector_axioms
  autoscale_atomic.atomic_collector_axioms images_atomic.atomic_collector_axioms
  kubernetes_atomic.atomic_collector_axioms limits_atomic.atomic_collector_axioms
  reserved_ips_atomic.atomic_collector_axioms volumes.plain.atomic_collector_axioms
  balancers.plain.atomic_collector_axioms cdn.plain.atomic_collector_axioms
  apps_atomic.atomic_collector_axioms domains.plain.atomic_collector_axioms
  firewalls.plain.atomic_collector_axioms certificates.plain.atomic_collector_axioms
  tags.plain.atomic_collector_axioms projects_atomic.atomic_collector_axioms
  uptime_atomic.atomic_collector_axioms

lemma objects_sound:
  "sound (belongs ''account'') (account_object)"
  "sound (belongs ''balance'') (balance_object pf)"
  "sound (belongs ''databases'') (databases_object cfg)"
  "sound (belongs ''droplets'') (droplets_object pt cfg)"
  "sound (belongs ''dropletautoscale'') (dropletautoscale_object)"
  "sound (belongs ''images'') (images_object pt)"
  "sound (belongs ''kubernetes'') (kubernetes_object cfg)"
  "sound (belongs ''limits'') (limits_object)"
  "sound (belongs ''registry'') (registry_object)"
  "sound (belongs ''reservedips'') (reservedips_object)"
  "sound (belongs ''spaces'') (spaces_object cfg)"
  "sound (belongs ''volumes'') (volumes_object cfg)"
  "sound (belongs ''loadbalancers'') (loadbalancers_object cfg)"
  "sound (belongs ''cdn'') (cdn_object)"
  "sound (belongs ''apps'') (apps_object)"
  "sound (belongs ''domains'') (domains_object)"
  "sound (belongs ''firewalls'') (firewalls_object cfg)"
  "sound (belongs ''certificates'') (certificates_object pt)"
  "sound (belongs ''tags'') (tags_object)"
  "sound (belongs ''projects'') (projects_object)"
  "sound (belongs ''dropletmetrics'') (dropletmetrics_object cfg)"
  "sound (belongs ''loadbalancermetrics'') (loadbalancermetrics_object cfg)"
  "sound (belongs ''uptime'') (uptime_object pt)"
  unfolding object_defs spaces_from_def
  by (rule hosted_sound, rule collector_laws, simp, simp add: object_states)+

lemma objects_unrepeating:
  "unrepeating (belongs ''account'') (account_object)"
  "unrepeating (belongs ''balance'') (balance_object pf)"
  "unrepeating (belongs ''droplets'') (droplets_object pt cfg)"
  "unrepeating (belongs ''dropletautoscale'') (dropletautoscale_object)"
  "unrepeating (belongs ''images'') (images_object pt)"
  "unrepeating (belongs ''limits'') (limits_object)"
  "unrepeating (belongs ''reservedips'') (reservedips_object)"
  "unrepeating (belongs ''spaces'') (spaces_object cfg)"
  "unrepeating (belongs ''volumes'') (volumes_object cfg)"
  "unrepeating (belongs ''cdn'') (cdn_object)"
  "unrepeating (belongs ''domains'') (domains_object)"
  "unrepeating (belongs ''firewalls'') (firewalls_object cfg)"
  "unrepeating (belongs ''certificates'') (certificates_object pt)"
  "unrepeating (belongs ''tags'') (tags_object)"
  "unrepeating (belongs ''projects'') (projects_object)"
  "unrepeating (belongs ''uptime'') (uptime_object pt)"
  unfolding object_defs spaces_from_def
  by (rule hosted_unique, rule unique_laws, simp, simp add: object_states)+

lemma objects_atomic:
  "keeps_on_failure (belongs ''account'') (account_object)"
  "keeps_on_failure (belongs ''balance'') (balance_object pf)"
  "keeps_on_failure (belongs ''databases'') (databases_object cfg)"
  "keeps_on_failure (belongs ''droplets'') (droplets_object pt cfg)"
  "keeps_on_failure (belongs ''dropletautoscale'') (dropletautoscale_object)"
  "keeps_on_failure (belongs ''images'') (images_object pt)"
  "keeps_on_failure (belongs ''kubernetes'') (kubernetes_object cfg)"
  "keeps_on_failure (belongs ''limits'') (limits_object)"
  "keeps_on_failure (belongs ''reservedips'') (reservedips_object)"
  "keeps_on_failure (belongs ''volumes'') (volumes_object cfg)"
  "keeps_on_failure (belongs ''loadbalancers'') (loadbalancers_object cfg)"
  "keeps_on_failure (belongs ''cdn'') (cdn_object)"
  "keeps_on_failure (belongs ''apps'') (apps_object)"
  "keeps_on_failure (belongs ''domains'') (domains_object)"
  "keeps_on_failure (belongs ''firewalls'') (firewalls_object cfg)"
  "keeps_on_failure (belongs ''certificates'') (certificates_object pt)"
  "keeps_on_failure (belongs ''tags'') (tags_object)"
  "keeps_on_failure (belongs ''projects'') (projects_object)"
  "keeps_on_failure (belongs ''uptime'') (uptime_object pt)"
  unfolding object_defs spaces_from_def
  by (rule hosted_atomic, rule atomic_laws, simp, auto simp: object_states)+

section \<open>The table\<close>

lemma object_methods [simp]:
  "co_name (account_object) = ''account''" "co_describe (account_object) = account_descriptors"
  "co_name (balance_object pf) = ''balance''" "co_describe (balance_object pf) = balance_descriptors"
  "co_name (databases_object cfg) = ''databases''" "co_describe (databases_object cfg) = db_descriptors"
  "co_name (droplets_object pt cfg) = ''droplets''" "co_describe (droplets_object pt cfg) = droplet_descriptors"
  "co_name (dropletautoscale_object) = ''dropletautoscale''" "co_describe (dropletautoscale_object) = autoscale_descriptors"
  "co_name (images_object pt) = ''images''" "co_describe (images_object pt) = image_descriptors"
  "co_name (kubernetes_object cfg) = ''kubernetes''" "co_describe (kubernetes_object cfg) = k8s_descriptors"
  "co_name (limits_object) = ''limits''" "co_describe (limits_object) = limits_descriptors"
  "co_name (registry_object) = ''registry''" "co_describe (registry_object) = registry_descriptors"
  "co_name (reservedips_object) = ''reservedips''" "co_describe (reservedips_object) = ip_descriptors"
  "co_name (spaces_object cfg) = ''spaces''" "co_describe (spaces_object cfg) = spaces_descriptors"
  "co_name (volumes_object cfg) = ''volumes''" "co_describe (volumes_object cfg) = volume_descriptors"
  "co_name (loadbalancers_object cfg) = ''loadbalancers''" "co_describe (loadbalancers_object cfg) = balancer_descriptors"
  "co_name (cdn_object) = ''cdn''" "co_describe (cdn_object) = cdn_descriptors"
  "co_name (apps_object) = ''apps''" "co_describe (apps_object) = app_descriptors"
  "co_name (domains_object) = ''domains''" "co_describe (domains_object) = domain_descriptors"
  "co_name (firewalls_object cfg) = ''firewalls''" "co_describe (firewalls_object cfg) = firewall_descriptors"
  "co_name (certificates_object pt) = ''certificates''" "co_describe (certificates_object pt) = certificate_descriptors"
  "co_name (tags_object) = ''tags''" "co_describe (tags_object) = tag_descriptors"
  "co_name (projects_object) = ''projects''" "co_describe (projects_object) = project_descriptors"
  "co_name (dropletmetrics_object cfg) = ''dropletmetrics''" "co_describe (dropletmetrics_object cfg) = dm_descriptors"
  "co_name (loadbalancermetrics_object cfg) = ''loadbalancermetrics''" "co_describe (loadbalancermetrics_object cfg) = lb_descriptors"
  "co_name (uptime_object pt) = ''uptime''" "co_describe (uptime_object pt) = uptime_descriptors"
  by (simp_all add: object_defs)

lemma available_names:
  "map fst (available pt pf cfg) =
     [''account'', ''balance'', ''databases'', ''droplets'', ''dropletautoscale'', ''images'',
      ''kubernetes'', ''limits'', ''registry'', ''reservedips'', ''spaces'', ''volumes'',
      ''loadbalancers'', ''cdn'', ''apps'', ''domains'', ''firewalls'', ''certificates'', ''tags'',
      ''projects'', ''dropletmetrics'', ''loadbalancermetrics'', ''uptime'']"
  by (simp add: available_def)

lemma available_distinct: "distinct (map fst (available pt pf cfg))"
  by (simp add: available_names)

lemma available_set:
  "set (map fst (available pt pf cfg)) = set (map sm_name simple_collectors @ timed_names)"
  by (simp add: available_names simple_collectors_def timed_names_def insert_commute)

lemma available_named: "list_all (\<lambda>(name, c). co_name c = name) (available pt pf cfg)"
  by (simp add: available_def)

lemma available_sound: "list_all (\<lambda>(name, c). sound (belongs name) c) (available pt pf cfg)"
  by (simp add: available_def objects_sound)

text \<open>
  The collectors that name a resource by more than what the API promises to be unique, and so
  may send a series twice; and those that change their snapshot in a refresh that fails.
\<close>

definition may_repeat :: "string list" where
  "may_repeat =
     [''databases'', ''kubernetes'', ''registry'', ''loadbalancers'', ''apps'', ''dropletmetrics'',
      ''loadbalancermetrics'']"

definition replace_on_failure :: "string list" where
  "replace_on_failure = [''registry'', ''spaces'', ''dropletmetrics'', ''loadbalancermetrics'']"

text \<open>
  Under what condition on its snapshot each of the first kind sends no series twice: parts of a
  resource that the API is trusted to name apart.
\<close>

primrec told_apart :: "fleet_state \<Rightarrow> bool" where
  "told_apart (AccountState s) \<longleftrightarrow> True"
| "told_apart (BalanceState s) \<longleftrightarrow> True"
| "told_apart (DatabasesState s) \<longleftrightarrow> list_all replicas_apart s"
| "told_apart (DropletsState s) \<longleftrightarrow> True"
| "told_apart (AutoscaleState s) \<longleftrightarrow> True"
| "told_apart (ImagesState s) \<longleftrightarrow> True"
| "told_apart (KubernetesState s) \<longleftrightarrow> list_all cluster_unique s"
| "told_apart (LimitsState s) \<longleftrightarrow> True"
| "told_apart (RegistryState s) \<longleftrightarrow> repositories_apart s"
| "told_apart (Reserved_IPsState s) \<longleftrightarrow> True"
| "told_apart (SpacesState s) \<longleftrightarrow> True"
| "told_apart (VolumesState s) \<longleftrightarrow> True"
| "told_apart (BalancersState s) \<longleftrightarrow> list_all (\<lambda>lb. distinct (bal_rules lb)) s"
| "told_apart (CDNState s) \<longleftrightarrow> True"
| "told_apart (AppsState s) \<longleftrightarrow> list_all components_apart s"
| "told_apart (DomainsState s) \<longleftrightarrow> True"
| "told_apart (FirewallsState s) \<longleftrightarrow> True"
| "told_apart (CertificatesState s) \<longleftrightarrow> True"
| "told_apart (TagsState s) \<longleftrightarrow> True"
| "told_apart (ProjectsState s) \<longleftrightarrow> True"
| "told_apart (Droplet_MetricsState s) \<longleftrightarrow> list_all droplet_points_apart (dm_snap s)"
| "told_apart (Balancer_MetricsState s) \<longleftrightarrow> list_all balancer_points_apart (lbc_snap s)"
| "told_apart (UptimeState s) \<longleftrightarrow> True"

lemma objects_told_apart:
  "unrepeating (\<lambda>t. belongs ''databases'' t \<and> told_apart t) (databases_object cfg)"
  "unrepeating (\<lambda>t. belongs ''kubernetes'' t \<and> told_apart t) (kubernetes_object cfg)"
  "unrepeating (\<lambda>t. belongs ''registry'' t \<and> told_apart t) registry_object"
  "unrepeating (\<lambda>t. belongs ''loadbalancers'' t \<and> told_apart t) (loadbalancers_object cfg)"
  "unrepeating (\<lambda>t. belongs ''apps'' t \<and> told_apart t) apps_object"
  "unrepeating (\<lambda>t. belongs ''dropletmetrics'' t \<and> told_apart t) (dropletmetrics_object cfg)"
  "unrepeating (\<lambda>t. belongs ''loadbalancermetrics'' t \<and> told_apart t)
     (loadbalancermetrics_object cfg)"
  by (auto simp: unrepeating_def object_states object_defs databases_unique k8s_unique
      registry_unique balancers_apart apps_unique dm_unique lb_unique)

lemma unrepeating_weaken: "unrepeating good c \<Longrightarrow> unrepeating (\<lambda>t. good t \<and> P t) c"
  by (simp add: unrepeating_def)

lemma available_told_apart:
  "list_all (\<lambda>(name, c). unrepeating (\<lambda>t. belongs name t \<and> told_apart t) c) (available pt pf cfg)"
  by (simp add: available_def objects_told_apart objects_unrepeating unrepeating_weaken)

lemma available_unrepeating:
  "list_all (\<lambda>(name, c). name \<notin> set may_repeat \<longrightarrow> unrepeating (belongs name) c)
     (available pt pf cfg)"
  by (simp add: available_def objects_unrepeating may_repeat_def)

lemma available_atomic:
  "list_all (\<lambda>(name, c). name \<notin> set replace_on_failure \<longrightarrow> keeps_on_failure (belongs name) c)
     (available pt pf cfg)"
  by (simp add: available_def objects_atomic replace_on_failure_def)

section \<open>A run of the exporter\<close>

definition fleet ::
  "(string \<Rightarrow> int option) \<Rightarrow> (string \<Rightarrow> float64 res) \<Rightarrow> config \<Rightarrow> ('req world, fleet_state) scheduler" where
  "fleet pt pf cfg = register_collectors pt pf cfg (new_scheduler (cf_timeout cfg))"

lemma fleet_entries:
  "sc_entries (fleet pt pf cfg) =
     map (entry_for (cf_timeout cfg) cfg) (enabled_in cfg (available pt pf cfg))"
  by (simp add: fleet_def register_collectors_def register_enabled_entries new_scheduler_def)

lemma enabled_available: "nc \<in> set (enabled_in cfg table) \<Longrightarrow> nc \<in> set table"
  by (simp add: enabled_in_def)

lemma fleet_names:
  fixes pt pf cfg
  defines "table \<equiv> (available pt pf cfg :: ('req world, fleet_state) table)"
  shows "names (fleet pt pf cfg :: ('req world, fleet_state) scheduler) =
     filter (\<lambda>name. cg_enabled (collector_settings cfg name)) (map fst table)"
proof -
  have "entry_name (entry_for (cf_timeout cfg) cfg nc) = fst nc" if "nc \<in> set (enabled_in cfg table)" for nc
    using enabled_available [OF that] available_named [of pt pf cfg]
    by (auto simp: table_def list_all_iff entry_name_def)
  then have "names (fleet pt pf cfg :: ('req world, fleet_state) scheduler) =
      map fst (enabled_in cfg table)"
    by (simp add: names_def fleet_entries table_def)
  then show ?thesis by (simp add: enabled_in_def filter_map comp_def case_prod_beta')
qed

text \<open>What every entry is at every moment of a run: a collector of the table in a state of its own.\<close>

definition serves ::
  "('req world, fleet_state) table \<Rightarrow> ('req world, fleet_state) collector_obj \<Rightarrow> bool" where
  "serves table c \<longleftrightarrow>
     (\<exists>(name, c0) \<in> set table. \<exists>st. c = c0\<lparr>co_state := st\<rparr> \<and> belongs name st)"

lemma serves_step:
  assumes "serves (available pt pf cfg) c"
  shows "serves (available pt pf cfg) (c\<lparr>co_state := fst (guarded_refresh c world ctx)\<rparr>)"
proof -
  obtain name c0 st where c: "(name, c0) \<in> set (available pt pf cfg)" "c = c0\<lparr>co_state := st\<rparr>"
    "belongs name st"
    using assms by (auto simp: serves_def)
  have "sound (belongs name) c0" using c(1) available_sound [of pt pf cfg] by (auto simp: list_all_iff)
  then have "belongs name (fst (guarded_refresh c world ctx))"
    using c(2,3) by (simp add: sound_def)
  then show ?thesis using c(1,2) by (force simp: serves_def)
qed

lemma fleet_serves:
  assumes "run_reach (fleet pt pf cfg) r"
  shows "entries_all (serves (available pt pf cfg)) (run_scheduler r)"
proof (rule entries_all_run [where P = "serves (available pt pf cfg)", OF serves_step _ assms])
  have "serves (available pt pf cfg) (snd nc)" if "nc \<in> set (available pt pf cfg)" for nc
  proof -
    have "sound (belongs (fst nc)) (snd nc)" using that available_sound [of pt pf cfg] by (auto simp: list_all_iff)
    then have "belongs (fst nc) (co_state (snd nc))" by (simp add: sound_def)
    with that show ?thesis
      unfolding serves_def by (intro bexI [of _ nc]) (auto intro!: exI [of _ "co_state (snd nc)"])
  qed
  then show "entries_all (serves (available pt pf cfg)) (fleet pt pf cfg)"
    by (auto simp: entries_all_def fleet_entries dest: enabled_available)
qed

text \<open>The laws of the table, for an entry in the middle of a run.\<close>

lemma entry_laws:
  assumes "run_reach (fleet pt pf cfg) r" and "e \<in> set (sc_entries (run_scheduler r))"
  shows "belongs (entry_name e) (co_state (en_collector e))"
    and "well_described (co_describe (en_collector e)) (entry_metrics e)"
    and "entry_name e \<notin> set may_repeat \<Longrightarrow> no_duplicates (entry_metrics e)"
    and "told_apart (co_state (en_collector e)) \<Longrightarrow> no_duplicates (entry_metrics e)"
    and "entry_name e \<notin> set replace_on_failure \<Longrightarrow>
      snd (guarded_refresh (en_collector e) world ctx) \<noteq> None \<Longrightarrow>
      fst (guarded_refresh (en_collector e) world ctx) = co_state (en_collector e)"
proof -
  obtain name c0 st where t: "(name, c0) \<in> set (available pt pf cfg)"
    and c: "en_collector e = c0\<lparr>co_state := st\<rparr>" and b: "belongs name st"
    using fleet_serves [OF assms(1)] assms(2) by (auto simp: entries_all_def serves_def)
  have n: "entry_name e = name" using t available_named [of pt pf cfg]
    by (auto simp: entry_name_def c list_all_iff)
  have s: "sound (belongs name) c0" using t available_sound [of pt pf cfg] by (auto simp: list_all_iff)
  show "belongs (entry_name e) (co_state (en_collector e))" using b by (simp add: n c)
  show "well_described (co_describe (en_collector e)) (entry_metrics e)"
    using s b by (simp add: sound_def entry_metrics_def c)
  show "no_duplicates (entry_metrics e)" if "entry_name e \<notin> set may_repeat"
    using t b that available_unrepeating [of pt pf cfg]
    by (auto simp: n entry_metrics_def c unrepeating_def list_all_iff)
  show "no_duplicates (entry_metrics e)" if "told_apart (co_state (en_collector e))"
    using t b that available_told_apart [of pt pf cfg]
    by (auto simp: entry_metrics_def c unrepeating_def list_all_iff)
  show "fst (guarded_refresh (en_collector e) world ctx) = co_state (en_collector e)"
    if "entry_name e \<notin> set replace_on_failure"
      "snd (guarded_refresh (en_collector e) world ctx) \<noteq> None"
    using t b that available_atomic [of pt pf cfg]
    by (auto simp: n c keeps_on_failure_def list_all_iff)
qed

end
