(* ===== verification/Exposition.thy ===== *)
theory Exposition
  imports Fleet
begin

text \<open>
  What a whole run of the exporter shows to Prometheus: the descriptors that are registered, the
  exposition put together from all collectors, and how a failed refresh changes it.
\<close>

section \<open>What is registered\<close>

text \<open>The client's own metrics, the scheduler's gauges, and then what the scheduler describes.\<close>

definition api_descriptors :: "desc list" where
  "api_descriptors =
     [Desc ''digitalocean_exporter_api_requests_total'' [''collector'', ''resource'', ''status''],
      Desc ''digitalocean_exporter_api_request_duration_seconds'' [''collector'', ''resource''],
      Desc ''digitalocean_exporter_api_rate_limit_remaining'' [],
      Desc ''digitalocean_exporter_api_rate_limit'' [],
      Desc ''digitalocean_exporter_api_rate_limit_reset_timestamp_seconds'' []]"

definition scheduler_descriptors :: "desc list" where
  "scheduler_descriptors =
     [Desc ''digitalocean_exporter_collector_success'' [''collector''],
      Desc ''digitalocean_exporter_collector_duration_seconds'' [''collector''],
      Desc ''digitalocean_exporter_collector_last_success_timestamp_seconds'' [''collector'']]"

text \<open>
  What the exporter registers itself: the build information, the metrics of the API client and of
  the scheduler, and the collectors behind it. The collectors of the client library for the Go
  runtime and the process, and the metrics of its handler, are code of that library.
\<close>

definition registered_descriptors :: "('env, 's) scheduler \<Rightarrow> desc list" where
  "registered_descriptors s =
     [build_info_desc] @ api_descriptors @ scheduler_descriptors @ scheduler_describe s"

section \<open>No two descriptors have the same name\<close>

text \<open>
  All names begin alike. A block of descriptors is told from another by the letters after the
  common prefix, or else its names are compared from their ends.
\<close>

fun after :: "string \<Rightarrow> string \<Rightarrow> string" where
  "after (p # ps) (x # xs) = after ps xs"
| "after ps xs = xs"

fun backwards :: "string \<Rightarrow> string \<Rightarrow> string" where
  "backwards acc [] = acc"
| "backwards acc (x # xs) = backwards (x # acc) xs"

definition first_letter :: "string \<Rightarrow> char" where
  "first_letter name = hd (after ''digitalocean_'' name)"

definition name_block :: "desc list \<Rightarrow> char list \<times> string list" where
  "name_block ds =
     (remdups (map (\<lambda>d. first_letter (fq_name d)) ds), map (\<lambda>d. backwards [] (fq_name d)) ds)"

definition apart :: "char list \<times> string list \<Rightarrow> char list \<times> string list \<Rightarrow> bool" where
  "apart b c =
     (if list_all (\<lambda>l. l \<notin> set (fst c)) (fst b) then True
      else list_all (\<lambda>x. x \<notin> set (snd c)) (snd b))"

fun blocks_apart :: "(char list \<times> string list) list \<Rightarrow> bool" where
  "blocks_apart [] \<longleftrightarrow> True"
| "blocks_apart (b # bs) \<longleftrightarrow> distinct (snd b) \<and> list_all (apart b) bs \<and> blocks_apart bs"

lemma backwards_rev: "backwards acc xs = rev xs @ acc"
  by (induction xs arbitrary: acc) auto

lemma apart_names:
  assumes "apart (name_block ds) (name_block es)"
  shows "fq_name ` set ds \<inter> fq_name ` set es = {}"
proof -
  have "fq_name d \<noteq> fq_name e" if "d \<in> set ds" "e \<in> set es" for d e
    using assms that
    by (force simp: apart_def name_block_def list_all_iff backwards_rev split: if_splits)
  then show ?thesis by blast
qed

lemma blocks_apart_distinct:
  "blocks_apart (map name_block dss) \<Longrightarrow> distinct (map fq_name (concat dss))"
proof (induction dss)
  case (Cons ds dss)
  have "distinct (map rev (map fq_name ds))"
    using Cons.prems by (simp add: name_block_def backwards_rev comp_def)
  then have "distinct (map fq_name ds)" by (simp only: distinct_map [of rev])
  moreover have "fq_name ` set ds \<inter> fq_name ` set (concat dss) = {}"
    using Cons.prems apart_names by (fastforce simp: list_all_iff)
  ultimately show ?case using Cons by (simp add: comp_def)
qed simp

lemmas descriptor_defs =
  account_desc_defs balance_desc_defs db_descriptors_def db_desc_defs droplet_descriptors_def
  droplet_desc_defs autoscale_descriptors_def autoscale_desc_defs image_descriptors_def
  image_desc_defs k8s_descriptors_def k8s_desc_defs limits_desc_defs registry_descriptors_def
  registry_desc_defs ip_desc_defs spaces_desc_defs volume_desc_defs balancer_descriptors_def
  balancer_desc_defs cdn_desc_defs app_descriptors_def app_desc_defs domain_descriptors_def
  domain_ttl_desc_def firewall_desc_defs certificate_desc_defs tag_descriptors_def
  tag_resources_desc_def project_desc_defs dm_descriptors_def dm_desc_defs lb_descriptors_def
  lb_desc_defs uptime_descriptors_def uptime_desc_defs build_info_desc_def api_descriptors_def
  scheduler_descriptors_def

lemmas block_evaluation =
  name_block_def apart_def blocks_apart.simps first_letter_def after.simps backwards.simps
  list.map append.simps remdups.simps list.pred_inject list.set distinct.simps insert_iff
  empty_iff list.inject list.distinct char.inject simp_thms if_True if_False list.sel fst_conv
  snd_conv desc.sel

lemma all_names_distinct:
  "distinct (map fq_name (concat ([build_info_desc] # api_descriptors # scheduler_descriptors #
     map (\<lambda>nc. co_describe (snd nc)) (available pt pf cfg))))"
  by (rule blocks_apart_distinct)
    (simp only: available_def object_methods descriptor_defs block_evaluation cong: if_weak_cong)

section \<open>The exposition of a run\<close>

lemma fleet_describe:
  "scheduler_describe (fleet pt pf cfg :: ('req world, fleet_state) scheduler) =
     concat (map (\<lambda>nc. co_describe (snd nc))
       (enabled_in cfg (available pt pf cfg :: ('req world, fleet_state) table)))"
  by (simp add: scheduler_describe_def fleet_entries comp_def)

lemma distinct_append_filter:
  assumes "distinct (map g (own @ concat (map f xs)))"
  shows "distinct (map g (own @ concat (map f (filter P xs))))"
proof -
  have "distinct (map g (concat (map f (filter P xs))))"
    using assms by (intro distinct_concat_filter) simp
  then show ?thesis using assms by auto
qed

lemma fleet_names_distinct:
  "distinct (map fq_name (([build_info_desc] @ api_descriptors @ scheduler_descriptors) @
     scheduler_describe (fleet pt pf cfg :: ('req world, fleet_state) scheduler)))"
  unfolding fleet_describe enabled_in_def
proof (rule distinct_append_filter)
  show "distinct (map fq_name (([build_info_desc] @ api_descriptors @ scheduler_descriptors) @
      concat (map (\<lambda>nc. co_describe (snd nc)) (available pt pf cfg :: ('req world, fleet_state) table))))"
    using all_names_distinct [of pt pf cfg, where 'a = 'req] by (simp only: concat.simps append_assoc)
qed

lemma fleet_describe_distinct:
  "distinct (map fq_name (scheduler_describe (fleet pt pf cfg :: ('req world, fleet_state) scheduler)))"
  using fleet_names_distinct [of pt pf cfg, where 'req = 'req] by simp

lemma fleet_entry_name:
  fixes table :: "('req world, fleet_state) table"
  assumes "nc \<in> set (enabled_in cfg (available pt pf cfg :: ('req world, fleet_state) table))"
  shows "entry_name (entry_for timeout cfg nc) = fst nc"
  using enabled_available [OF assms] available_named [of pt pf cfg]
  by (auto simp: list_all_iff entry_name_def)

lemma enabled_settings:
  assumes "nc \<in> set (enabled_in cfg table)"
  shows "\<exists>settings. cf_collectors cfg (fst nc) = Some settings"
  using assms by (auto simp: enabled_in_def collector_settings_def split: option.splits)

lemma config_names:
  assumes "resolve_config rf (bind v) = Inr cfg" and "cf_collectors cfg name = Some settings"
  shows "name \<in> set (map sm_name simple_collectors @ timed_names)"
proof -
  have "collector_table (bind v) name = Some settings"
    using assms by (auto simp: resolve_config_def split: option.splits if_splits sum.splits)
  then have "name \<in> fst ` set (f_simple (bind v)) \<or> name \<in> fst ` set (timed_collectors (bind v))"
    using collector_table_cases by (force dest: map_of_SomeD)
  then show ?thesis
    by (auto simp: bind_def simple_flags_def timed_collectors_def timed_names_def)
qed

lemma run_describe:
  "run_reach s r \<Longrightarrow> scheduler_describe (run_scheduler r) = scheduler_describe s"
  by (simp add: run_refines scheduler_describe_refresh)

text \<open>A configuration with two collectors, and a world in which no request is answered.\<close>

definition demo_fleet_config :: config where
  "demo_fleet_config =
     \<lparr>cf_listen_address = '':9212'', cf_web_config_file = '''', cf_token = ''t'',
      cf_api_base_url = '''', cf_timeout = 30 * second, cf_rate_limit = Fin 0,
      cf_log_level = ''info'', cf_log_format = ''logfmt'', cf_filter_tags = [], cf_filter_regions = [],
      cf_collectors = [''account'' \<mapsto> \<lparr>cg_enabled = True, cg_interval = minute, cg_timeout = 0\<rparr>,
        ''spaces'' \<mapsto> \<lparr>cg_enabled = True, cg_interval = minute, cg_timeout = minute\<rparr>],
      cf_spaces = \<lparr>sp_access_key = ''k'', sp_secret_key = ''s'', sp_region = ''fra1'',
        sp_buckets = [\<lparr>sb_name = ''b'', sb_region = ''fra1''\<rparr>], sp_concurrency = 1\<rparr>,
      cf_droplet_metrics_concurrency = 1, cf_droplet_metrics_agent_only = False,
      cf_load_balancer_metrics_concurrency = 1, cf_load_balancer_metrics_extended = False,
      cf_kubernetes_upgrades = False, cf_database_details = False\<rparr>"

definition silent_list :: "goerr \<Rightarrow> 'g listing_api" where
  "silent_list e = \<lparr>la_ctx = \<lparr>ctx_live = 9, ctx_cause = e\<rparr>, la_list = (\<lambda>k n. Inl e)\<rparr>"

definition silent_droplets :: "goerr \<Rightarrow> droplet_api" where
  "silent_droplets e =
     \<lparr>da_ctx = \<lparr>ctx_live = 9, ctx_cause = e\<rparr>, da_list = (\<lambda>k n. Inl e),
      da_list_by_tag = (\<lambda>t k n. Inl e)\<rparr>"

definition silent_world :: "goerr \<Rightarrow> 'req world" where
  "silent_world e =
     (let ctx = \<lparr>ctx_live = 9, ctx_cause = e\<rparr> in
      \<lparr>w_account = Inl e, w_balance = Inl e,
       w_databases = \<lparr>db_ctx = ctx, db_list = (\<lambda>k n. Inl e), db_replicas_ctx = (\<lambda>i. ctx),
         db_replicas = (\<lambda>i k n. Inl e), db_backups_ctx = (\<lambda>i. ctx), db_backups = (\<lambda>i k n. Inl e),
         db_done = (\<lambda>i. False)\<rparr>,
       w_droplets = silent_droplets e,
       w_dropletautoscale = \<lparr>aa_ctx = ctx, aa_new_request = (\<lambda>path. Inl e), aa_do = (\<lambda>k req. Inl e)\<rparr>,
       w_images = \<lparr>ia_ctx = ctx, ia_list = (\<lambda>k n. Inl e)\<rparr>,
       w_kubernetes = \<lparr>ka_ctx = ctx, ka_list = (\<lambda>k n. Inl e), ka_upgrades = (\<lambda>i. Inl e),
         ka_done = (\<lambda>i. False)\<rparr>,
       w_limits = \<lparr>lm_droplets = Inl e, lm_reserved_ips = Inl e, lm_volumes = Inl e\<rparr>,
       w_registry = \<lparr>ra_list = Inl e, ra_get = Inl e, ra_subscription = (\<lambda>b. Inl e),
         ra_repos_ctx = (\<lambda>i. ctx), ra_repos = (\<lambda>b i k t. Inl e)\<rparr>,
       w_reservedips = \<lparr>pa_ctx4 = ctx, pa_list4 = (\<lambda>k n. Inl e), pa_ctx6 = ctx,
         pa_list6 = (\<lambda>k n. Inl e)\<rparr>,
       w_spaces = \<lparr>se_list = (\<lambda>r. Inl e), se_location = (\<lambda>b. Inl e),
         se_head = (\<lambda>r b. HeadFailed e None)\<rparr>,
       w_volumes = silent_list e, w_loadbalancers = silent_list e, w_cdn = silent_list e,
       w_apps = silent_list e, w_domains = silent_list e, w_firewalls = silent_list e,
       w_certificates = silent_list e, w_tags = silent_list e,
       w_projects = \<lparr>pja_ctx = ctx, pja_list = (\<lambda>k n. Inl e), pja_resources_ctx = (\<lambda>i. ctx),
         pja_resources = (\<lambda>i k n. Inl e)\<rparr>,
       w_dropletmetrics = \<lparr>dme_listing = silent_droplets e, dme_now = 0,
         dme_fetch = (\<lambda>endpoint req. Inl e), dme_queued = 0, dme_after = None\<rparr>,
       w_loadbalancermetrics = \<lparr>lbe_ctx = ctx, lbe_list = (\<lambda>k n. Inl e), lbe_now = 0,
         lbe_fetch = (\<lambda>endpoint req. Inl e), lbe_queued = 0, lbe_after = None\<rparr>,
       w_uptime = \<lparr>ua_ctx = ctx, ua_list = (\<lambda>k n. Inl e), ua_state = (\<lambda>i. Inl e),
         ua_done = (\<lambda>i. False)\<rparr>\<rparr>)"

definition demo_outage :: "'req world refresh_input" where
  "demo_outage =
     \<lparr>ri_world = (\<lambda>ctx. silent_world (Other ''503'')), ri_seconds = Fin 1, ri_now = 7,
      ri_shutdown = False\<rparr>"

lemma demo_enabled:
  "cg_enabled (collector_settings demo_fleet_config name) \<longleftrightarrow> name = ''account'' \<or> name = ''spaces''"
  by (simp add: collector_settings_def demo_fleet_config_def)

lemma demo_fleet_names:
  "names (fleet pt pf demo_fleet_config :: ('req world, fleet_state) scheduler) = [''account'', ''spaces'']"
  unfolding fleet_names available_names by (simp add: demo_enabled)

lemma demo_fleet_entries:
  "sc_entries (fleet pt pf demo_fleet_config :: ('req world, fleet_state) scheduler) =
     map (entry_for (cf_timeout demo_fleet_config) demo_fleet_config)
       [(''account'', account_object), (''spaces'', spaces_object demo_fleet_config)]"
  unfolding fleet_entries by (simp add: enabled_in_def available_def demo_enabled)

definition demo_fleet :: "(unit world, fleet_state) scheduler" where
  "demo_fleet = fleet (\<lambda>t. None) (\<lambda>t. Inr (Fin 0)) demo_fleet_config"

text \<open>A run in which the bucket was measured once in vain.\<close>

definition demo_fleet_run :: "(unit world, fleet_state) run" where
  "demo_fleet_run = run_refresh 1 demo_outage (run_start demo_fleet)"

lemma demo_fleet_reach: "run_reach demo_fleet demo_fleet_run"
  unfolding demo_fleet_run_def
proof (rule run_reach.step [OF run_reach.start])
  have "1 < length (run_phases (run_start demo_fleet))"
    "\<exists>k. run_phases (run_start demo_fleet) ! 1 = Waiting k" "\<not> run_done (run_start demo_fleet)"
    by (simp_all add: run_start_def Let_def demo_fleet_def demo_fleet_entries)
  then show "run_step (run_start demo_fleet) (run_refresh 1 demo_outage (run_start demo_fleet))"
    by (auto intro: run_step.first)
qed

lemma demo_fleet_run_names: "map entry_name (sc_entries (run_scheduler demo_fleet_run)) = [''account'', ''spaces'']"
proof -
  have "names (run_scheduler demo_fleet_run) = names demo_fleet"
    by (simp add: demo_fleet_run_def run_refresh_def run_start_def Let_def)
  then show ?thesis by (simp add: names_def demo_fleet_def demo_fleet_names [unfolded names_def])
qed

section \<open>Properties\<close>

text \<open>
  C13. Nothing is registered twice: the exporter's own metrics and those of all twenty-three
  collectors have different names, whichever of them the configuration enables, so the
  registrations at startup do not panic and no two collectors can send the same series.
\<close>

theorem registered_names_distinct:
  "distinct (map fq_name (registered_descriptors (fleet pt pf cfg)))"
  unfolding registered_descriptors_def
  by (rule fleet_names_distinct [unfolded append_assoc])

text \<open>
  C4. Every collector keeps to its own state: at every moment of every run, under any
  interleaving and whatever the APIs answer, the state of each entry is of the collector's own
  constructor and meets its invariant, and all that a scrape is sent was described at registration
  with one value per label.
\<close>

theorem fleet_typed:
  assumes "s = fleet pt pf cfg" and "run_reach s r"
  shows "list_all (\<lambda>e. belongs (entry_name e) (co_state (en_collector e))) (sc_entries (run_scheduler r)) \<and>
    well_described (scheduler_describe s) (scheduler_collect (run_scheduler r))"
proof -
  have "well_described (scheduler_describe (run_scheduler r)) (scheduler_collect (run_scheduler r))"
    using entry_laws(2) [OF assms(2) [unfolded assms(1)]]
    by (fastforce simp: scheduler_describe_def scheduler_collect_entries well_described_def)
  then show ?thesis
    using entry_laws(1) [OF assms(2) [unfolded assms(1)]]
    by (simp add: run_describe [OF assms(2)] list_all_iff)
qed

lemma fleet_typed_witness:
  "well_described (scheduler_describe demo_fleet) (scheduler_collect (run_scheduler demo_fleet_run))"
  using fleet_typed [OF demo_fleet_def demo_fleet_reach] by simp

text \<open>
  C12. The exposition of a run repeats a series only where one of seven collectors does so by
  itself: the other sixteen never do, and no two collectors share a series. Those seven do not
  either while the API names the parts of a resource apart: the replicas of a database, the
  pools, nodes and upgrades of a cluster, the repositories of a registry, the rules of a load
  balancer, the components of an app, the series of a monitored resource.
\<close>

theorem fleet_series:
  assumes "s = fleet pt pf cfg" and "run_reach s r"
  shows "(no_duplicates (scheduler_collect (run_scheduler r)) \<longleftrightarrow>
      list_all (\<lambda>e. no_duplicates (entry_metrics e))
        (filter (\<lambda>e. entry_name e \<in> set may_repeat) (sc_entries (run_scheduler r)))) \<and>
    (list_all (\<lambda>e. told_apart (co_state (en_collector e))) (sc_entries (run_scheduler r)) \<longrightarrow>
      no_duplicates (scheduler_collect (run_scheduler r)))"
proof -
  have "distinct (map fq_name (scheduler_describe (run_scheduler r)))"
    by (simp add: run_describe [OF assms(2)] assms(1) fleet_describe_distinct)
  then have "no_duplicates (scheduler_collect (run_scheduler r)) \<longleftrightarrow>
      (\<forall>e \<in> set (sc_entries (run_scheduler r)). no_duplicates (entry_metrics e))"
    unfolding scheduler_collect_entries scheduler_describe_def
    by (rule no_duplicates_described) (rule entry_laws(2) [OF assms(2) [unfolded assms(1)]])
  then show ?thesis
    using entry_laws(3,4) [OF assms(2) [unfolded assms(1)]] by (auto simp: list_all_iff)
qed

lemma fleet_series_witness: "no_duplicates (scheduler_collect (run_scheduler demo_fleet_run))"
proof -
  have "entry_name e \<in> {''account'', ''spaces''}" if "e \<in> set (sc_entries (run_scheduler demo_fleet_run))" for e
    using that arg_cong [OF demo_fleet_run_names, of set] by auto
  then show ?thesis
    using fleet_series [OF demo_fleet_def demo_fleet_reach]
    by (fastforce simp: list_all_iff may_repeat_def)
qed

text \<open>
  C7. What a failed refresh changes of what a scrape is sent: of the metrics of the collectors
  nothing, whichever collector's refresh fails, by an error or a panic. Of the scheduler's own
  gauges only those of that collector show it: the duration is the one of this refresh, and the
  success is 0, or stays what it was when the refresh was given up for the shutdown. The time of
  the last success and the pending collectors stay. Four collectors are left out, which report
  what they could not measure by changing their snapshot.
\<close>

theorem fleet_failure:
  assumes "s = fleet pt pf cfg" and "run_reach s r" and "i < length (sc_entries (run_scheduler r))"
    and "snd (refresh_result i inp (run_scheduler r)) = Some err"
    and "entry_name (sc_entries (run_scheduler r) ! i) \<notin> set replace_on_failure"
  shows "let q = run_scheduler r; q' = scheduler_refresh i inp q; name = entry_name (sc_entries q ! i)
    in scheduler_collect q' = scheduler_collect q \<and>
       sc_duration q' = (sc_duration q)(name \<mapsto> ri_seconds inp) \<and>
       sc_success q' = (if ri_shutdown inp \<and> \<not> errors_as_panic err then sc_success q
                        else (sc_success q)(name \<mapsto> Fin 0)) \<and>
       sc_last_ok q' = sc_last_ok q \<and> pending q' = pending q"
proof -
  let ?q = "run_scheduler r"
  let ?name = "entry_name (sc_entries ?q ! i)"
  have "fst (refresh_result i inp ?q) = co_state (en_collector (sc_entries ?q ! i))"
    using entry_laws(5) [OF assms(2) [unfolded assms(1)] nth_mem [OF assms(3)]] assms(4,5)
    by (simp add: refresh_result_def Let_def)
  then have "sc_entries (scheduler_refresh i inp ?q) = sc_entries ?q"
    by (simp add: scheduler_refresh_entries set_entry_state_def Let_def)
  moreover obtain st where "refresh_result i inp ?q = (st, Some err)"
    using assms(4) by (cases "refresh_result i inp ?q") auto
  note fields = scheduler_refresh_fields [OF this]
  have "sc_success (scheduler_refresh i inp ?q) =
      (if ri_shutdown inp \<and> \<not> errors_as_panic err then sc_success ?q
       else (sc_success ?q)(?name \<mapsto> Fin 0))"
    by (auto simp: fields(4) recorded_def bool_to_float_def)
  ultimately show ?thesis
    by (simp add: Let_def scheduler_collect_def pending_def fields(3,5,6))
qed

lemma fleet_failure_witness:
  "scheduler_collect (scheduler_refresh 0 demo_outage (run_scheduler demo_fleet_run)) =
     scheduler_collect (run_scheduler demo_fleet_run) \<and>
   sc_success (scheduler_refresh 0 demo_outage (run_scheduler demo_fleet_run)) ''account'' = Some (Fin 0)"
proof -
  have "length (sc_entries (run_scheduler demo_fleet_run)) = 2"
    using arg_cong [OF demo_fleet_run_names, of length] by simp
  then have i: "0 < length (sc_entries (run_scheduler demo_fleet_run))" by simp
  then have name: "entry_name (sc_entries (run_scheduler demo_fleet_run) ! 0) = ''account''"
    using demo_fleet_run_names by (cases "sc_entries (run_scheduler demo_fleet_run)") auto
  have "sc_entries (run_scheduler demo_fleet_run) ! 0 =
      entry_for (cf_timeout demo_fleet_config) demo_fleet_config (''account'', account_object)"
    by (simp add: demo_fleet_run_def run_refresh_def run_start_def Let_def scheduler_refresh_entries
        demo_fleet_def demo_fleet_entries)
  then have "\<exists>err. snd (refresh_result 0 demo_outage (run_scheduler demo_fleet_run)) = Some err"
    by (simp add: refresh_result_def guarded_refresh_def account_object_def hosted_def as_object_def
        demo_outage_def silent_world_def account_refresh_def snapshot_simps Let_def)
  then obtain err where e: "snd (refresh_result 0 demo_outage (run_scheduler demo_fleet_run)) = Some err" ..
  have "ri_shutdown (demo_outage :: unit world refresh_input) = False" by (simp add: demo_outage_def)
  with fleet_failure [OF demo_fleet_def demo_fleet_reach i e] name show ?thesis
    by (simp add: Let_def replace_on_failure_def)
qed

text \<open>The order of the table in \<open>registerCollectors\<close>, name by name.\<close>

definition table_order :: "string list" where
  "table_order =
     [''account'', ''balance'', ''databases'', ''droplets'', ''dropletautoscale'', ''images'',
      ''kubernetes'', ''limits'', ''registry'', ''reservedips'', ''spaces'', ''volumes'',
      ''loadbalancers'', ''cdn'', ''apps'', ''domains'', ''firewalls'', ''certificates'', ''tags'',
      ''projects'', ''dropletmetrics'', ''loadbalancermetrics'', ''uptime'']"

text \<open>
  C8. What an accepted configuration enables is what is scheduled: exactly the enabled
  collectors, each once and in the order of the table in the exporter, each on its own interval,
  which the scheduler never has to replace, and each under its own timeout where one is set and
  under the global one where none is; both are positive. No collector that has a flag is missing
  from the table.
\<close>

theorem registered_as_configured:
  assumes "resolve_config rf (bind v) = Inr cfg" and "s = fleet pt pf cfg"
  shows "names s = filter (\<lambda>name. \<exists>settings. cf_collectors cfg name = Some settings \<and> cg_enabled settings)
      table_order \<and>
    distinct (names s) \<and>
    (\<forall>name. name \<in> set (names s) \<longleftrightarrow>
      (\<exists>settings. cf_collectors cfg name = Some settings \<and> cg_enabled settings)) \<and>
    list_all (\<lambda>e. \<exists>settings. cf_collectors cfg (entry_name e) = Some settings \<and>
        en_interval e = cg_interval settings \<and> 0 < en_interval e \<and>
        en_timeout e = (if 0 < cg_timeout settings then cg_timeout settings else cf_timeout cfg) \<and>
        0 < en_timeout e) (sc_entries s)"
proof (intro conjI allI)
  show ordered: "names s = filter (\<lambda>name. \<exists>settings. cf_collectors cfg name = Some settings \<and>
      cg_enabled settings) table_order"
    unfolding assms(2) fleet_names available_names table_order_def
    by (intro filter_cong refl) (auto simp: collector_settings_def split: option.splits)
  show "distinct (names s)"
    by (simp add: assms(2) fleet_names available_distinct)
  show "name \<in> set (names s) \<longleftrightarrow>
      (\<exists>settings. cf_collectors cfg name = Some settings \<and> cg_enabled settings)" for name
    using config_names [OF assms(1)] available_set unfolding ordered set_filter
    by (auto simp: table_order_def available_names)
  have "\<exists>settings. cf_collectors cfg (entry_name e) = Some settings \<and>
        en_interval e = cg_interval settings \<and> 0 < en_interval e \<and>
        en_timeout e = (if 0 < cg_timeout settings then cg_timeout settings else cf_timeout cfg) \<and>
        0 < en_timeout e" if e: "e \<in> set (sc_entries s)" for e
  proof -
    obtain nc where nc: "e = entry_for (cf_timeout cfg) cfg nc"
      "nc \<in> set (enabled_in cfg (available pt pf cfg))"
      using e by (auto simp: assms(2) fleet_entries)
    obtain settings where settings: "cf_collectors cfg (fst nc) = Some settings"
      using enabled_settings [OF nc(2)] ..
    have "entry_name e = fst nc" by (simp add: nc(1) fleet_entry_name [OF nc(2)])
    moreover have "en_timeout e = (if 0 < cg_timeout settings then cg_timeout settings else cf_timeout cfg)"
      by (simp add: nc(1) entry_for_def collector_settings_def settings)
    moreover have "en_interval e = cg_interval settings \<and> 0 < en_interval e \<and> 0 < en_timeout e"
      using enabled_times [OF assms(1) nc(2)] by (simp add: nc(1) collector_settings_def settings)
    ultimately show ?thesis using settings by (intro exI [of _ settings]) simp
  qed
  then show "list_all (\<lambda>e. \<exists>settings. cf_collectors cfg (entry_name e) = Some settings \<and>
        en_interval e = cg_interval settings \<and> 0 < en_interval e \<and>
        en_timeout e = (if 0 < cg_timeout settings then cg_timeout settings else cf_timeout cfg) \<and>
        0 < en_timeout e) (sc_entries s)"
    unfolding list_all_iff by blast
qed

lemma registered_as_configured_witness:
  "\<exists>cfg. resolve_config (\<lambda>_. Inl (Other ''no such file'')) (bind demo_value) = Inr cfg \<and>
     distinct (names (fleet (\<lambda>t. None) (\<lambda>t. Inr (Fin 0)) cfg :: (unit world, fleet_state) scheduler))"
proof -
  obtain cfg where c: "resolve_config (\<lambda>_. Inl (Other ''no such file'')) (bind demo_value) = Inr cfg"
    using demo_config by blast
  from registered_as_configured [OF c refl] c show ?thesis by blast
qed

end
