(* ===== verification/Outage.thy ===== *)
theory Outage
  imports Exposition
begin

text \<open>
  An outage: a stretch of a run in which no request is answered. Every refresh of every collector
  fails then, and of all collectors but spaces nothing that is shown changes. How the requests fail
  is open: each may fail with an error of its own, a timeout or a cancellation among them, and the
  context of a refresh may be done at any point, before its first request or later.
\<close>

section \<open>No request is answered\<close>

definition mute :: "'a list_func \<Rightarrow> bool" where
  "mute list \<longleftrightarrow> (\<forall>k n. isl (list k n))"

text \<open>
  The requests a refresh begins with: those it makes nothing without. A 404 of the registry
  endpoint is an answer, the one that says there is no registry.
\<close>

definition silent :: "'req world \<Rightarrow> bool" where
  "silent w \<longleftrightarrow>
     isl (w_account w) \<and> isl (w_balance w) \<and>
     (\<forall>k n. isl (db_list (w_databases w) k n)) \<and>
     mute (da_list (w_droplets w)) \<and> (\<forall>tag. mute (da_list_by_tag (w_droplets w) tag)) \<and>
     (\<forall>k req. isl (aa_do (w_dropletautoscale w) k req)) \<and>
     mute (ia_list (w_images w)) \<and> mute (ka_list (w_kubernetes w)) \<and>
     isl (lm_droplets (w_limits w)) \<and> isl (lm_reserved_ips (w_limits w)) \<and>
     isl (lm_volumes (w_limits w)) \<and>
     isl (ra_list (w_registry w)) \<and>
     (\<exists>e. ra_get (w_registry w) = Inl e \<and> errors_as_api e \<noteq> Some (Some 404)) \<and>
     mute (pa_list4 (w_reservedips w)) \<and> mute (pa_list6 (w_reservedips w)) \<and>
     (\<forall>region. isl (se_list (w_spaces w) region)) \<and>
     (\<forall>region bucket. \<exists>e status. se_head (w_spaces w) region bucket = HeadFailed e status) \<and>
     mute (la_list (w_volumes w)) \<and> mute (la_list (w_loadbalancers w)) \<and>
     mute (la_list (w_cdn w)) \<and> mute (la_list (w_apps w)) \<and> mute (la_list (w_domains w)) \<and>
     mute (la_list (w_firewalls w)) \<and> mute (la_list (w_certificates w)) \<and>
     mute (la_list (w_tags w)) \<and> mute (pja_list (w_projects w)) \<and>
     mute (da_list (dme_listing (w_dropletmetrics w))) \<and>
     (\<forall>tag. mute (da_list_by_tag (dme_listing (w_dropletmetrics w)) tag)) \<and>
     mute (lbe_list (w_loadbalancermetrics w)) \<and> mute (ua_list (w_uptime w))"

text \<open>The world of the examples is silent, also when its requests time out.\<close>

lemma silent_world_silent: "errors_as_api e \<noteq> Some (Some 404) \<Longrightarrow> silent (silent_world e)"
  by (simp add: silent_def silent_world_def silent_list_def silent_droplets_def mute_def Let_def)

section \<open>Every refresh fails\<close>

definition failed :: "'a res \<Rightarrow> bool" where
  "failed r \<longleftrightarrow> (\<exists>err. r = Inl err)"

lemma failed_Inl [simp]: "failed (Inl err)"
  by (simp add: failed_def)

lemma isl_failed: "isl r \<longleftrightarrow> failed r"
  by (cases r) (simp_all add: failed_def)

lemma failed_and_then: "failed r \<Longrightarrow> failed (and_then r f)"
  by (auto simp: failed_def and_then_def)

lemma failed_paging: "mute list \<Longrightarrow> failed (fst (paging_all c what key list))"
proof -
  assume "mute list"
  then obtain e where "list 0 0 = Inl e" by (auto simp: mute_def isl_def)
  then show ?thesis
    by (auto simp: failed_def paging_all_def all_loop.simps [of c what key list] ctx_err_def)
qed

lemma failed_replace: "failed r \<Longrightarrow> \<exists>err. replace_snapshot r upd s = (s, Some err)"
  by (auto simp: failed_def replace_snapshot_def)

lemma failed_listing: "mute (la_list api) \<Longrightarrow> \<exists>err. listing_refresh keep convert key what api s = (s, Some err)"
  unfolding listing_refresh_def by (intro failed_replace failed_paging)

lemma failed_clusters:
  assumes "\<forall>k n. isl (db_list api k n)"
  shows "failed (list_clusters f api)"
proof -
  obtain e where "db_list api 0 1 = Inl e" using assms by (auto simp: isl_def)
  then have "failed (under_ctx (db_ctx api) 0 (db_list api 0 1))"
    by (auto simp: failed_def under_ctx_def split: option.split)
  then show ?thesis
    by (auto simp: failed_def list_clusters_def list_clusters_from.simps [of f api 0])
qed

lemma mute_parts:
  "mute (da_list api) \<Longrightarrow> (\<forall>tag. mute (da_list_by_tag api tag)) \<Longrightarrow> mute (droplet_listing api f)"
  "(\<forall>k req. isl (aa_do pools k req)) \<Longrightarrow> mute (list_pools pools)"
  "mute list \<Longrightarrow> mute (nil_panics list)"
  by (auto simp: mute_def droplet_listing_def list_pools_def nil_panics_def and_then_def Let_def
      isl_def split: option.split sum.split) (metis Inl_Inr_False)+

lemma failed_escape: "failed r \<Longrightarrow> failed (escape_panic r)"
  by (cases r) (auto simp: failed_def escape_panic_Inr, metis escape_panic_Inr obj_sumE)

lemma failed_dm_list:
  assumes "mute (da_list (dme_listing env))" and "\<forall>tag. mute (da_list_by_tag (dme_listing env) tag)"
  shows "failed (dm_list_droplets env c)"
proof -
  have "mute (case single_tag (dm_filter c) of None \<Rightarrow> da_list (dme_listing env)
      | Some tag \<Rightarrow> da_list_by_tag (dme_listing env) tag)"
    using assms by (simp split: option.split)
  from failed_paging [OF this, of "da_ctx (dme_listing env)" "''droplets''" gd_id] show ?thesis
    by (auto simp: failed_def dm_list_droplets_def Let_def)
qed

lemma failed_lb_list: "mute (lbe_list env) \<Longrightarrow> failed (lb_list_load_balancers env c)"
  using failed_paging [of "lbe_list env" "lbe_ctx env" "''load balancers''" glb_id]
  by (auto simp: failed_def lb_list_load_balancers_def)

lemma failed_registries:
  "isl (ra_list api) \<Longrightarrow> ra_get api = Inl e \<Longrightarrow> errors_as_api e \<noteq> Some (Some 404) \<Longrightarrow>
     failed (list_registries api)"
  by (auto simp: failed_def list_registries_def isl_def is_not_found_def split: option.splits)

text \<open>Collectors whose Refresh deals with the failed request itself.\<close>

lemma single_silent:
  assumes "silent w"
  shows "\<exists>err. account_refresh (w_account w) s0 = (s0, Some err)"
    and "\<exists>err. balance_refresh pf (w_balance w) s1 = (s1, Some err)"
    and "\<exists>err. limits_refresh (w_limits w) s7 = (s7, Some err)"
    and "\<exists>err. registry_refresh (w_registry w) s8 = (s8, Some err)"
    and "\<exists>err. projects_refresh (w_projects w) s19 = (s19, Some err)"
    and "\<exists>err. dm_refresh (w_dropletmetrics w) s20 = (s20, Some err)"
    and "\<exists>err. lb_refresh (w_loadbalancermetrics w) s21 = (s21, Some err)"
proof -
  note w = assms [unfolded silent_def]
  show "\<exists>err. account_refresh (w_account w) s0 = (s0, Some err)"
    using w by (auto simp: account_refresh_def isl_failed failed_def intro!: failed_replace)
  show "\<exists>err. balance_refresh pf (w_balance w) s1 = (s1, Some err)"
    using w by (auto simp: balance_refresh_def read_balance_def isl_failed failed_def and_then_def
        intro!: failed_replace)
  show "\<exists>err. limits_refresh (w_limits w) s7 = (s7, Some err)"
    using w unfolding limits_refresh_def
    by (intro failed_replace failed_and_then) (auto simp: count_droplets_def isl_failed failed_def)
  show "\<exists>err. registry_refresh (w_registry w) s8 = (s8, Some err)"
    using w failed_registries [of "w_registry w"] by (fastforce simp: registry_refresh_def failed_def)
  show "\<exists>err. projects_refresh (w_projects w) s19 = (s19, Some err)"
    using w failed_paging [of "pja_list (w_projects w)" "pja_ctx (w_projects w)" "''projects''" gpj_id]
    by (auto simp: projects_refresh_def failed_def)
  show "\<exists>err. dm_refresh (w_dropletmetrics w) s20 = (s20, Some err)"
    using w failed_dm_list [of "w_dropletmetrics w" s20] by (auto simp: dm_refresh_def failed_def)
  show "\<exists>err. lb_refresh (w_loadbalancermetrics w) s21 = (s21, Some err)"
    using w failed_lb_list [of "w_loadbalancermetrics w" s21] by (auto simp: lb_refresh_def failed_def)
qed

text \<open>Collectors that walk a list of their own.\<close>

lemma paged_silent:
  assumes "silent w"
  shows "\<exists>err. databases_refresh d f (w_databases w) s2 = (s2, Some err)"
    and "\<exists>err. droplets_refresh pt f (w_droplets w) s3 = (s3, Some err)"
    and "\<exists>err. autoscale_refresh (w_dropletautoscale w) s4 = (s4, Some err)"
    and "\<exists>err. images_refresh pt (w_images w) s5 = (s5, Some err)"
    and "\<exists>err. k8s_refresh d f (w_kubernetes w) s6 = (s6, Some err)"
    and "\<exists>err. reserved_ips_refresh (w_reservedips w) s9 = (s9, Some err)"
    and "\<exists>err. apps_refresh (w_apps w) s14 = (s14, Some err)"
    and "\<exists>err. uptime_refresh pt (w_uptime w) s22 = (s22, Some err)"
proof -
  note w = assms [unfolded silent_def]
  show "\<exists>err. databases_refresh d f (w_databases w) s2 = (s2, Some err)"
    using w unfolding databases_refresh_def by (intro failed_replace failed_and_then failed_clusters) simp
  show "\<exists>err. droplets_refresh pt f (w_droplets w) s3 = (s3, Some err)"
    using w unfolding droplets_refresh_def by (intro failed_replace failed_paging mute_parts) simp_all
  show "\<exists>err. autoscale_refresh (w_dropletautoscale w) s4 = (s4, Some err)"
    using w unfolding autoscale_refresh_def by (intro failed_replace failed_paging mute_parts) simp
  show "\<exists>err. images_refresh pt (w_images w) s5 = (s5, Some err)"
    using w unfolding images_refresh_def by (intro failed_replace failed_paging) simp
  show "\<exists>err. k8s_refresh d f (w_kubernetes w) s6 = (s6, Some err)"
    using w unfolding k8s_refresh_def by (intro failed_replace failed_and_then failed_paging) simp
  show "\<exists>err. reserved_ips_refresh (w_reservedips w) s9 = (s9, Some err)"
    using w unfolding reserved_ips_refresh_def by (intro failed_replace failed_and_then failed_paging) simp
  show "\<exists>err. apps_refresh (w_apps w) s14 = (s14, Some err)"
    using w unfolding apps_refresh_def
    by (intro failed_replace failed_escape failed_paging mute_parts) simp
  show "\<exists>err. uptime_refresh pt (w_uptime w) s22 = (s22, Some err)"
    using w unfolding uptime_refresh_def by (intro failed_replace failed_and_then failed_paging) simp
qed

text \<open>Collectors of the shape of Listing.\<close>

lemma listing_silent:
  assumes "silent w"
  shows "\<exists>err. volumes_refresh f (w_volumes w) s11 = (s11, Some err)"
    and "\<exists>err. balancers_refresh f (w_loadbalancers w) s12 = (s12, Some err)"
    and "\<exists>err. cdn_refresh (w_cdn w) s13 = (s13, Some err)"
    and "\<exists>err. domains_refresh (w_domains w) s15 = (s15, Some err)"
    and "\<exists>err. firewalls_refresh f (w_firewalls w) s16 = (s16, Some err)"
    and "\<exists>err. certificates_refresh pt (w_certificates w) s17 = (s17, Some err)"
    and "\<exists>err. tags_refresh (w_tags w) s18 = (s18, Some err)"
proof -
  note w = assms [unfolded silent_def]
  show "\<exists>err. volumes_refresh f (w_volumes w) s11 = (s11, Some err)"
    using w unfolding volumes_refresh_def by (intro failed_listing) simp
  show "\<exists>err. balancers_refresh f (w_loadbalancers w) s12 = (s12, Some err)"
    using w unfolding balancers_refresh_def by (intro failed_listing) simp
  show "\<exists>err. cdn_refresh (w_cdn w) s13 = (s13, Some err)"
    using w unfolding cdn_refresh_def by (intro failed_listing) simp
  show "\<exists>err. domains_refresh (w_domains w) s15 = (s15, Some err)"
    using w unfolding domains_refresh_def by (intro failed_listing) simp
  show "\<exists>err. firewalls_refresh f (w_firewalls w) s16 = (s16, Some err)"
    using w unfolding firewalls_refresh_def by (intro failed_listing) simp
  show "\<exists>err. certificates_refresh pt (w_certificates w) s17 = (s17, Some err)"
    using w unfolding certificates_refresh_def by (intro failed_listing) simp
  show "\<exists>err. tags_refresh (w_tags w) s18 = (s18, Some err)"
    using w unfolding tags_refresh_def by (intro failed_listing) simp
qed

lemmas refresh_silent = single_silent paged_silent listing_silent

lemma spaces_silent:
  assumes "silent w"
  shows "\<exists>err. snd (spaces_refresh (w_spaces w) c) = Some err"
proof (cases "discovering c")
  case True
  have "isl (se_list (w_spaces w) (so_region c))" using assms by (simp add: silent_def)
  then obtain e where "se_list (w_spaces w) (so_region c) = Inl e" by (auto simp: isl_def)
  with True show ?thesis
    by (simp add: spaces_refresh_def resolve_buckets_def discover_def Let_def)
next
  case False
  then have some: "so_buckets c \<noteq> []" by (simp add: discovering_def)
  have heads: "\<forall>region bucket. \<exists>e status. se_head (w_spaces w) region bucket = HeadFailed e status"
    using assms by (simp add: silent_def)
  have "br_err (measure_bucket (w_spaces w) b) \<noteq> None" for b
  proof -
    obtain e status where "se_head (w_spaces w) (snd b) (fst b) = HeadFailed e status"
      using heads by blast
    then show ?thesis by (simp add: measure_bucket_def bucket_usage_def)
  qed
  then show ?thesis
    using False some
    by (simp add: spaces_refresh_def resolve_buckets_def Let_def spaces_report_def
        spaces_measure_all_def comp_def case_prod_beta)
qed

text \<open>A table entry whose every refresh fails in an outage, without touching its state.\<close>

definition silenced :: "string \<Rightarrow> ('req world, fleet_state) collector_obj \<Rightarrow> bool" where
  "silenced name c \<longleftrightarrow>
     (\<forall>world ctx st. belongs name st \<longrightarrow> silent (world ctx) \<longrightarrow>
        (let r = guarded_refresh (c\<lparr>co_state := st\<rparr>) world ctx
         in snd r \<noteq> None \<and> (name \<noteq> ''spaces'' \<longrightarrow> fst r = st)))"

lemma hosted_silenced:
  fixes asked :: "'req world \<Rightarrow> 'e"
  assumes "\<And>t. belongs name t \<Longrightarrow> \<exists>s. t = wrap s" and "\<And>s. unwrap (wrap s) = s"
    and "\<And>w s. silent w \<Longrightarrow> \<exists>err. r (asked w) s = (s, Some err)"
  shows "silenced name (hosted name ds r c s0 asked wrap unwrap)"
  unfolding silenced_def
proof (intro allI impI)
  fix world :: "call_ctx \<Rightarrow> 'req world" and ctx st
  assume "belongs name st" and silent: "silent (world ctx)"
  then obtain s where s: "st = wrap s" using assms(1) by blast
  obtain err where "r (asked (world ctx)) s = (s, Some err)" using assms(3) [OF silent] by blast
  then show "let r = guarded_refresh ((hosted name ds r c s0 asked wrap unwrap)\<lparr>co_state := st\<rparr>)
        world ctx
      in snd r \<noteq> None \<and> (name \<noteq> ''spaces'' \<longrightarrow> fst r = st)"
    by (simp add: hosted_refresh s assms(2) Let_def)
qed

lemma objects_silenced:
  "silenced ''account'' (account_object)"
  "silenced ''balance'' (balance_object pf)"
  "silenced ''databases'' (databases_object cfg)"
  "silenced ''droplets'' (droplets_object pt cfg)"
  "silenced ''dropletautoscale'' (dropletautoscale_object)"
  "silenced ''images'' (images_object pt)"
  "silenced ''kubernetes'' (kubernetes_object cfg)"
  "silenced ''limits'' (limits_object)"
  "silenced ''registry'' (registry_object)"
  "silenced ''reservedips'' (reservedips_object)"
  "silenced ''volumes'' (volumes_object cfg)"
  "silenced ''loadbalancers'' (loadbalancers_object cfg)"
  "silenced ''cdn'' (cdn_object)"
  "silenced ''apps'' (apps_object)"
  "silenced ''domains'' (domains_object)"
  "silenced ''firewalls'' (firewalls_object cfg)"
  "silenced ''certificates'' (certificates_object pt)"
  "silenced ''tags'' (tags_object)"
  "silenced ''projects'' (projects_object)"
  "silenced ''dropletmetrics'' (dropletmetrics_object cfg)"
  "silenced ''loadbalancermetrics'' (loadbalancermetrics_object cfg)"
  "silenced ''uptime'' (uptime_object pt)"
  unfolding object_defs
  by (rule hosted_silenced, auto simp only: object_states, simp, erule refresh_silent)+

lemma spaces_silenced: "silenced ''spaces'' (spaces_object cfg)"
  using spaces_silent
  by (fastforce simp: silenced_def spaces_object_def hosted_refresh object_states Let_def)

lemma available_silenced: "list_all (\<lambda>(name, c). silenced name c) (available pt pf cfg)"
  by (simp add: available_def objects_silenced spaces_silenced)

section \<open>A stretch of a run\<close>

text \<open>Whatever context the refresh is given, it gets no answer under it.\<close>

definition unanswered :: "'req world refresh_input \<Rightarrow> bool" where
  "unanswered inp \<longleftrightarrow> (\<forall>ctx. silent (ri_world inp ctx))"

lemma filter_update:
  "\<not> P (xs ! i) \<Longrightarrow> \<not> P y \<Longrightarrow> filter P (xs[i := y]) = filter P xs"
proof (cases "i < length xs")
  case True
  assume "\<not> P (xs ! i)" and "\<not> P y"
  then show ?thesis
    using True id_take_nth_drop [OF True] upd_conv_take_nth_drop [OF True, of y]
    by (metis append_Cons append_Nil filter.simps(2) filter_append)
qed (simp add: list_update_beyond)

text \<open>All entries but the one of spaces.\<close>

definition others :: "('env, 's) scheduler \<Rightarrow> ('env, 's) entry list" where
  "others s = filter (\<lambda>e. entry_name e \<noteq> ''spaces'') (sc_entries s)"

lemma silent_refresh:
  assumes "entries_all (serves (available pt pf cfg)) q" and "i < length (sc_entries q)"
    and "unanswered inp"
  shows "snd (refresh_result i inp q) \<noteq> None" and "others (scheduler_refresh i inp q) = others q"
proof -
  let ?e = "sc_entries q ! i"
  obtain name c0 st where t: "(name, c0) \<in> set (available pt pf cfg)"
    and c: "en_collector ?e = c0\<lparr>co_state := st\<rparr>" and b: "belongs name st"
    using assms(1,2) by (auto simp: entries_all_def serves_def dest!: nth_mem)
  have n: "entry_name ?e = name"
    using t available_named [of pt pf cfg] by (auto simp: entry_name_def c list_all_iff)
  have "silenced name c0" using t available_silenced [of pt pf cfg] by (auto simp: list_all_iff)
  then have r: "snd (refresh_result i inp q) \<noteq> None \<and>
      (name \<noteq> ''spaces'' \<longrightarrow> fst (refresh_result i inp q) = st)"
    using b assms(3) by (simp add: silenced_def refresh_result_def Let_def unanswered_def c)
  then show "snd (refresh_result i inp q) \<noteq> None" by blast
  show "others (scheduler_refresh i inp q) = others q"
  proof (cases "name = ''spaces''")
    case True
    then show ?thesis
      by (simp add: others_def scheduler_refresh_entries set_entry_state_def Let_def filter_update n)
  next
    case False
    then have "fst (refresh_result i inp q) = co_state (en_collector ?e)" using r by (simp add: c)
    then have "sc_entries (scheduler_refresh i inp q) = sc_entries q"
      by (simp add: scheduler_refresh_entries set_entry_state_def Let_def)
    then show ?thesis by (simp add: others_def)
  qed
qed

lemma silent_refreshes:
  assumes "entries_all (serves (available pt pf cfg)) q"
    and "\<And>i inp. (i, inp) \<in> set calls \<Longrightarrow> i < length (sc_entries q) \<and> unanswered inp"
  shows "others (refresh_all calls q) = others q \<and> sc_ready (refresh_all calls q) = sc_ready q \<and>
    list_all (\<lambda>(name, shutdown, err). err \<noteq> None) (outcomes calls q)"
  using assms
proof (induction calls arbitrary: q)
  case (Cons call calls)
  obtain i inp where [simp]: "call = (i, inp)" by fastforce
  have i: "i < length (sc_entries q)" "unanswered inp" using Cons.prems(2) [of i inp] by auto
  note silent = silent_refresh [OF Cons.prems(1) i]
  have "entries_all (serves (available pt pf cfg)) (scheduler_refresh i inp q)"
    by (rule entries_all_refresh [where P = "serves (available pt pf cfg)", OF serves_step Cons.prems(1)])
  moreover have "sc_ready (scheduler_refresh i inp q) = sc_ready q"
    using silent(1) scheduler_refresh_fields(6) [of i inp q] by (cases "refresh_result i inp q") auto
  ultimately show ?case
    using Cons.IH [of "scheduler_refresh i inp q"] Cons.prems(2) silent by (auto simp: silent(2))
qed simp

section \<open>Property\<close>

text \<open>
  C5. In an outage, however long and in whatever order the loops come to refresh, every refresh
  fails, no collector becomes ready that was not, and the snapshot of every collector but spaces
  stays what it was: a scrape is sent the last known values, with no gap. The requests of the
  outage may fail in different ways, refused, timed out or cancelled, also within one refresh, and
  the context of a refresh may be done before its first request or at any time after.
\<close>

theorem outage_keeps:
  assumes "s = fleet pt pf cfg" and "run_reach s r" and "run_step\<^sup>*\<^sup>* r r'"
    and "run_log r' = run_log r @ calls" and "list_all (\<lambda>(i, inp). unanswered inp) calls"
  shows "others (run_scheduler r') = others (run_scheduler r) \<and>
    pending (run_scheduler r') = pending (run_scheduler r) \<and>
    list_all (\<lambda>(name, shutdown, err). err \<noteq> None) (outcomes calls (run_scheduler r))"
proof -
  let ?q = "run_scheduler r"
  have r': "run_reach s r'" using pending_after_steps [OF assms(2,3)] by blast
  then have q': "run_scheduler r' = refresh_all calls ?q"
    by (simp add: run_refines [OF r'] run_refines [OF assms(2)] assms(4))
  have "i < length (sc_entries ?q) \<and> unanswered inp" if "(i, inp) \<in> set calls" for i inp
  proof -
    have "i < length (sc_entries s)"
      using run_reach_inv [OF r'] that by (auto simp: run_inv_def assms(4))
    then show ?thesis
      using that assms(5) by (auto simp: list_all_iff run_refines [OF assms(2)])
  qed
  then have "others (refresh_all calls ?q) = others ?q \<and> sc_ready (refresh_all calls ?q) = sc_ready ?q \<and>
      list_all (\<lambda>(name, shutdown, err). err \<noteq> None) (outcomes calls ?q)"
    by (rule silent_refreshes [OF fleet_serves [OF assms(2) [unfolded assms(1)]]])
  moreover have "pending (refresh_all calls ?q) = pending ?q" if "sc_ready (refresh_all calls ?q) = sc_ready ?q"
    using that refresh_all_kept(1) [of calls ?q] by (simp add: pending_def names_def)
  ultimately show ?thesis by (simp add: q')
qed

definition demo_timeout :: "unit world refresh_input" where
  "demo_timeout =
     \<lparr>ri_world = (\<lambda>ctx. silent_world (Sentinel DeadlineExceeded)), ri_seconds = Fin 30, ri_now = 40,
      ri_shutdown = False\<rparr>"

lemma demo_unanswered: "unanswered demo_outage" "unanswered demo_timeout"
  by (simp_all add: unanswered_def demo_outage_def demo_timeout_def silent_world_silent)

lemma outage_keeps_witness:
  "others (run_scheduler (run_refresh 0 demo_timeout (run_refresh 0 demo_outage demo_fleet_run))) =
     others (run_scheduler demo_fleet_run) \<and>
   outcomes [(0, demo_outage), (0, demo_timeout)] (run_scheduler demo_fleet_run) \<noteq> []"
proof -
  let ?r = "run_refresh 0 demo_outage demo_fleet_run"
  have "0 < length (run_phases demo_fleet_run)" "\<exists>k. run_phases demo_fleet_run ! 0 = Waiting k"
    "\<not> run_done demo_fleet_run"
    by (simp_all add: demo_fleet_run_def run_refresh_def run_start_def Let_def demo_fleet_def demo_fleet_entries)
  then have first: "run_step demo_fleet_run ?r" by (auto intro: run_step.first)
  have "0 < length (run_phases ?r)" "run_phases ?r ! 0 = Ticking" "\<not> run_done ?r"
    by (simp_all add: demo_fleet_run_def run_refresh_def run_start_def Let_def demo_fleet_def demo_fleet_entries)
  then have again: "run_step ?r (run_refresh 0 demo_timeout ?r)" by (auto intro: run_step.tick)
  from outage_keeps [OF demo_fleet_def demo_fleet_reach, of "run_refresh 0 demo_timeout ?r"
      "[(0, demo_outage), (0, demo_timeout)]"] first again
  show ?thesis
    by (simp add: run_refresh_def demo_unanswered converse_rtranclp_into_rtranclp)
qed

end
