(* ===== verification/Recovery.thy ===== *)
theory Recovery
  imports Outage
begin

text \<open>
  The opposite of an outage: every request is answered, from an inventory of what the account
  holds. Whatever it holds and whatever state a run has left the collectors in, every refresh then
  succeeds, so one refresh of each makes the exporter ready.
\<close>

section \<open>An account\<close>

text \<open>
  What the API holds, resource by resource, and what it answers about each. \<open>iv_queued\<close> is how many
  resources the monitoring collectors got to before their deadline.
\<close>

record inventory =
  iv_account :: godo_account
  iv_balance :: godo_balance
  iv_databases :: "godo_database list"
  iv_replicas :: "string \<Rightarrow> godo_replica list"
  iv_backups :: "string \<Rightarrow> godo_backup list"
  iv_droplets :: "godo_droplet list"
  iv_tagged :: "string \<Rightarrow> godo_droplet list"
  iv_pools :: "api_pool list"
  iv_images :: "godo_stored_image list"
  iv_clusters :: "godo_cluster list"
  iv_upgrades :: "string \<Rightarrow> string option list"
  iv_totals :: "int \<times> int \<times> int"
  iv_registries :: "godo_registry list"
  iv_subscription :: "godo_tier option option"
  iv_repositories :: "string \<Rightarrow> godo_repository list"
  iv_ips :: "godo_reserved_ip list"
  iv_ips6 :: "godo_reserved_ipv6 list"
  iv_buckets :: "string option list"
  iv_bucket_region :: "string \<Rightarrow> string"
  iv_bucket_header :: "string \<Rightarrow> string \<Rightarrow> string \<Rightarrow> string"
  iv_volumes :: "godo_volume list"
  iv_balancers :: "godo_balancer list"
  iv_endpoints :: "godo_cdn list"
  iv_apps :: "godo_app list"
  iv_domains :: "godo_domain list"
  iv_firewalls :: "godo_firewall list"
  iv_certificates :: "godo_certificate list"
  iv_tags :: "godo_tag list"
  iv_projects :: "godo_project list"
  iv_resources :: "string \<Rightarrow> string list"
  iv_droplet_series :: "droplet_endpoint \<Rightarrow> metrics_request \<Rightarrow> sample_stream list"
  iv_measured_balancers :: "godo_load_balancer list"
  iv_balancer_series :: "lb_endpoint \<Rightarrow> metrics_request \<Rightarrow> sample_stream list"
  iv_checks :: "godo_check list"
  iv_check_state :: "string \<Rightarrow> godo_check_state"
  iv_now :: int
  iv_queued :: nat

definition living :: ctx where
  "living = \<lparr>ctx_live = 9, ctx_cause = Sentinel DeadlineExceeded\<rparr>"

definition one_page :: "'g list \<Rightarrow> 'g list_func" where
  "one_page xs k page = Inr (xs, LastPage)"

definition listing_of :: "'g list \<Rightarrow> 'g listing_api" where
  "listing_of xs = \<lparr>la_ctx = living, la_list = one_page xs\<rparr>"

definition measured_series :: "sample_stream list \<Rightarrow> metrics_response option res" where
  "measured_series streams = Inr (Some \<lparr>mr_status = success_status, mr_result = streams\<rparr>)"

definition droplets_of :: "inventory \<Rightarrow> droplet_api" where
  "droplets_of stock =
     \<lparr>da_ctx = living, da_list = one_page (iv_droplets stock),
      da_list_by_tag = (\<lambda>tag. one_page (iv_tagged stock tag))\<rparr>"

definition answering :: "'req \<Rightarrow> inventory \<Rightarrow> 'req world" where
  "answering req stock =
     \<lparr>w_account = Inr (iv_account stock), w_balance = Inr (iv_balance stock),
      w_databases = \<lparr>db_ctx = living,
        db_list = (\<lambda>k page. Inr (if page = 1 then iv_databases stock else [])),
        db_replicas_ctx = (\<lambda>i. living), db_replicas = (\<lambda>i. one_page (iv_replicas stock i)),
        db_backups_ctx = (\<lambda>i. living), db_backups = (\<lambda>i. one_page (iv_backups stock i)),
        db_done = (\<lambda>i. False)\<rparr>,
      w_droplets = droplets_of stock,
      w_dropletautoscale = \<lparr>aa_ctx = living, aa_new_request = (\<lambda>path. Inr req),
        aa_do = (\<lambda>k r. Inr (\<lparr>pr_pools = iv_pools stock, pr_links = None\<rparr>, LastPage))\<rparr>,
      w_images = \<lparr>ia_ctx = living, ia_list = one_page (iv_images stock)\<rparr>,
      w_kubernetes = \<lparr>ka_ctx = living, ka_list = one_page (iv_clusters stock),
        ka_upgrades = (\<lambda>i. Inr (iv_upgrades stock i)), ka_done = (\<lambda>i. False)\<rparr>,
      w_limits = (case iv_totals stock of
        (d, r, v) \<Rightarrow> \<lparr>lm_droplets = Inr (Some d), lm_reserved_ips = Inr (Some r), lm_volumes = Inr (Some v)\<rparr>),
      w_registry = \<lparr>ra_list = Inr (iv_registries stock), ra_get = Inl (ApiError (Some 404)),
        ra_subscription = (\<lambda>multi. Inr (iv_subscription stock)), ra_repos_ctx = (\<lambda>i. living),
        ra_repos = (\<lambda>multi name k token. Inr (iv_repositories stock name, LastTokenPage))\<rparr>,
      w_reservedips = \<lparr>pa_ctx4 = living, pa_list4 = one_page (iv_ips stock), pa_ctx6 = living,
        pa_list6 = one_page (iv_ips6 stock)\<rparr>,
      w_spaces = \<lparr>se_list = (\<lambda>region. Inr (iv_buckets stock)),
        se_location = (\<lambda>name. Inr (iv_bucket_region stock name)),
        se_head = (\<lambda>region name. HeadOk (iv_bucket_header stock region name))\<rparr>,
      w_volumes = listing_of (iv_volumes stock), w_loadbalancers = listing_of (iv_balancers stock),
      w_cdn = listing_of (iv_endpoints stock), w_apps = listing_of (map Some (iv_apps stock)),
      w_domains = listing_of (iv_domains stock), w_firewalls = listing_of (iv_firewalls stock),
      w_certificates = listing_of (iv_certificates stock), w_tags = listing_of (iv_tags stock),
      w_projects = \<lparr>pja_ctx = living, pja_list = one_page (iv_projects stock),
        pja_resources_ctx = (\<lambda>i. living), pja_resources = (\<lambda>i. one_page (iv_resources stock i))\<rparr>,
      w_dropletmetrics = \<lparr>dme_listing = droplets_of stock, dme_now = iv_now stock,
        dme_fetch = (\<lambda>endpoint req. measured_series (iv_droplet_series stock endpoint req)),
        dme_queued = iv_queued stock, dme_after = None\<rparr>,
      w_loadbalancermetrics = \<lparr>lbe_ctx = living, lbe_list = one_page (iv_measured_balancers stock),
        lbe_now = iv_now stock,
        lbe_fetch = (\<lambda>endpoint req. measured_series (iv_balancer_series stock endpoint req)),
        lbe_queued = iv_queued stock, lbe_after = None\<rparr>,
      w_uptime = \<lparr>ua_ctx = living, ua_list = one_page (iv_checks stock),
        ua_state = (\<lambda>i. Inr (iv_check_state stock i)), ua_done = (\<lambda>i. False)\<rparr>\<rparr>"

text \<open>
  What an answer must be made of to be read: amounts and usage headers that are numbers, no null
  node pool. The monitoring collectors must stock got to somebody.
\<close>

definition readable :: "(string \<Rightarrow> float64 res) \<Rightarrow> inventory \<Rightarrow> bool" where
  "readable pf stock \<longleftrightarrow>
     (\<forall>raw \<in> {gb_account_balance (iv_balance stock), gb_month_to_date_balance (iv_balance stock),
         gb_month_to_date_usage (iv_balance stock)}. \<exists>x. pf (trim_space raw) = Inr x) \<and>
     (\<forall>kc \<in> set (iv_clusters stock). None \<notin> set (gc_node_pools kc)) \<and>
     (\<forall>region name. \<forall>header \<in> {object_count_header, bytes_used_header}.
        iv_bucket_header stock region name header \<noteq> '''' \<and>
        atoi (iv_bucket_header stock region name header) \<noteq> None) \<and>
     0 < iv_queued stock"

section \<open>Every refresh succeeds\<close>

lemma living_page [simp]: "fst (paging_all living what key (one_page xs)) = Inr (first_by key xs)"
proof -
  have "one_page xs = (\<lambda>k page. Inr (xs, LastPage))"
    by (rule ext)+ (simp add: one_page_def)
  then show ?thesis
    unfolding paging_all_walk
    by (intro exI [of _ "[xs]"] conjI walk_stop [where lnk = LastPage])
      (simp_all add: living_def ctx_err_def)
qed

lemma map_res_succeeds: "(\<And>x. x \<in> set xs \<Longrightarrow> \<exists>y. f x = Inr y) \<Longrightarrow> \<exists>ys. map_res f xs = Inr ys"
proof (induction xs)
  case (Cons x xs)
  then show ?case by (fastforce simp: and_then_Inr)
qed simp

lemma replaced: "\<exists>x. r = Inr x \<Longrightarrow> snd (replace_snapshot r next s) = None"
  by (auto simp: replace_snapshot_def)

lemma answering_listing: "snd (listing_refresh keep convert key what (listing_of xs) s) = None"
  by (simp add: listing_refresh_def listing_of_def replaced)

lemma answering_clusters: "\<exists>cs. list_clusters f (w_databases (answering req stock)) = Inr cs"
  unfolding list_clusters_def
  by (subst list_clusters_from.simps)
    (auto simp: answering_def under_ctx_def ctx_err_def living_def wrap64_def list_clusters_from.simps [of _ _ "Suc 0"]
      databases_per_page_def split: prod.splits)

lemma answering_databases: "snd (databases_refresh ask f (w_databases (answering req stock)) s) = None"
proof -
  have "\<exists>cl'. refresh_details ask (w_databases (answering req stock)) previous cl = Inr cl'" for previous cl
    by (simp add: refresh_details_def lookup_details_def list_replicas_def list_backups_def answering_def)
  then have "\<exists>cls. map_res (refresh_details ask (w_databases (answering req stock)) previous) cs = Inr cls"
    for previous cs by (intro map_res_succeeds)
  then show ?thesis
    using answering_clusters [of f req stock] unfolding databases_refresh_def
    by (intro replaced) (auto simp: and_then_Inr)
qed

lemma new_pools_succeeds: "None \<notin> set nps \<Longrightarrow> \<exists>ps. new_pools nps = Inr ps"
  by (induction nps rule: new_pools.induct) (auto simp: and_then_Inr)

lemma answering_kubernetes:
  assumes "readable pf stock"
  shows "snd (k8s_refresh ask f (w_kubernetes (answering req stock)) s) = None"
proof -
  let ?api = "w_kubernetes (answering req stock)"
  have upgrades: "\<exists>cl'. refresh_upgrades ask ?api previous cl = Inr cl'" for previous cl
    by (simp add: refresh_upgrades_def answering_def)
  have clusters: "\<exists>cls. convert_clusters ask ?api previous kcs = Inr cls"
    if "\<And>kc. kc \<in> set kcs \<Longrightarrow> None \<notin> set (gc_node_pools kc)" for previous kcs
    using that
  proof (induction kcs)
    case (Cons kc kcs)
    then obtain ps where "new_pools (gc_node_pools kc) = Inr ps" using new_pools_succeeds by fastforce
    then obtain cl where "new_cluster kc = Inr cl" by (simp add: new_cluster_def)
    moreover obtain cl' where "refresh_upgrades ask ?api previous cl = Inr cl'" using upgrades by blast
    ultimately show ?case using Cons by auto
  qed simp
  have "None \<notin> set (gc_node_pools kc)" if "kc \<in> set (first_by gc_id (iv_clusters stock))" for kc
    using that assms set_first_by_subset [of gc_id "iv_clusters stock"] by (auto simp: readable_def)
  then show ?thesis
    unfolding k8s_refresh_def
    by (intro replaced) (simp add: answering_def, rule clusters [unfolded answering_def, simplified], simp)
qed

lemma answering_uptime: "snd (uptime_refresh pt (w_uptime (answering req stock)) s) = None"
proof -
  have "\<exists>ck'. refresh_state pt (w_uptime (answering req stock)) previous ck = Inr ck'" for previous ck
    by (simp add: refresh_state_def answering_def)
  then have "\<exists>cks. map_res (refresh_state pt (w_uptime (answering req stock)) previous) cks0 = Inr cks"
    for previous cks0 by (intro map_res_succeeds)
  then show ?thesis
    unfolding uptime_refresh_def by (intro replaced) (simp add: answering_def)
qed

lemma answering_projects: "snd (projects_refresh (w_projects (answering req stock)) s) = None"
proof -
  have "snd (measure_project (w_projects (answering req stock)) previous p) = None" for previous p
    by (simp add: measure_project_def count_resources_def answering_def Let_def)
  then have "List.map_filter snd (map (measure_project (w_projects (answering req stock)) previous) ps) = []"
    for previous ps by (auto simp: map_filter_def filter_empty_conv)
  then show ?thesis by (simp add: projects_refresh_def Let_def) (simp add: answering_def)
qed

lemma answering_registry: "snd (registry_refresh (w_registry (answering req stock)) s) = None"
proof -
  have "repositories (w_registry (answering req stock)) multi name =
      Inr (map new_repository (iv_repositories stock name))" for multi name
    by (simp add: repositories_def repositories_from.simps answering_def under_ctx_def ctx_err_def living_def)
  then have "report_failures (read_all (w_registry (answering req stock)) multi regs) = None" for multi regs
    by (simp add: report_failures_def read_all_def Let_def filter_empty_conv filter_map comp_def)
  then show ?thesis
    by (cases "iv_registries stock")
      (auto simp: registry_refresh_def list_registries_def subscription_def is_not_found_def Let_def
        answering_def split: sum.splits)
qed

lemma answering_spaces:
  assumes "readable pf stock"
  shows "snd (spaces_refresh (w_spaces (answering req stock)) c) = None"
proof -
  have "br_err (measure_bucket (w_spaces (answering req stock)) b) = None" for b
  proof -
    let ?header = "iv_bucket_header stock (snd b) (fst b)"
    obtain objects bytes where "atoi (?header object_count_header) = Some objects"
      and "atoi (?header bytes_used_header) = Some bytes"
      and "?header object_count_header \<noteq> ''''" and "?header bytes_used_header \<noteq> ''''"
      using assms unfolding readable_def by blast
    then have "bucket_usage (se_head (w_spaces (answering req stock)) (snd b)) (fst b) =
        Inr \<lparr>us_objects = objects, us_bytes = bytes\<rparr>"
      by (simp add: bucket_usage_cases answering_def)
    then show ?thesis by (simp add: measure_bucket_def)
  qed
  then have "spaces_report (spaces_measure_all (w_spaces (answering req stock)) bs) = None" for bs
    by (simp add: spaces_report_def spaces_measure_all_def Let_def filter_map comp_def)
  moreover have "\<exists>bs. resolve_buckets (w_spaces (answering req stock)) c = Inr bs"
    by (simp add: resolve_buckets_def discover_def answering_def)
  ultimately show ?thesis by (auto simp: spaces_refresh_def Let_def)
qed

text \<open>A monitoring API that answers every request with a response that can be read.\<close>

definition all_measured :: "('e \<Rightarrow> metrics_request \<Rightarrow> metrics_response option res) \<Rightarrow> bool" where
  "all_measured fetch \<longleftrightarrow> (\<forall>endpoint rq. \<exists>streams. fetch endpoint rq = measured_series streams)"

lemma dm_measure_succeeds:
  "all_measured fetch \<Longrightarrow> \<exists>d. dm_measure_specs fetch ref req specs out = Inr d"
proof (induction specs arbitrary: out)
  case (Cons s specs)
  obtain streams where "fetch (sp_fetch s) req = measured_series streams" using Cons.prems
    unfolding all_measured_def by blast
  with Cons show ?case by (simp add: measured_series_def latest_def)
qed simp

lemma answering_droplet_metrics:
  assumes "readable pf stock"
  shows "snd (dm_refresh (w_dropletmetrics (answering req stock)) c) = None"
proof -
  let ?env = "w_dropletmetrics (answering req stock)"
  have "\<exists>refs. dm_list_droplets ?env c = Inr refs"
    by (simp add: dm_list_droplets_def answering_def droplets_of_def Let_def split: option.split)
  then obtain refs where refs: "dm_list_droplets ?env c = Inr refs" by blast
  let ?results = "dm_measure_all ?env (dm_rotate (dm_cursor c) refs)"
  have "\<exists>d. dm_measure (dme_fetch ?env) ref start end = Inr d" for ref start "end"
    unfolding dm_measure_def by (rule dm_measure_succeeds) (auto simp: answering_def all_measured_def)
  then have ok: "dmr_err (dm_outcome ?env rs i) = None" for rs i
    by (auto simp: dm_outcome_def split: sum.split) (metis Inr_not_Inl)
  have "?results = [] \<or> (\<exists>r \<in> set ?results. dmr_err r = None)"
  proof (cases "refs = []")
    case True
    then show ?thesis by (simp add: dm_measure_all_def fan_out_def dm_rotate_def)
  next
    case False
    then have l: "0 < length (dm_rotate (dm_cursor c) refs)" by (simp add: dm_rotation.length_rotate)
    moreover have "0 < dme_queued ?env" using assms by (simp add: readable_def answering_def)
    ultimately have "?results ! 0 = dm_outcome ?env (dm_rotate (dm_cursor c) refs) 0"
      by (simp add: nth_dm_measure_all)
    then have "dmr_err (?results ! 0) = None" by (simp add: ok)
    with l show ?thesis by (metis length_dm_measure_all nth_mem)
  qed
  moreover have "dme_after ?env = None" by (simp add: answering_def)
  ultimately show ?thesis by (simp add: dm_refresh_def refs Let_def dm_report_error)
qed

lemma lb_fetch_succeeds:
  "all_measured fetch \<Longrightarrow> \<exists>out'. lb_fetch_spec fetch req s out = Inr out'"
proof -
  assume "all_measured fetch"
  then obtain streams where "fetch (ls_fetch s) req = measured_series streams"
    unfolding all_measured_def by blast
  then show ?thesis by (simp add: lb_fetch_spec_def measured_series_def latest_def)
qed

lemma lb_measure_succeeds:
  assumes "all_measured fetch"
  shows "\<exists>out'. lb_measure_base fetch req specs out = Inr out'"
    and "\<exists>out'. lb_measure_extended fetch req specs out = Inr out'"
proof -
  show "\<exists>out'. lb_measure_base fetch req specs out = Inr out'"
  proof (induction specs arbitrary: out)
    case (Cons s specs)
    obtain out' where "lb_fetch_spec fetch req s out = Inr out'"
      using lb_fetch_succeeds [OF assms] by blast
    with Cons show ?case by simp
  qed simp
  show "\<exists>out'. lb_measure_extended fetch req specs out = Inr out'"
  proof (induction specs arbitrary: out)
    case (Cons s specs)
    obtain out' where "lb_fetch_spec fetch req s out = Inr out'"
      using lb_fetch_succeeds [OF assms] by blast
    with Cons show ?case by simp
  qed simp
qed

lemma answering_balancer_metrics:
  assumes "readable pf stock"
  shows "snd (lb_refresh (w_loadbalancermetrics (answering req stock)) c) = None"
proof -
  let ?env = "w_loadbalancermetrics (answering req stock)"
  obtain refs where refs: "lb_list_load_balancers ?env c = Inr refs"
    by (simp add: lb_list_load_balancers_def answering_def)
  let ?refs = "lb_rotate (lbc_cursor c) refs"
  let ?results = "lb_measure_all ?env (lbc_extended c) ?refs"
  have "\<exists>lb. lb_measure (lbe_fetch ?env) extended ref start end = Inr lb" for extended ref start "end"
  proof -
    have fetched: "all_measured (lbe_fetch ?env)" by (auto simp: answering_def all_measured_def)
    let ?req = "\<lparr>rq_id = ref_id ref, rq_start = start, rq_end = end\<rparr>"
    let ?out = "zero_load_balancer\<lparr>lb_id := ref_id ref, lb_name := ref_name ref, lb_up := Fin 1\<rparr>"
    obtain mid where "lb_measure_base (lbe_fetch ?env) ?req lb_specs ?out = Inr mid"
      using lb_measure_succeeds(1) [OF fetched] by blast
    moreover obtain lb where "lb_measure_extended (lbe_fetch ?env) ?req lb_extended_specs mid = Inr lb"
      using lb_measure_succeeds(2) [OF fetched] by blast
    ultimately show ?thesis by (simp add: lb_measure_def Let_def)
  qed
  then have ok: "lbr_err (lb_outcome ?env extended rs i) = None" for extended rs i
    by (auto simp: lb_outcome_def split: sum.split) (metis Inr_not_Inl)
  have "?results = [] \<or> (\<exists>r \<in> set ?results. lbr_err r = None)"
  proof (cases "refs = []")
    case True
    then show ?thesis by (simp add: lb_measure_all_def fan_out_def lb_rotate_def)
  next
    case False
    then have l: "0 < length ?refs" by (simp add: lb_rotation.length_rotate)
    moreover have "0 < lbe_queued ?env" using assms by (simp add: readable_def answering_def)
    ultimately have "?results ! 0 = lb_outcome ?env (lbc_extended c) ?refs 0"
      by (simp add: lb_measure_all_def fan_out_nth)
    then have "lbr_err (?results ! 0) = None" by (simp add: ok)
    moreover have "0 < length ?results" using l by (simp add: lb_measure_all_def fan_out_length)
    ultimately show ?thesis by (metis nth_mem)
  qed
  moreover have "lbe_after ?env = None" by (simp add: answering_def)
  ultimately show ?thesis by (simp add: lb_refresh_def refs Let_def lb_report_error)
qed

lemma answering_apps: "snd (apps_refresh (w_apps (answering req stock)) s) = None"
proof -
  have "nil_panics (one_page (map Some as)) = one_page (map Some as)" for as :: "godo_app list"
    by (rule ext)+ (simp add: nil_panics_def one_page_def)
  then show ?thesis
    by (simp add: apps_refresh_def answering_def listing_of_def escape_panic_def replaced)
qed

lemma answering_pools: "snd (autoscale_refresh (w_dropletautoscale (answering req stock)) s) = None"
proof -
  have "list_pools (w_dropletautoscale (answering req stock)) = one_page (iv_pools stock)"
    by (rule ext)+ (simp add: list_pools_def one_page_def answering_def Let_def)
  moreover have "aa_ctx (w_dropletautoscale (answering req stock)) = living" by (simp add: answering_def)
  ultimately show ?thesis by (simp add: autoscale_refresh_def replaced)
qed

lemma answering_balance:
  "readable pf stock \<Longrightarrow> snd (balance_refresh pf (w_balance (answering req stock)) s) = None"
  unfolding balance_refresh_def
  by (rule replaced) (auto simp: read_balance_def parse_amount_def answering_def readable_def)

lemma answering_simple:
  "snd (account_refresh (w_account (answering req stock)) s0) = None"
  "snd (droplets_refresh pt f (w_droplets (answering req stock)) s3) = None"
  "snd (images_refresh pt (w_images (answering req stock)) s5) = None"
  "snd (limits_refresh (w_limits (answering req stock)) s7) = None"
  "snd (reserved_ips_refresh (w_reservedips (answering req stock)) s9) = None"
  "snd (volumes_refresh f (w_volumes (answering req stock)) s11) = None"
  "snd (balancers_refresh f (w_loadbalancers (answering req stock)) s12) = None"
  "snd (cdn_refresh (w_cdn (answering req stock)) s13) = None"
  "snd (domains_refresh (w_domains (answering req stock)) s15) = None"
  "snd (firewalls_refresh f (w_firewalls (answering req stock)) s16) = None"
  "snd (certificates_refresh pt (w_certificates (answering req stock)) s17) = None"
  "snd (tags_refresh (w_tags (answering req stock)) s18) = None"
  by (simp_all add: answering_def answering_listing account_refresh_def droplets_refresh_def
    droplets_of_def droplet_listing_def images_refresh_def limits_refresh_def count_droplets_def
    count_reserved_ips_def count_volumes_def total_of_def reserved_ips_refresh_def
    volumes_refresh_def balancers_refresh_def cdn_refresh_def domains_refresh_def
    firewalls_refresh_def certificates_refresh_def tags_refresh_def replaced
    split: option.split prod.split)

text \<open>A table entry whose every refresh succeeds when it is answered.\<close>

definition recovers ::
  "(string \<Rightarrow> float64 res) \<Rightarrow> string \<Rightarrow> ('req world, fleet_state) collector_obj \<Rightarrow> bool" where
  "recovers pf name c \<longleftrightarrow>
     (\<forall>req stock ctx st. readable pf stock \<longrightarrow> belongs name st \<longrightarrow>
        snd (guarded_refresh (c\<lparr>co_state := st\<rparr>) (\<lambda>ctx. answering req stock) ctx) = None)"

lemma hosted_recovers:
  assumes "\<And>t. belongs name t \<Longrightarrow> \<exists>s. t = wrap s" and "\<And>s. unwrap (wrap s) = s"
    and "\<And>req stock s. readable pf stock \<Longrightarrow> snd (r (asked (answering req stock)) s) = None"
  shows "recovers pf name (hosted name ds r c s0 asked wrap unwrap)"
  using assms by (fastforce simp: recovers_def hosted_refresh)

lemmas answering_refreshes = answering_simple answering_balance answering_databases answering_pools
  answering_kubernetes answering_registry answering_spaces answering_apps answering_projects
  answering_droplet_metrics answering_balancer_metrics answering_uptime

lemma objects_recover:
  "recovers pf ''account'' (account_object)"
  "recovers pf ''balance'' (balance_object pf)"
  "recovers pf ''databases'' (databases_object cfg)"
  "recovers pf ''droplets'' (droplets_object pt cfg)"
  "recovers pf ''dropletautoscale'' (dropletautoscale_object)"
  "recovers pf ''images'' (images_object pt)"
  "recovers pf ''kubernetes'' (kubernetes_object cfg)"
  "recovers pf ''limits'' (limits_object)"
  "recovers pf ''registry'' (registry_object)"
  "recovers pf ''reservedips'' (reservedips_object)"
  "recovers pf ''spaces'' (spaces_object cfg)"
  "recovers pf ''volumes'' (volumes_object cfg)"
  "recovers pf ''loadbalancers'' (loadbalancers_object cfg)"
  "recovers pf ''cdn'' (cdn_object)"
  "recovers pf ''apps'' (apps_object)"
  "recovers pf ''domains'' (domains_object)"
  "recovers pf ''firewalls'' (firewalls_object cfg)"
  "recovers pf ''certificates'' (certificates_object pt)"
  "recovers pf ''tags'' (tags_object)"
  "recovers pf ''projects'' (projects_object)"
  "recovers pf ''dropletmetrics'' (dropletmetrics_object cfg)"
  "recovers pf ''loadbalancermetrics'' (loadbalancermetrics_object cfg)"
  "recovers pf ''uptime'' (uptime_object pt)"
  unfolding object_defs
  by (rule hosted_recovers, auto simp only: object_states, simp, rule answering_refreshes, assumption?)+

lemma available_recovers: "list_all (\<lambda>(name, c). recovers pf name c) (available pt pf cfg)"
  by (simp add: available_def objects_recover)

section \<open>A stretch of a run\<close>

definition answered_call :: "(string \<Rightarrow> float64 res) \<Rightarrow> 'req world refresh_input \<Rightarrow> bool" where
  "answered_call pf inp \<longleftrightarrow>
     (\<exists>req stock. readable pf stock \<and> ri_world inp = (\<lambda>ctx. answering req stock))"

lemma answered_refresh:
  assumes "entries_all (serves (available pt pf cfg)) q" and "i < length (sc_entries q)"
    and "answered_call pf inp"
  shows "snd (refresh_result i inp q) = None"
proof -
  let ?e = "sc_entries q ! i"
  obtain req stock where m: "readable pf stock" "ri_world inp = (\<lambda>ctx. answering req stock)"
    using assms(3) by (auto simp: answered_call_def)
  obtain name c0 st where t: "(name, c0) \<in> set (available pt pf cfg)"
    and c: "en_collector ?e = c0\<lparr>co_state := st\<rparr>" and b: "belongs name st"
    using assms(1,2) by (auto simp: entries_all_def serves_def dest!: nth_mem)
  have "recovers pf name c0" using t available_recovers [of pf pt cfg] by (auto simp: list_all_iff)
  then show ?thesis using b m by (simp add: recovers_def refresh_result_def Let_def c)
qed

lemma answered_refreshes:
  assumes "entries_all (serves (available pt pf cfg)) q"
    and "\<And>i inp. (i, inp) \<in> set calls \<Longrightarrow> i < length (sc_entries q) \<and> answered_call pf inp"
  shows "map (\<lambda>(name, shutdown, err). (name, err)) (outcomes calls q) =
    map (\<lambda>(i, inp). (names q ! i, None)) calls"
  using assms
proof (induction calls arbitrary: q)
  case (Cons call calls)
  obtain i inp where [simp]: "call = (i, inp)" by fastforce
  have i: "i < length (sc_entries q)" "answered_call pf inp" using Cons.prems(2) [of i inp] by auto
  have "entries_all (serves (available pt pf cfg)) (scheduler_refresh i inp q)"
    by (rule entries_all_refresh [where P = "serves (available pt pf cfg)", OF serves_step Cons.prems(1)])
  moreover have "names (scheduler_refresh i inp q) = names q"
    using refresh_all_kept(1) [of "[(i, inp)]" q] by (simp add: names_def)
  ultimately show ?case
    using Cons.IH [of "scheduler_refresh i inp q"] Cons.prems(2) answered_refresh [OF Cons.prems(1) i] i(1)
    by (auto simp: names_def)
qed simp

text \<open>While the run is not shut down, every loop can come to refresh.\<close>

lemma run_refreshes_each:
  assumes "run_reach s r" and "\<not> run_done r" and "k \<le> length (sc_entries s)"
  shows "\<exists>r'. run_step\<^sup>*\<^sup>* r r' \<and> \<not> run_done r' \<and> run_log r' = run_log r @ map (\<lambda>i. (i, inp)) [0..<k]"
  using assms(3)
proof (induction k)
  case 0
  show ?case using assms(2) by (intro exI [of _ r]) simp
next
  case (Suc k)
  then obtain q where q: "run_step\<^sup>*\<^sup>* r q" "\<not> run_done q"
    "run_log q = run_log r @ map (\<lambda>i. (i, inp)) [0..<k]" by auto
  have inv: "run_inv s q" using pending_after_steps [OF assms(1) q(1)] run_reach_inv by blast
  then have k: "k < length (run_phases q)" "phase_ok s q k" using Suc.prems by (auto simp: run_inv_def)
  then have "run_step q (run_refresh k inp q)"
    using q(2) run_step.first [of k q] run_step.tick [of k q]
    by (cases "run_phases q ! k") (auto simp: phase_ok_def)
  with q show ?case
    by (intro exI [of _ "run_refresh k inp q"])
      (auto simp: run_refresh_def intro: rtranclp.rtrancl_into_rtrancl)
qed

lemma answered_stretch:
  fixes pt pf cfg
  defines "s \<equiv> (fleet pt pf cfg :: ('req world, fleet_state) scheduler)"
  assumes "run_reach s r" and "run_step\<^sup>*\<^sup>* r r'" and "run_log r' = run_log r @ calls"
    and "list_all (\<lambda>(i, inp). answered_call pf inp) calls"
  shows "run_scheduler r' = refresh_all calls (run_scheduler r)"
    and "map (\<lambda>(name, shutdown, err). (name, err)) (outcomes calls (run_scheduler r)) =
      map (\<lambda>(i, inp). (names s ! i, None)) calls"
proof -
  have r': "run_reach s r'" using pending_after_steps [OF assms(2,3)] by blast
  then show "run_scheduler r' = refresh_all calls (run_scheduler r)"
    by (simp add: run_refines [OF r'] run_refines [OF assms(2)] assms(4))
  have "i < length (sc_entries (run_scheduler r)) \<and> answered_call pf inp" if "(i, inp) \<in> set calls" for i inp
    using that assms(5) run_reach_inv [OF r']
    by (auto simp: run_inv_def assms(4) list_all_iff run_refines [OF assms(2)])
  then show "map (\<lambda>(name, shutdown, err). (name, err)) (outcomes calls (run_scheduler r)) =
      map (\<lambda>(i, inp). (names s ! i, None)) calls"
    using answered_refreshes [OF fleet_serves [OF assms(2) [unfolded s_def]], of calls]
    by (simp add: run_refines [OF assms(2)])
qed

lemma all_ready:
  assumes "map (\<lambda>(name, shutdown, err). (name, err)) (outcomes calls q) =
      map (\<lambda>(i, inp). (names q ! i, None)) calls"
    and "set [0..<length (sc_entries q)] \<subseteq> fst ` set calls"
  shows "pending (refresh_all calls q) = []"
proof -
  have "sc_ready (refresh_all calls q) name = Some True" if "name \<in> set (names q)" for name
  proof -
    obtain i where i: "i < length (sc_entries q)" "name = names q ! i"
      using \<open>name \<in> set (names q)\<close> by (auto simp: in_set_conv_nth names_def)
    then obtain inp where "(i, inp) \<in> set calls" using assms(2) by fastforce
    then have "(name, None) \<in> set (map (\<lambda>(i, inp). (names q ! i, None :: goerr option)) calls)"
      using i(2) by force
    then have "\<exists>sh. (name, sh, None) \<in> set (outcomes calls q)"
      unfolding assms(1) [symmetric] by auto
    then show ?thesis by (simp add: ready_history)
  qed
  then show ?thesis by (simp add: pending_def filter_empty_conv flip: names_def)
qed

lemma no_failures:
  assumes "map (\<lambda>(name, shutdown, err). (name, err)) outs = map (\<lambda>(i, inp). (f i, None)) calls"
  shows "list_all (\<lambda>(name, shutdown, err). err = None) outs"
proof -
  have "list_all (\<lambda>(name, err). err = None) (map (\<lambda>(name, shutdown, err). (name, err)) outs)"
    unfolding assms by (auto simp: list_all_iff)
  then show ?thesis by (auto simp: list_all_iff)
qed

section \<open>Property\<close>

text \<open>
  C6. Recovery. Whatever state a run has come to, refreshes that are answered in full all
  succeed, whatever is listed, as long as every list comes in one page and no cluster has a null
  node pool, and once every collector has had one, none is pending.
  While the run is not shut down, such refreshes can follow: no failure leaves the exporter in a
  state it cannot come back from.
\<close>

theorem fleet_recovers:
  assumes "s = fleet pt pf cfg" and "run_reach s r" and "readable pf stock"
  shows "(\<forall>calls r'. run_step\<^sup>*\<^sup>* r r' \<and> run_log r' = run_log r @ calls \<and>
        list_all (\<lambda>(i, inp). answered_call pf inp) calls \<longrightarrow>
      list_all (\<lambda>(name, shutdown, err). err = None) (outcomes calls (run_scheduler r)) \<and>
      (set [0..<length (sc_entries s)] \<subseteq> fst ` set calls \<longrightarrow> pending (run_scheduler r') = [])) \<and>
    (\<not> run_done r \<longrightarrow> (\<exists>r'. run_step\<^sup>*\<^sup>* r r' \<and> pending (run_scheduler r') = []))"
proof -
  let ?q = "run_scheduler r"
  have kept: "names ?q = names s" "length (sc_entries ?q) = length (sc_entries s)"
    by (simp_all add: run_refines [OF assms(2)])
  have answered: "list_all (\<lambda>(name, shutdown, err). err = None) (outcomes calls ?q) \<and>
      (set [0..<length (sc_entries s)] \<subseteq> fst ` set calls \<longrightarrow> pending (run_scheduler r') = [])"
    if "run_step\<^sup>*\<^sup>* r r'" and "run_log r' = run_log r @ calls"
      and "list_all (\<lambda>(i, inp). answered_call pf inp) calls" for calls r'
  proof -
    note stretch = answered_stretch [OF assms(2) [unfolded assms(1)] that]
    show ?thesis
      using no_failures [OF stretch(2)] all_ready [of calls ?q] stretch by (simp add: kept assms(1))
  qed
  moreover have "\<exists>r'. run_step\<^sup>*\<^sup>* r r' \<and> pending (run_scheduler r') = []" if live: "\<not> run_done r"
  proof -
    define inp :: "'a world refresh_input" where
      "inp = \<lparr>ri_world = (\<lambda>ctx. answering undefined stock), ri_seconds = Fin 0, ri_now = 0, ri_shutdown = False\<rparr>"
    let ?calls = "map (\<lambda>i. (i, inp)) [0..<length (sc_entries s)]"
    obtain r' where r': "run_step\<^sup>*\<^sup>* r r'" "run_log r' = run_log r @ ?calls"
      using run_refreshes_each [OF assms(2) live order_refl] by blast
    have "answered_call pf inp" using assms(3) by (auto simp: answered_call_def inp_def)
    then have "list_all (\<lambda>(i, inp). answered_call pf inp) ?calls" by (simp add: list_all_iff)
    moreover have "set [0..<length (sc_entries s)] \<subseteq> fst ` set ?calls" by (simp add: image_image)
    ultimately show ?thesis using answered [OF r'] r'(1) by blast
  qed
  ultimately show ?thesis by blast
qed


text \<open>An account with a droplet limit, no money and two objects in whatever bucket is asked for.\<close>

definition demo_stock :: inventory where
  "demo_stock =
     \<lparr>iv_account = \<lparr>ga_status = ''active'', ga_email_verified = True, ga_droplet_limit = 25,
        ga_floating_ip_limit = 0, ga_reserved_ip_limit = 3, ga_volume_limit = 10\<rparr>,
      iv_balance = \<lparr>gb_account_balance = ''0.00'', gb_month_to_date_balance = ''0.00'',
        gb_month_to_date_usage = ''0.00'', gb_generated_at = 7\<rparr>,
      iv_databases = [], iv_replicas = (\<lambda>i. []), iv_backups = (\<lambda>i. []), iv_droplets = [],
      iv_tagged = (\<lambda>tag. []), iv_pools = [], iv_images = [], iv_clusters = [demo_cluster],
      iv_upgrades = (\<lambda>i. []), iv_totals = (0, 0, 0), iv_registries = [], iv_subscription = None,
      iv_repositories = (\<lambda>name. []), iv_ips = [], iv_ips6 = [], iv_buckets = [Some ''a''],
      iv_bucket_region = (\<lambda>name. ''fra1''), iv_bucket_header = (\<lambda>region name header. ''2''),
      iv_volumes = [], iv_balancers = [demo_balancer [demo_rule 80]], iv_endpoints = [],
      iv_apps = [demo_app], iv_domains = [], iv_firewalls = [], iv_certificates = [], iv_tags = [],
      iv_projects = [], iv_resources = (\<lambda>i. []), iv_droplet_series = (\<lambda>endpoint req. []),
      iv_measured_balancers = [], iv_balancer_series = (\<lambda>endpoint req. []), iv_checks = [],
      iv_check_state = (\<lambda>i. demo_check_state), iv_now = 7, iv_queued = 1\<rparr>"

lemma fleet_recovers_witness:
  "\<exists>r'. run_step\<^sup>*\<^sup>* demo_fleet_run r' \<and> pending (run_scheduler r') = []"
proof -
  have "atoi ''2'' = Some 2" by code_simp
  then have "readable (\<lambda>t. Inr (Fin 0)) demo_stock"
    by (simp add: readable_def demo_stock_def demo_cluster_def)
  moreover have "\<not> run_done demo_fleet_run"
    by (simp add: demo_fleet_run_def run_refresh_def run_start_def Let_def)
  ultimately show ?thesis
    using fleet_recovers [OF demo_fleet_def demo_fleet_reach] by blast
qed

end
