(* ===== verification/Spec2Isabelle.thy ===== *)
theory Spec2Isabelle
  imports Recovery
begin

text \<open>
  A verification library for digitalocean_exporter, the Prometheus exporter for DigitalOcean.

  \<^bold>\<open>The program.\<close> cmd/digitalocean_exporter/main.go parses the configuration
  (internal/config), builds the API client (internal/doclient) and one collector per enabled
  name (internal/collector/<name>), registers them with the scheduler
  (internal/collector/scheduler.go) and serves metrics and probes. The scheduler runs one loop
  per collector: a staggered first Refresh, then one per tick. A Refresh reads the API, mostly a
  paged list (internal/paging) narrowed by the tag and region filter (internal/filter), or one
  monitoring request per metric and resource (internal/timeseries), and replaces the collector's
  snapshot; a scrape only reads snapshots. A request made during a Refresh carries the
  collector's name in its context and goes through the client's transport, which paces, counts
  and retries it.

  \<^bold>\<open>Shared vocabulary.\<close> Prelude: error values with their chains, results, 64-bit integers with
  their wrap-around. Go_Strings: the functions of strings, strconv and sort the sources use.
  Go_Float: float64 as NaN, the infinities or a rational, with the conversion of integers and
  division rounding half to even. Metrics: descriptors, metrics, and the three conditions the
  client library puts on what a collector sends (described, one value per label, no series
  twice).

  \<^bold>\<open>Services.\<close>
  Paging models \<open>paging.All\<close> over an endpoint that may answer every request differently; a context
  is the number of times it is still found alive, which bounds the walk. \<open>walk\<close> is its
  specification, and the loop is proved to return exactly the first item of every key of a walk.
  Tag_Filter models internal/filter and its single-tag shortcut. Timeseries models the choice of
  the newest usable point. Doclient models the transport over a world that the environment
  advances: attempts, the retry loop with the log of its waits, labels and rate-limit gauges; its
  environment can be run with a log of the requests that reached the API (\<open>logged\<close>), against which
  the counter and the histogram are checked.
  Config models the flag table, its validation, secrets, lists and buckets; kingpin and reading
  files are parameters. Version holds the build metadata.

  \<^bold>\<open>Contracts.\<close> Collector states what collector.go asks for as locales: \<open>collector\<close> (silent at
  first, always described), \<open>unique_collector\<close> (no series twice) and \<open>atomic_collector\<close> (a
  failed Refresh changes nothing), over a Refresh that is given what the environment answers.
  Every collector interprets the ones it meets. What several collectors have in common has a
  theory of its own: Listing (one paged list, converted entry by entry; locales \<open>plain_listing\<close>
  and \<open>listing\<close>), Remembering (a lookup per resource whose failure falls back on the previous
  snapshot; locale \<open>remembering\<close>), Counting (tallies by key), Statuses (one series per known
  status), Fanout (the rotation of the monitoring collectors, locale \<open>rotation\<close>, and their worker
  pool, a step relation over any interleaving refined to the sequential reading, and the same pool
  against the clock, \<open>timed_reach\<close>).

  \<^bold>\<open>Collectors.\<close>
  Droplets; Resource_Lists (domains, tags, volumes, firewalls); Edge_Lists (cdn, certificates,
  dropletautoscale); Loadbalancers; Apps; Counted_Lists (images, reservedips);
  Account_Collectors (account, balance, limits); Kubernetes, Databases, Uptime (lookups that
  keep the previous value); Projects and Registry (per-resource results merged into a map);
  Droplet_Metrics and Loadbalancer_Metrics (listing, rotation, fan-out, measurement, merge and
  report); Spacesclient and Spaces (discovery with the regions it remembers, usage headers,
  merge and report). Each models conversion, Refresh and Collect of its package.

  \<^bold>\<open>Composition.\<close> Scheduler models registration, the stagger, the guarded refresh and what it
  records, readiness, and Run as a step relation with a log of refreshes; its locale \<open>cells\<close> is
  what makes collectors independent of each other. Hosting puts collectors with different states
  under one scheduler. Routes models the answers of the probes, newHandler's table of routes and
  how net/http picks one; Serving the listening server, its shutdown and the end of the process
  as a step relation. Exporter models the registration loop and the order of a run.
  Fleet is the table of registerCollectors with all twenty-three collectors built from the
  configuration, over one state type (\<open>fleet_state\<close>) and one record of what the APIs answer
  (\<open>world\<close>). Exposition, Outage and Recovery are about runs of that whole exporter.

  \<^bold>\<open>What the properties show.\<close>
  Whole runs: every collector stays in a state of its own that meets its invariant, all that is
  sent was described, no two descriptors have the same name and a series is repeated only where
  one of seven collectors does so by itself, which takes parts of one resource that the API
  does not name apart (\<open>told_apart\<close>); a refresh that fails changes no metric of a collector, for
  all but the four that report by changing their snapshot, and shows only in the scheduler's own
  success and duration gauges of that collector; through an outage, whatever way its requests
  fail, the snapshots stay, refreshes fail and readiness does not move; refreshes that are
  answered in full, every list in one page, succeed from whatever state; what the configuration
  enables is scheduled in the order of the table, with its interval and its timeout.
  Rotation and pool: refreshes that are cut short still reach every droplet in the end, whatever
  the interleaving of the workers; each snapshot entry is the fresh reading or the old one marked
  down. With a single worker the next refresh always starts with the first droplet this one did
  not get to; with two or more, and only then, the cursor can pass a droplet that was never
  measured. A refresh that is cut short does replace the snapshot. Both are stated as the code
  has them. Lookups and counts: a failed lookup of one resource keeps what was known of it
  (databases, kubernetes, uptime, projects, registry), and counts agree with the resources they
  are sent with. The databases page loop stops at the first repetition, which loses clusters
  when a list shifts; a nil app panics; the registry collector takes one 404 for an empty
  account. Scheduler: readiness and the success gauge are functions of the history of
  refreshes, a collector is isolated from every other, the loops can end from any state, the
  offsets are distinct and below every interval. Client: at most the configured attempts, each
  that reached the API counted and timed once under its collector and resource; no wait outlives the deadline; a Retry-After is
  kept in full or not at all, unless its nanoseconds overflow; a refused limiter wait reads as
  starvation to the monitoring collectors. Configuration: what is accepted has positive
  intervals and timeouts, so the scheduler never falls back; NaN passes as a rate limit. HTTP:
  the probes answer by the history of refreshes and never go back; the exit code tells a
  shutdown from a failure, but the shutdown is not waited for.

  \<^bold>\<open>Bounds.\<close> The doubling wait is exact up to attempt 34 and wraps around at 35, so the
  property on waits assumes at most 35 attempts; the client is built with three. Conversions of
  integers to float64 are exact below \<open>2 ^ 53\<close>, which bounds the counted lists. Loops are
  structural, or terminate by the context (\<open>all_loop\<close>, the page loops of databases and registry),
  by the attempts left (\<open>round_trip_from\<close>), or by the input. The contexts of Outage are arbitrary; the
  answers of Recovery come in one page, under contexts found alive nine times, more often than one
  page takes.

  \<^bold>\<open>Not modelled.\<close> Log lines, help texts, mutexes (an operation under a lock is one step), the
  ticker's clock, the request header timeout and the status of a redirect, a nil element where the
  API library hands out pointers, other than the apps and the parts of a kubernetes cluster.
  Parameters stand for the API client library, kingpin, the rate limiter, the clock, the
  Prometheus handler, the landing page, \<open>strconv.ParseFloat\<close>, \<open>time.Parse\<close> and \<open>http.ParseTime\<close>.
\<close>

end
